(* ===== verification/GoPrelude.thy ===== *)
theory GoPrelude
  imports Main "HOL-Library.Word" "HOL-Library.Finite_Map" "HOL-Library.Multiset"
    "HOL-Library.Char_ord" "HOL-Library.List_Lexorder"
begin

text \<open>
  The vocabulary shared by every component: Go's integers, maps and iteration order, the
  outcome of a call (value, error or panic), sequential composition of calls that thread a
  state, and the generic lemmas on them.

  \<^item> A Go map is a finite map \<open>fmap\<close>: finite and extensional, so that
    \<open>reflect.DeepEqual\<close> on two maps is equality. The order of a \<open>range\<close> loop over a map is
    not specified by Go; it is a parameter of type \<open>range_order\<close>, any function that lists
    the keys once each (\<open>is_range_order\<close>).
  \<^item> A Go function that returns \<open>(value, error)\<close> returns an \<open>outcome\<close>: \<open>Ok\<close> for a nil error,
    \<open>Err\<close> for an error, \<open>Panic\<close> where the code would dereference nil or index out of range.
\<close>

section \<open>Integers\<close>

type_synonym int32 = "32 word"
type_synonym int64 = "64 word"

section \<open>Errors and outcomes\<close>

text \<open>
  An error value. \<open>ErrNotFound\<close> is the sentinel of \<open>pkg/common/errors.go\<close>; \<open>ErrApi nf msg\<close> is an
  error of the Kubernetes API, with \<open>nf\<close> what \<open>apierrors.IsNotFound\<close> answers for it;
  \<open>ErrText\<close> is any other error; \<open>ErrWrapped\<close> is an error annotated with a message, which unwraps
  to its cause.
\<close>

datatype goerror =
    ErrNotFound
  | ErrApi bool string
  | ErrText string
  | ErrWrapped goerror string

datatype 'a outcome = Ok 'a | Err goerror | Panic

primrec is_ok :: "'a outcome \<Rightarrow> bool" where
  "is_ok (Ok x) = True"
| "is_ok (Err e) = False"
| "is_ok Panic = False"

primrec err_of :: "'a outcome \<Rightarrow> goerror option" where
  "err_of (Ok x) = None"
| "err_of (Err e) = Some e"
| "err_of Panic = None"

lemma is_ok_iff: "is_ok r \<longleftrightarrow> (\<exists>x. r = Ok x)"
  by (cases r) simp_all

text \<open>
  \<open>bind_ok f g\<close> is Go's \<open>x, err := f(); if err != nil { return err }; g(x)\<close> on a threaded state.
\<close>

definition bind_ok ::
  "('s \<Rightarrow> 'a outcome \<times> 's) \<Rightarrow> ('a \<Rightarrow> 's \<Rightarrow> 'b outcome \<times> 's) \<Rightarrow> 's \<Rightarrow> 'b outcome \<times> 's" where
  "bind_ok f g s =
     (case f s of
        (Ok x, s') \<Rightarrow> g x s'
      | (Err e, s') \<Rightarrow> (Err e, s')
      | (Panic, s') \<Rightarrow> (Panic, s'))"

named_theorems go_defs \<open>definitions of the model that a functional proof unfolds\<close>

lemmas outcome_splits = outcome.splits prod.splits

lemma bind_ok_Ok [simp]: "f s = (Ok x, s') \<Longrightarrow> bind_ok f g s = g x s'"
  by (simp add: bind_ok_def)

lemma bind_ok_Err [simp]: "f s = (Err e, s') \<Longrightarrow> bind_ok f g s = (Err e, s')"
  by (simp add: bind_ok_def)

lemma bind_ok_Panic [simp]: "f s = (Panic, s') \<Longrightarrow> bind_ok f g s = (Panic, s')"
  by (simp add: bind_ok_def)

lemma bind_ok_eq_Ok:
  "bind_ok f g s = (Ok y, s2) \<longleftrightarrow> (\<exists>x s1. f s = (Ok x, s1) \<and> g x s1 = (Ok y, s2))"
  by (auto simp: bind_ok_def split: outcome_splits)

lemma bind_ok_OkE [elim]:
  assumes "bind_ok f g s = (Ok y, s2)"
  obtains x s1 where "f s = (Ok x, s1)" and "g x s1 = (Ok y, s2)"
  using assms by (auto simp: bind_ok_eq_Ok)

lemma bind_ok_Pair [simp]: "bind_ok (Pair (Ok x)) g = g x"
  by (simp add: bind_ok_def fun_eq_iff)

lemma bind_ok_assoc: "bind_ok (bind_ok f g) h = bind_ok f (\<lambda>x. bind_ok (g x) h)"
  by (auto simp: bind_ok_def fun_eq_iff split: outcome_splits)

definition return_value :: "'a \<Rightarrow> 's \<Rightarrow> 'a outcome \<times> 's" where
  "return_value v s = (Ok v, s)"

definition fail_with :: "goerror \<Rightarrow> 's \<Rightarrow> 'a outcome \<times> 's" where
  "fail_with e s = (Err e, s)"

lemma return_fail_simps [simp]:
  "return_value v s = (Ok v, s)" "fail_with e s = (Err e, s)"
  by (simp_all add: return_value_def fail_with_def)

subsection \<open>Invariants of calls\<close>

text \<open>
  \<open>keeps I f\<close>: the call \<open>f\<close> keeps the invariant \<open>I\<close> of its state, whatever it returns. The rules in
  \<open>keeps_rules\<close> take a body apart into its calls.
\<close>

definition keeps :: "('s \<Rightarrow> bool) \<Rightarrow> ('s \<Rightarrow> 'a outcome \<times> 's) \<Rightarrow> bool" where
  "keeps I f \<longleftrightarrow> (\<forall>s. I s \<longrightarrow> I (snd (f s)))"

named_theorems keeps_rules \<open>invariants of composed calls\<close>

lemma keepsI: "(\<And>s r s'. \<lbrakk>I s; f s = (r, s')\<rbrakk> \<Longrightarrow> I s') \<Longrightarrow> keeps I f"
  unfolding keeps_def by (metis prod.collapse)

lemma keepsD: "\<lbrakk>keeps I f; I s; f s = (r, s')\<rbrakk> \<Longrightarrow> I s'"
  by (auto simp: keeps_def)

lemma keeps_bind [keeps_rules]:
  assumes "keeps I f" and "\<And>x. keeps I (g x)"
  shows "keeps I (bind_ok f g)"
proof (rule keepsI)
  fix s r s'
  assume "I s" and b: "bind_ok f g s = (r, s')"
  obtain r1 s1 where f: "f s = (r1, s1)" by fastforce
  with assms(1) \<open>I s\<close> have "I s1" by (rule keepsD)
  then show "I s'" using b f keepsD [OF assms(2)] by (cases r1) (auto simp: bind_ok_def)
qed

lemma keeps_return [keeps_rules]: "keeps I (return_value v)" "keeps I (fail_with e)" "keeps I (Pair r)"
  by (simp_all add: keeps_def)

lemma keeps_option [keeps_rules]:
  "\<lbrakk>keeps I f; \<And>x. keeps I (g x)\<rbrakk> \<Longrightarrow> keeps I (case v of None \<Rightarrow> f | Some x \<Rightarrow> g x)"
  by (cases v) simp_all

lemma keeps_if [keeps_rules]: "\<lbrakk>keeps I f; keeps I g\<rbrakk> \<Longrightarrow> keeps I (if b then f else g)"
  by simp

text \<open>\<open>no_panic f\<close>: the call \<open>f\<close> never panics.\<close>

definition no_panic :: "('s \<Rightarrow> 'a outcome \<times> 's) \<Rightarrow> bool" where
  "no_panic f \<longleftrightarrow> (\<forall>s. fst (f s) \<noteq> Panic)"

named_theorems no_panic_rules \<open>absence of panics in composed calls\<close>

lemma no_panic_bind [no_panic_rules]:
  assumes "no_panic f" and "\<And>x. no_panic (g x)"
  shows "no_panic (bind_ok f g)"
  unfolding no_panic_def
proof
  fix s
  have "fst (f s) \<noteq> Panic" using assms(1) by (simp add: no_panic_def)
  then show "fst (bind_ok f g s) \<noteq> Panic"
    using assms(2) by (auto simp: bind_ok_def no_panic_def split: outcome_splits)
qed

lemma no_panic_return [no_panic_rules]:
  "no_panic (return_value v)" "no_panic (fail_with e)" "no_panic (Pair (Ok v))"
  by (simp_all add: no_panic_def)

lemma no_panic_if [no_panic_rules]: "\<lbrakk>no_panic f; no_panic g\<rbrakk> \<Longrightarrow> no_panic (if b then f else g)"
  by simp

section \<open>Maps and their iteration order\<close>

type_synonym range_order = "string fset \<Rightarrow> string list"

definition is_range_order :: "range_order \<Rightarrow> bool" where
  "is_range_order ord \<longleftrightarrow> (\<forall>K. distinct (ord K) \<and> set (ord K) = fset K)"

definition sorted_order :: range_order where
  "sorted_order K = sorted_list_of_set (fset K)"

lemma is_range_orderD [simp]:
  assumes "is_range_order ord"
  shows "distinct (ord K)" and "set (ord K) = fset K"
  using assms by (simp_all add: is_range_order_def)

lemma sorted_order_is_range_order: "is_range_order sorted_order"
  by (simp add: is_range_order_def sorted_order_def)

text \<open>The entries of a map in the order a \<open>range\<close> loop meets them.\<close>

definition map_entries :: "range_order \<Rightarrow> (string, 'v) fmap \<Rightarrow> (string \<times> 'v) list" where
  "map_entries ord m = map (\<lambda>k. (k, the (fmlookup m k))) (ord (fmdom m))"

definition map_values :: "range_order \<Rightarrow> (string, 'v) fmap \<Rightarrow> 'v list" where
  "map_values ord m = map snd (map_entries ord m)"

lemma map_fst_entries [simp]: "map fst (map_entries ord m) = ord (fmdom m)"
  by (simp add: map_entries_def comp_def)

lemma length_map_entries [simp]: "length (map_entries ord m) = length (ord (fmdom m))"
  by (simp add: map_entries_def)

lemma set_map_entries:
  assumes "is_range_order ord"
  shows "set (map_entries ord m) = {(k, v). fmlookup m k = Some v}"
  using assms by (force simp: map_entries_def fmlookup_dom_iff)

lemma set_map_values:
  assumes "is_range_order ord"
  shows "set (map_values ord m) = {v. \<exists>k. fmlookup m k = Some v}"
  using set_map_entries [OF assms, of m] by (force simp: map_values_def)

lemma distinct_entries: "is_range_order ord \<Longrightarrow> distinct (map fst (map_entries ord m))"
  by simp

lemma map_of_entries:
  assumes "is_range_order ord"
  shows "map_of (map_entries ord m) = fmlookup m"
proof
  fix k
  show "map_of (map_entries ord m) k = fmlookup m k"
    using assms set_map_entries [OF assms, of m] distinct_entries [OF assms, of m]
    by (cases "fmlookup m k")
       (auto simp: map_of_eq_None_iff fmdom_notI dest: fmdomI)
qed

section \<open>Filling a map from a list\<close>

text \<open>
  The loop \<open>for _, x := range xs { m[key(x)] = x }\<close> over an empty map: a later element
  replaces an earlier one with the same key.
\<close>

definition index_by :: "('a \<Rightarrow> string) \<Rightarrow> 'a list \<Rightarrow> (string, 'a) fmap" where
  "index_by key xs = foldl (\<lambda>m x. fmupd (key x) x m) fmempty xs"

lemma index_by_Nil [simp]: "index_by key [] = fmempty"
  by (simp add: index_by_def)

lemma index_by_snoc [simp]: "index_by key (xs @ [x]) = fmupd (key x) x (index_by key xs)"
  by (simp add: index_by_def)

lemma fmdom_index_by [simp]: "fmdom' (index_by key xs) = key ` set xs"
  by (induction xs rule: rev_induct) auto

lemma index_by_Some:
  "fmlookup (index_by key xs) k = Some x \<Longrightarrow> x \<in> set xs \<and> key x = k"
  by (induction xs rule: rev_induct) (auto split: if_splits)

lemma index_by_None: "fmlookup (index_by key xs) k = None \<longleftrightarrow> k \<notin> key ` set xs"
  by (induction xs rule: rev_induct) auto

lemma index_by_last:
  "fmlookup (index_by key xs) k = find (\<lambda>x. key x = k) (rev xs)"
  by (induction xs rule: rev_induct) auto

lemma key_of_map_values:
  assumes "is_range_order ord"
  shows "map key (map_values ord (index_by key xs)) = ord (fmdom (index_by key xs))"
proof -
  have "key (the (fmlookup (index_by key xs) k)) = k" if "k \<in> fset (fmdom (index_by key xs))" for k
  proof -
    from that obtain x where "fmlookup (index_by key xs) k = Some x"
      by (auto simp: fmlookup_dom_iff)
    then show ?thesis using index_by_Some [of key xs k x] by simp
  qed
  then have inv: "key (the (fmlookup (index_by key xs) k)) = k"
    if "k \<in> set (ord (fmdom (index_by key xs)))" for k
    using that assms by simp
  show ?thesis
    unfolding map_values_def map_entries_def list.map_comp comp_def snd_conv
    by (rule map_idI) (rule inv)
qed

lemma map_values_index_by:
  assumes "is_range_order ord"
  shows "set (map_values ord (index_by key xs)) \<subseteq> set xs"
    and "distinct (map key (map_values ord (index_by key xs)))"
    and "key ` set (map_values ord (index_by key xs)) = key ` set xs"
proof -
  show "set (map_values ord (index_by key xs)) \<subseteq> set xs"
    using assms by (auto simp: set_map_values dest: index_by_Some)
  show "distinct (map key (map_values ord (index_by key xs)))"
    using assms by (simp add: key_of_map_values)
  have "set (map key (map_values ord (index_by key xs))) = fmdom' (index_by key xs)"
    using assms by (simp only: key_of_map_values [OF assms]) (simp add: fmdom'_alt_def)
  then show "key ` set (map_values ord (index_by key xs)) = key ` set xs"
    by simp
qed

lemma index_by_distinct:
  assumes "distinct (map key xs)"
  shows "fmlookup (index_by key xs) k = Some x \<longleftrightarrow> x \<in> set xs \<and> key x = k"
  using assms by (induction xs rule: rev_induct) auto

lemma lookup_foldl_fmupd:
  assumes "distinct (map fst kvs)"
  shows "fmlookup (foldl (\<lambda>m (k, v). fmupd k v m) m kvs) k =
    (case map_of kvs k of Some v \<Rightarrow> Some v | None \<Rightarrow> fmlookup m k)"
  using assms
proof (induction kvs arbitrary: m)
  case Nil
  show ?case by simp
next
  case (Cons kv kvs)
  obtain k' v' where kv: "kv = (k', v')" by fastforce
  with Cons.prems have "map_of kvs k' = None" by (simp add: map_of_eq_None_iff)
  with Cons kv show ?case by (cases "k = k'") (simp_all split: option.splits)
qed

section \<open>Lists\<close>

lemma mset_map_inj:
  assumes "inj f"
  shows "mset (map f xs) = mset (map f ys) \<longleftrightarrow> mset xs = mset ys"
  using multiset.inj_map [OF assms, THEN inj_eq] by simp

lemma find_rev_distinct:
  fixes key :: "'a \<Rightarrow> string"
  assumes "distinct (map key xs)" and "x \<in> set xs"
  shows "find (\<lambda>y. key y = key x) (rev xs) = Some x"
  using index_by_distinct [of key xs "key x" x] assms by (simp add: index_by_last [symmetric])

end
