(* ===== verification/GoStrconv.thy ===== *)
theory GoStrconv
  imports GoPrelude
begin

text \<open>
  The parts of Go's \<open>strconv\<close>, \<open>strings\<close> and \<open>fmt\<close> that the program uses, on byte strings:
  \<open>Itoa\<close>/\<open>FormatInt\<close> and \<open>ParseUint\<close>/\<open>ParseInt\<close> in base 10, \<open>FormatBool\<close>/\<open>ParseBool\<close>,
  \<open>ReplaceAll\<close> of one byte, \<open>ToLower\<close> on ASCII; and the round trips between printing and parsing.
\<close>

section \<open>Decimal digits\<close>

definition digit_char :: "nat \<Rightarrow> char" where
  "digit_char d = char_of (48 + d)"

definition digit_of :: "char \<Rightarrow> nat option" where
  "digit_of c =
     (let n = (of_char c :: nat) in if 48 \<le> n \<and> n \<le> 57 then Some (n - 48) else None)"

lemma digit_of_char [simp]: "d < 10 \<Longrightarrow> digit_of (digit_char d) = Some d"
  by (simp add: digit_of_def digit_char_def)

lemma digit_of_lt: "digit_of c = Some d \<Longrightarrow> d < 10"
  by (auto simp: digit_of_def Let_def split: if_splits)

fun dec_digits :: "nat \<Rightarrow> string" where
  "dec_digits n =
     (if n < 10 then [digit_char n] else dec_digits (n div 10) @ [digit_char (n mod 10)])"

declare dec_digits.simps [simp del]

definition format_int :: "int \<Rightarrow> string" where
  "format_int i = (if i < 0 then CHR ''-'' # dec_digits (nat (- i)) else dec_digits (nat i))"

lemma dec_digits_not_Nil [simp]: "dec_digits n \<noteq> []"
  by (subst dec_digits.simps) simp

lemma dec_digits_are_digits: "c \<in> set (dec_digits n) \<Longrightarrow> digit_of c \<noteq> None"
proof (induction n rule: dec_digits.induct)
  case (1 n)
  then show ?case by (cases "n < 10") (auto simp: dec_digits.simps [of n])
qed

section \<open>Parsing\<close>

datatype num_error = ErrSyntax | ErrRange

text \<open>
  The digit loop of \<open>ParseUint\<close>: a byte that is no decimal digit is a syntax error, a value above
  \<open>maxVal\<close> a range error, whichever comes first.
\<close>

fun parse_digits :: "nat \<Rightarrow> nat \<Rightarrow> string \<Rightarrow> num_error + nat" where
  "parse_digits maxVal acc [] = Inr acc"
| "parse_digits maxVal acc (c # cs) =
     (case digit_of c of
        None \<Rightarrow> Inl ErrSyntax
      | Some d \<Rightarrow>
          if acc * 10 + d > maxVal then Inl ErrRange
          else parse_digits maxVal (acc * 10 + d) cs)"

definition parse_uint :: "nat \<Rightarrow> string \<Rightarrow> num_error + nat" where
  "parse_uint bitSize s = (if s = [] then Inl ErrSyntax else parse_digits (2 ^ bitSize - 1) 0 s)"

definition parse_int :: "nat \<Rightarrow> string \<Rightarrow> num_error + int" where
  "parse_int bitSize s =
     (case s of
        [] \<Rightarrow> Inl ErrSyntax
      | c # cs \<Rightarrow>
          let neg = (c = CHR ''-'');
              s' = (if c = CHR ''+'' \<or> c = CHR ''-'' then cs else s);
              cutoff = 2 ^ (bitSize - 1)
          in (case parse_uint bitSize s' of
                Inl e \<Rightarrow> Inl e
              | Inr un \<Rightarrow>
                  if \<not> neg \<and> un \<ge> cutoff then Inl ErrRange
                  else if neg \<and> un > cutoff then Inl ErrRange
                  else Inr (if neg then - int un else int un)))"

lemma parse_digits_append:
  "parse_digits M a (xs @ ys) =
     (case parse_digits M a xs of Inl e \<Rightarrow> Inl e | Inr b \<Rightarrow> parse_digits M b ys)"
  by (induction xs arbitrary: a) (auto split: option.splits)

lemma parse_digits_bound: "a \<le> M \<Longrightarrow> parse_digits M a s = Inr v \<Longrightarrow> v \<le> M"
  by (induction M a s rule: parse_digits.induct) (auto split: option.splits if_splits)

lemma parse_digits_dec_digits:
  "parse_digits M 0 (dec_digits n) = (if n \<le> M then Inr n else Inl ErrRange)"
proof (induction n rule: dec_digits.induct)
  case (1 n)
  show ?case
  proof (cases "n < 10")
    case True
    then show ?thesis by (simp add: dec_digits.simps [of n])
  next
    case False
    have "n div 10 \<le> M" if "n \<le> M" using that by linarith
    with False "1.IH" show ?thesis
      by (auto simp: dec_digits.simps [of n] parse_digits_append)
  qed
qed

lemma le_pow2_minus_1: "(n::nat) \<le> 2 ^ b - Suc 0 \<longleftrightarrow> n < 2 ^ b"
proof -
  have "(0::nat) < 2 ^ b" by simp
  then show ?thesis by linarith
qed

lemma parse_uint_bound: "parse_uint b s = Inr v \<Longrightarrow> v < 2 ^ b"
  using parse_digits_bound [of 0 "2 ^ b - 1" s v]
  by (auto simp: parse_uint_def le_pow2_minus_1 split: if_splits)

lemma parse_uint_dec_digits:
  "parse_uint b (dec_digits n) = (if n < 2 ^ b then Inr n else Inl ErrRange)"
  using le_pow2_minus_1 [of n b] by (simp add: parse_uint_def parse_digits_dec_digits)

lemma parse_uint_minus [simp]: "parse_uint b (CHR ''-'' # s) = Inl ErrSyntax"
  by (simp add: parse_uint_def digit_of_def)

lemma parse_uint_format_int:
  "parse_uint b (format_int i) =
     (if i < 0 then Inl ErrSyntax else if i < 2 ^ b then Inr (nat i) else Inl ErrRange)"
  by (auto simp: format_int_def parse_uint_dec_digits nat_less_iff)

lemma hd_dec_digits: "dec_digits n = c # cs \<Longrightarrow> c \<noteq> CHR ''-'' \<and> c \<noteq> CHR ''+''"
  using dec_digits_are_digits [of c n] by (auto simp: digit_of_def)

lemma parse_int_format_int:
  assumes "0 < b" and "- (2 ^ (b - 1)) \<le> i" and "i < 2 ^ (b - 1)"
  shows "parse_int b (format_int i) = Inr i"
proof (cases "i < 0")
  case True
  have le: "nat (- i) \<le> 2 ^ (b - 1)" using assms(2) by (simp add: nat_le_iff)
  moreover have "(2::nat) ^ (b - 1) < 2 ^ b" using assms(1) by simp
  ultimately have "nat (- i) < 2 ^ b" by (rule le_less_trans)
  then have "parse_uint b (dec_digits (nat (- i))) = Inr (nat (- i))"
    by (simp only: parse_uint_dec_digits if_True)
  with le show ?thesis
    using True by (simp add: format_int_def parse_int_def)
next
  case False
  obtain c cs where c: "dec_digits (nat i) = c # cs" by (cases "dec_digits (nat i)") auto
  have lt: "nat i < 2 ^ (b - 1)" using assms(3) False by (simp add: nat_less_iff)
  moreover have "(2::nat) ^ (b - 1) < 2 ^ b" using assms(1) by simp
  ultimately have "nat i < 2 ^ b" by (rule less_trans)
  then have "parse_uint b (c # cs) = Inr (nat i)"
    by (simp only: c [symmetric] parse_uint_dec_digits if_True)
  with lt show ?thesis
    using hd_dec_digits [OF c] False c by (simp add: format_int_def parse_int_def)
qed

section \<open>Booleans\<close>

definition format_bool :: "bool \<Rightarrow> string" where
  "format_bool b = (if b then ''true'' else ''false'')"

definition parse_bool :: "string \<Rightarrow> num_error + bool" where
  "parse_bool s =
     (if s \<in> {''1'', ''t'', ''T'', ''true'', ''TRUE'', ''True''} then Inr True
      else if s \<in> {''0'', ''f'', ''F'', ''false'', ''FALSE'', ''False''} then Inr False
      else Inl ErrSyntax)"

lemma parse_format_bool [simp]: "parse_bool (format_bool b) = Inr b"
  by (simp add: parse_bool_def format_bool_def)

section \<open>Strings\<close>

definition replace_char :: "char \<Rightarrow> char \<Rightarrow> string \<Rightarrow> string" where
  "replace_char old new s = map (\<lambda>c. if c = old then new else c) s"

definition lower_char :: "char \<Rightarrow> char" where
  "lower_char c =
     (let n = (of_char c :: nat) in if 65 \<le> n \<and> n \<le> 90 then char_of (n + 32) else c)"

definition to_lower :: "string \<Rightarrow> string" where
  "to_lower s = map lower_char s"

definition trim_prefix :: "string \<Rightarrow> string \<Rightarrow> string" where
  "trim_prefix s p = (if take (length p) s = p then drop (length p) s else s)"

lemma format_int_no_colon: "CHR '':'' \<notin> set (format_int i)"
  using dec_digits_are_digits [of "CHR '':''"] by (auto simp: format_int_def digit_of_def)

lemma format_int_nonneg_no_dash: "0 \<le> i \<Longrightarrow> CHR ''-'' \<notin> set (format_int i)"
  using dec_digits_are_digits [of "CHR ''-''"] by (auto simp: format_int_def digit_of_def)

lemma dec_digits_inj:
  assumes "dec_digits m = dec_digits n"
  shows "m = n"
proof -
  have "(Inr m :: num_error + nat) = parse_digits (m + n) 0 (dec_digits m)"
    by (simp add: parse_digits_dec_digits)
  also have "\<dots> = Inr n"
    by (simp add: assms parse_digits_dec_digits)
  finally show ?thesis by simp
qed

lemma dec_digits_no_minus: "dec_digits n \<noteq> CHR ''-'' # s" "CHR ''-'' # s \<noteq> dec_digits n"
proof -
  show "dec_digits n \<noteq> CHR ''-'' # s" using hd_dec_digits [of n "CHR ''-''" s] by blast
  then show "CHR ''-'' # s \<noteq> dec_digits n" by (rule not_sym)
qed

lemma format_int_inj:
  assumes eq: "format_int i = format_int j"
  shows "i = j"
proof (cases "i < 0"; cases "j < 0")
  assume "i < 0" and "j < 0"
  then have "nat (- i) = nat (- j)"
    using eq by (intro dec_digits_inj) (simp add: format_int_def)
  with \<open>i < 0\<close> \<open>j < 0\<close> show ?thesis by simp
next
  assume "\<not> i < 0" and "\<not> j < 0"
  then have "nat i = nat j"
    using eq by (intro dec_digits_inj) (simp add: format_int_def)
  with \<open>\<not> i < 0\<close> \<open>\<not> j < 0\<close> show ?thesis by simp
qed (use eq in \<open>simp_all add: format_int_def dec_digits_no_minus\<close>)

lemma split_last_sep:
  assumes "xs @ c # ys = xs' @ c # ys'" and "c \<notin> set ys" and "c \<notin> set ys'"
  shows "xs = xs' \<and> ys = ys'"
  using assms by (auto simp: append_eq_append_conv2 Cons_eq_append_conv append_eq_Cons_conv)

end
