(* ===== verification/CommonPkg.thy ===== *)
theory CommonPkg
  imports GoStrconv Complex_Main
begin

text \<open>
  \<open>pkg/common\<close> and \<open>pkg/version\<close>: the not-found error and the combination of two errors
  (\<open>errors.go\<close>), the rate limiters of the Cloud Map API calls (\<open>ratelimiter.go\<close>) and the version
  strings (\<open>version.go\<close>), and the logger (\<open>logger.go\<close>). The token bucket itself (\<open>golang.org/x/time/rate\<close>) is the parameter
  \<open>limiter_wait\<close> of \<open>rate_limiter_wait\<close>.
\<close>

section \<open>Errors\<close>

text \<open>\<open>errors.Is(err, notFound)\<close> follows the chain of wrapped causes down to the sentinel.\<close>

primrec errors_is_notFound :: "goerror \<Rightarrow> bool" where
  "errors_is_notFound ErrNotFound = True"
| "errors_is_notFound (ErrApi nf msg) = False"
| "errors_is_notFound (ErrText msg) = False"
| "errors_is_notFound (ErrWrapped e msg) = errors_is_notFound e"

primrec error_text :: "goerror \<Rightarrow> string" where
  "error_text ErrNotFound = ''resource was not found''"
| "error_text (ErrApi nf msg) = msg"
| "error_text (ErrText msg) = msg"
| "error_text (ErrWrapped e msg) = msg @ '': '' @ error_text e"

definition IsNotFound :: "goerror option \<Rightarrow> bool" where
  "IsNotFound err = (case err of None \<Rightarrow> False | Some e \<Rightarrow> errors_is_notFound e)"

definition IsUnknown :: "goerror option \<Rightarrow> bool" where
  "IsUnknown err = (case err of None \<Rightarrow> False | Some e \<Rightarrow> \<not> errors_is_notFound e)"

definition NotFoundError :: "string \<Rightarrow> goerror" where
  "NotFoundError message = ErrWrapped ErrNotFound message"

definition Wrap :: "goerror option \<Rightarrow> goerror option \<Rightarrow> goerror option" where
  "Wrap err1 err2 =
     (case (err1, err2) of
        (Some e1, Some e2) \<Rightarrow> Some (ErrWrapped e1 (error_text e2))
      | (Some e1, None) \<Rightarrow> Some e1
      | (None, Some e2) \<Rightarrow> Some e2
      | (None, None) \<Rightarrow> None)"

text \<open>\<open>apierrors.IsNotFound\<close> of the Kubernetes machinery, which also looks through wrapped errors.\<close>

primrec api_is_not_found :: "goerror \<Rightarrow> bool" where
  "api_is_not_found ErrNotFound = False"
| "api_is_not_found (ErrApi nf msg) = nf"
| "api_is_not_found (ErrText msg) = False"
| "api_is_not_found (ErrWrapped e msg) = api_is_not_found e"

lemma Wrap_simps [simp]:
  "Wrap None e = e"
  "Wrap (Some a) None = Some a"
  "Wrap (Some a) (Some b) = Some (ErrWrapped a (error_text b))"
  by (auto simp: Wrap_def split: option.splits)

lemma IsNotFound_simps [simp]:
  "\<not> IsNotFound None"
  "IsNotFound (Some e) = errors_is_notFound e"
  by (simp_all add: IsNotFound_def)

lemma IsUnknown_simps [simp]:
  "\<not> IsUnknown None"
  "IsUnknown (Some e) = (\<not> errors_is_notFound e)"
  by (simp_all add: IsUnknown_def)

lemma NotFoundError_is_not_found [simp]: "errors_is_notFound (NotFoundError m)"
  by (simp add: NotFoundError_def)

lemma Wrap_eq_None [simp]: "Wrap a b = None \<longleftrightarrow> a = None \<and> b = None"
  by (auto simp: Wrap_def split: option.splits)

text \<open>Folding \<open>Wrap\<close> over the results of several operations, as the loops that collect errors do.\<close>

definition wrap_all :: "goerror option \<Rightarrow> goerror option list \<Rightarrow> goerror option" where
  "wrap_all err rs = foldl Wrap err rs"

lemma wrap_all_simps [simp]:
  "wrap_all err [] = err"
  "wrap_all err (r # rs) = wrap_all (Wrap err r) rs"
  "wrap_all err (rs @ rs') = wrap_all (wrap_all err rs) rs'"
  by (simp_all add: wrap_all_def)

lemma wrap_all_eq_None: "wrap_all err rs = None \<longleftrightarrow> err = None \<and> (\<forall>r \<in> set rs. r = None)"
  by (induction rs arbitrary: err) auto

lemma IsNotFound_Wrap:
  "IsNotFound (Wrap a b) \<longleftrightarrow> (if a = None then IsNotFound b else IsNotFound a)"
  by (cases a; cases b) simp_all

lemma IsNotFound_wrap_all:
  "IsNotFound (wrap_all err rs) \<longleftrightarrow>
     (case dropWhile (\<lambda>r. r = None) (err # rs) of [] \<Rightarrow> False | r # _ \<Rightarrow> IsNotFound r)"
proof (induction rs arbitrary: err)
  case Nil
  show ?case by auto
next
  case (Cons r rs)
  show ?case
    by (cases err; cases r) (simp_all add: Cons.IH)
qed

section \<open>Rate limiters\<close>

datatype event =
    ListNamespaces
  | ListServices
  | GetOperation
  | DiscoverInstances
  | CreateHttpNamespace
  | CreateService
  | RegisterInstance
  | DeregisterInstance
  | OtherEvent string

primrec event_text :: "event \<Rightarrow> string" where
  "event_text ListNamespaces = ''ListNamespaces''"
| "event_text ListServices = ''ListServices''"
| "event_text GetOperation = ''GetOperation''"
| "event_text DiscoverInstances = ''DiscoverInstances''"
| "event_text CreateHttpNamespace = ''CreateHttpNamespace''"
| "event_text CreateService = ''CreateService''"
| "event_text RegisterInstance = ''RegisterInstance''"
| "event_text DeregisterInstance = ''DeregisterInstance''"
| "event_text (OtherEvent s) = s"

text \<open>\<open>rate.NewLimiter(limit, burst)\<close>: events per second and the size of the bucket.\<close>

record limiter =
  limit :: rat
  burst :: nat

type_synonym rate_limiter = "event \<rightharpoonup> limiter"

definition NewDefaultRateLimiter :: rate_limiter where
  "NewDefaultRateLimiter =
     [ListNamespaces \<mapsto> \<lparr>limit = 1 / 2, burst = 5\<rparr>,
      ListServices \<mapsto> \<lparr>limit = 2, burst = 10\<rparr>,
      GetOperation \<mapsto> \<lparr>limit = 100, burst = 200\<rparr>,
      DiscoverInstances \<mapsto> \<lparr>limit = 500, burst = 1000\<rparr>,
      CreateHttpNamespace \<mapsto> \<lparr>limit = 1 / 2, burst = 5\<rparr>,
      CreateService \<mapsto> \<lparr>limit = 5, burst = 50\<rparr>,
      RegisterInstance \<mapsto> \<lparr>limit = 50, burst = 100\<rparr>,
      DeregisterInstance \<mapsto> \<lparr>limit = 50, burst = 100\<rparr>]"

definition rate_limiter_wait ::
  "(limiter \<Rightarrow> 'w \<Rightarrow> unit outcome \<times> 'w) \<Rightarrow> rate_limiter \<Rightarrow> event \<Rightarrow> 'w \<Rightarrow> unit outcome \<times> 'w" where
  "rate_limiter_wait limiter_wait r ev w =
     (case r ev of
        Some l \<Rightarrow> limiter_wait l w
      | None \<Rightarrow>
          (Err (ErrText (''event '' @ event_text ev @ '' not found in the list of limiters'')), w))"

lemma default_limiter_defined:
  "\<exists>l. NewDefaultRateLimiter ev = Some l" if "\<forall>s. ev \<noteq> OtherEvent s"
  using that by (cases ev) (simp_all add: NewDefaultRateLimiter_def)

lemma wait_default:
  assumes "\<forall>s. ev \<noteq> OtherEvent s"
  shows "rate_limiter_wait lw NewDefaultRateLimiter ev w = lw (the (NewDefaultRateLimiter ev)) w"
  using default_limiter_defined [OF assms] by (auto simp: rate_limiter_wait_def)

section \<open>Version strings\<close>

record build_info =
  GitVersion :: string
  GitCommit :: string
  PackageName :: string

definition GetVersion :: "build_info \<Rightarrow> string" where
  "GetVersion b =
     (if GitCommit b \<noteq> '''' then trim_prefix (GitVersion b) ''v'' @ '' ('' @ GitCommit b @ '')''
      else '''')"

definition GetPackageVersion :: "build_info \<Rightarrow> string" where
  "GetPackageVersion b = PackageName b @ '' '' @ GetVersion b"

definition GetUserAgentKey :: "build_info \<Rightarrow> string" where
  "GetUserAgentKey b = PackageName b"

definition GetUserAgentValue :: "build_info \<Rightarrow> string" where
  "GetUserAgentValue b = (if GitVersion b \<noteq> '''' then trim_prefix (GitVersion b) ''v'' else '''')"

section \<open>Logging\<close>

text \<open>
  The logger wraps one of logr, of an unknown type \<open>'l\<close>; what is logged, \<open>'v\<close>, may be anything, and where it goes is in the
  world. \<open>lgRoot\<close> is \<open>ctrl.Log\<close>. The models of the other packages leave their calls of the logger out: they return nothing.
\<close>

record ('l, 'v, 'w) logr =
  lgRoot :: 'l
  lgWithName :: "'l \<Rightarrow> string \<Rightarrow> 'l"
  lgWithValues :: "'l \<Rightarrow> 'v list \<Rightarrow> 'l"
  lgV :: "'l \<Rightarrow> nat \<Rightarrow> 'l"
  lgInfo :: "'l \<Rightarrow> string \<Rightarrow> 'v list \<Rightarrow> 'w \<Rightarrow> 'w"
  lgError :: "'l \<Rightarrow> goerror option \<Rightarrow> string \<Rightarrow> 'v list \<Rightarrow> 'w \<Rightarrow> 'w"

record 'l logger =
  loggerLog :: 'l

definition NewLogger :: "('l, 'v, 'w) logr \<Rightarrow> string \<Rightarrow> string list \<Rightarrow> 'l logger" where
  "NewLogger G name names = \<lparr>loggerLog = foldl (lgWithName G) (lgWithName G (lgRoot G) name) names\<rparr>"

definition NewLoggerWithLogr :: "'l \<Rightarrow> 'l logger" where
  "NewLoggerWithLogr l = \<lparr>loggerLog = l\<rparr>"

definition logger_Info :: "('l, 'v, 'w) logr \<Rightarrow> 'l logger \<Rightarrow> string \<Rightarrow> 'v list \<Rightarrow> 'w \<Rightarrow> 'w" where
  "logger_Info G l msg keysAndValues = lgInfo G (lgV G (loggerLog l) 0) msg keysAndValues"

definition logger_Debug :: "('l, 'v, 'w) logr \<Rightarrow> 'l logger \<Rightarrow> string \<Rightarrow> 'v list \<Rightarrow> 'w \<Rightarrow> 'w" where
  "logger_Debug G l msg keysAndValues = lgInfo G (lgV G (loggerLog l) 1) msg keysAndValues"

definition logger_Error :: "('l, 'v, 'w) logr \<Rightarrow> 'l logger \<Rightarrow> goerror option \<Rightarrow> string \<Rightarrow> 'v list \<Rightarrow> 'w \<Rightarrow> 'w" where
  "logger_Error G l err msg keysAndValues = lgError G (loggerLog l) err msg keysAndValues"

definition logger_WithValues :: "('l, 'v, 'w) logr \<Rightarrow> 'l logger \<Rightarrow> 'v list \<Rightarrow> 'l logger" where
  "logger_WithValues G l keysAndValues = \<lparr>loggerLog = lgWithValues G (loggerLog l) keysAndValues\<rparr>"

text \<open>A logger is named by its path from the root, for any reading of names that \<open>WithName\<close> extends at the end.\<close>

lemma logger_path:
  assumes "\<And>l n. path (lgWithName G l n) = path l @ [n]"
  shows "path (loggerLog (NewLogger G name names)) = path (lgRoot G) @ name # names"
proof -
  have "path (foldl (lgWithName G) l names) = path l @ names" for l
    by (induction names arbitrary: l) (simp_all add: assms)
  then show ?thesis by (simp add: NewLogger_def assms)
qed

end
