(* ===== verification/ModelTypes.thy ===== *)
theory ModelTypes
  imports CommonPkg
begin

text \<open>
  \<open>pkg/model/types.go\<close>: namespaces, services, endpoints and ports, and the translation between an
  endpoint and the attribute map under which it is registered in Cloud Map. A removal function
  deletes its key from the attribute map it is given, so it is a step on that map as the state.
\<close>

section \<open>Namespaces and services\<close>

type_synonym attrs = "(string, string) fmap"

definition HttpNamespaceType :: string where "HttpNamespaceType = ''HTTP''"
definition DnsPrivateNamespaceType :: string where "DnsPrivateNamespaceType = ''DNS_PRIVATE''"
definition UnsupportedNamespaceType :: string where "UnsupportedNamespaceType = ''''"

record namespace =
  nsId :: string
  nsName :: string
  nsType :: string

definition ConvertNamespaceType :: "string \<Rightarrow> string" where
  "ConvertNamespaceType ty =
     (if ty = ''DNS_PRIVATE'' then DnsPrivateNamespaceType
      else if ty = ''HTTP'' then HttpNamespaceType
      else UnsupportedNamespaceType)"

definition IsUnsupported :: "string \<Rightarrow> bool" where
  "IsUnsupported namespaceType = (namespaceType = UnsupportedNamespaceType)"

definition HeadlessType :: string where "HeadlessType = ''Headless''"
definition ClusterSetIPType :: string where "ClusterSetIPType = ''ClusterSetIP''"

definition AddressTypeIPv4 :: string where "AddressTypeIPv4 = ''IPv4''"
definition AddressTypeIPv6 :: string where "AddressTypeIPv6 = ''IPv6''"

definition GetAddressTypeFromString :: "string \<Rightarrow> string outcome" where
  "GetAddressTypeFromString addressTypeStr =
     (if addressTypeStr = AddressTypeIPv4 then Ok AddressTypeIPv4
      else if addressTypeStr = AddressTypeIPv6 then Ok AddressTypeIPv6
      else Err (ErrText (''Invalid AddressType, could not parse from string: '' @ addressTypeStr)))"

record port =
  portName :: string
  portPort :: int32
  portTargetPort :: string
  portProtocol :: string

definition zero_port :: port where
  "zero_port = \<lparr>portName = '''', portPort = 0, portTargetPort = '''', portProtocol = ''''\<rparr>"

record endpoint =
  epId :: string
  epIP :: string
  epAddressType :: string
  epEndpointPort :: port
  epServicePort :: port
  epClusterId :: string
  epClusterSetId :: string
  epServiceType :: string
  epServiceExportCreationTimestamp :: int64
  epReady :: bool
  epHostname :: string
  epNodename :: string
  epAttributes :: attrs

record service =
  svcNamespace :: string
  svcName :: string
  svcEndpoints :: "endpoint list"

definition GetEndpoints :: "service \<Rightarrow> string \<Rightarrow> endpoint list" where
  "GetEndpoints svc clusterId = filter (\<lambda>endpt. epClusterId endpt = clusterId) (svcEndpoints svc)"

section \<open>Ports and identifiers\<close>

definition GetID :: "port \<Rightarrow> string" where
  "GetID p = portProtocol p @ '':'' @ format_int (sint (portPort p))"

definition port_Equals :: "port \<Rightarrow> port \<Rightarrow> bool" where
  "port_Equals p other = (p = other)"

definition endpoint_Equals :: "endpoint \<Rightarrow> endpoint \<Rightarrow> bool" where
  "endpoint_Equals e other = (e = other)"

definition EndpointIdFromIPAddressAndPort :: "string \<Rightarrow> port \<Rightarrow> string" where
  "EndpointIdFromIPAddressAndPort address p =
     to_lower (portProtocol p) @ ''-''
       @ replace_char CHR '':'' CHR ''_'' (replace_char CHR ''.'' CHR ''_'' address)
       @ ''-'' @ format_int (sint (portPort p))"

lemma format_sint_inj [simp]: "format_int (sint p) = format_int (sint q) \<longleftrightarrow> (p :: int32) = q"
  by (blast intro: signed_word_eqI dest: format_int_inj)

lemma GetID_inj:
  "GetID p = GetID q \<longleftrightarrow> portProtocol p = portProtocol q \<and> portPort p = portPort q"
proof
  assume "GetID p = GetID q"
  then have "portProtocol p @ CHR '':'' # format_int (sint (portPort p))
      = portProtocol q @ CHR '':'' # format_int (sint (portPort q))"
    by (simp add: GetID_def)
  from split_last_sep [OF this format_int_no_colon format_int_no_colon]
  show "portProtocol p = portProtocol q \<and> portPort p = portPort q"
    by simp
qed (simp add: GetID_def)

section \<open>Attribute keys\<close>

definition EndpointIpv4Attr :: string where "EndpointIpv4Attr = ''AWS_INSTANCE_IPV4''"
definition EndpointIpv6Attr :: string where "EndpointIpv6Attr = ''AWS_INSTANCE_IPV6''"
definition EndpointPortAttr :: string where "EndpointPortAttr = ''AWS_INSTANCE_PORT''"
definition EndpointPortNameAttr :: string where "EndpointPortNameAttr = ''ENDPOINT_PORT_NAME''"
definition EndpointProtocolAttr :: string where "EndpointProtocolAttr = ''ENDPOINT_PROTOCOL''"
definition EndpointReadyAttr :: string where "EndpointReadyAttr = ''READY''"
definition EndpointHostnameAttr :: string where "EndpointHostnameAttr = ''HOSTNAME''"
definition EndpointNodeNameAttr :: string where "EndpointNodeNameAttr = ''NODENAME''"
definition ClusterIdAttr :: string where "ClusterIdAttr = ''CLUSTER_ID''"
definition ClusterSetIdAttr :: string where "ClusterSetIdAttr = ''CLUSTERSET_ID''"
definition ServicePortNameAttr :: string where "ServicePortNameAttr = ''SERVICE_PORT_NAME''"
definition ServicePortAttr :: string where "ServicePortAttr = ''SERVICE_PORT''"
definition ServiceTargetPortAttr :: string where "ServiceTargetPortAttr = ''SERVICE_TARGET_PORT''"
definition ServiceProtocolAttr :: string where "ServiceProtocolAttr = ''SERVICE_PROTOCOL''"
definition ServiceTypeAttr :: string where "ServiceTypeAttr = ''SERVICE_TYPE''"
definition ServiceExportCreationAttr :: string where
  "ServiceExportCreationAttr = ''SERVICE_EXPORT_CREATION_TIMESTAMP''"
definition K8sVersionAttr :: string where "K8sVersionAttr = ''K8S_CONTROLLER''"

lemmas attr_key_defs =
  EndpointIpv4Attr_def EndpointIpv6Attr_def EndpointPortAttr_def EndpointPortNameAttr_def
  EndpointProtocolAttr_def EndpointReadyAttr_def EndpointHostnameAttr_def EndpointNodeNameAttr_def
  ClusterIdAttr_def ClusterSetIdAttr_def ServicePortNameAttr_def ServicePortAttr_def
  ServiceTargetPortAttr_def ServiceProtocolAttr_def ServiceTypeAttr_def
  ServiceExportCreationAttr_def K8sVersionAttr_def

text \<open>The keys the translation itself reads and writes.\<close>

definition reserved_keys :: "string list" where
  "reserved_keys =
     [EndpointIpv4Attr, EndpointIpv6Attr, EndpointPortAttr, EndpointPortNameAttr,
      EndpointProtocolAttr, EndpointReadyAttr, EndpointHostnameAttr, EndpointNodeNameAttr,
      ClusterIdAttr, ClusterSetIdAttr, ServicePortNameAttr, ServicePortAttr,
      ServiceTargetPortAttr, ServiceProtocolAttr, ServiceTypeAttr, ServiceExportCreationAttr]"

section \<open>Taking attributes out of the map\<close>

primrec num_error_text :: "num_error \<Rightarrow> string" where
  "num_error_text ErrSyntax = ''invalid syntax''"
| "num_error_text ErrRange = ''value out of range''"

definition missing_attr :: "string \<Rightarrow> goerror" where
  "missing_attr attr = ErrText (''cannot find the attribute '' @ attr)"

definition bad_attr :: "string \<Rightarrow> string \<Rightarrow> num_error \<Rightarrow> goerror" where
  "bad_attr attr ty e =
     ErrText (''failed to parse the '' @ attr @ '' as '' @ ty @ '' with error '' @ num_error_text e)"

definition removeStringAttr :: "string \<Rightarrow> attrs \<Rightarrow> string outcome \<times> attrs" where
  "removeStringAttr attr attributes =
     (case fmlookup attributes attr of
        Some value \<Rightarrow> (Ok value, fmdrop attr attributes)
      | None \<Rightarrow> (Err (missing_attr attr), attributes))"

definition removeIntAttr :: "string \<Rightarrow> attrs \<Rightarrow> int32 outcome \<times> attrs" where
  "removeIntAttr attr attributes =
     (case fmlookup attributes attr of
        Some value \<Rightarrow>
          (case parse_uint 16 value of
             Inl e \<Rightarrow> (Err (bad_attr attr ''int'' e), attributes)
           | Inr parsedValue \<Rightarrow> (Ok (word_of_nat parsedValue), fmdrop attr attributes))
      | None \<Rightarrow> (Err (missing_attr attr), attributes))"

definition removeBoolAttr :: "string \<Rightarrow> attrs \<Rightarrow> bool outcome \<times> attrs" where
  "removeBoolAttr attr attributes =
     (case fmlookup attributes attr of
        Some value \<Rightarrow>
          (case parse_bool value of
             Inl e \<Rightarrow> (Err (bad_attr attr ''bool'' e), attributes)
           | Inr parsedValue \<Rightarrow> (Ok parsedValue, fmdrop attr attributes))
      | None \<Rightarrow> (Err (missing_attr attr), attributes))"

definition removeTimestampAttr :: "string \<Rightarrow> attrs \<Rightarrow> int64 outcome \<times> attrs" where
  "removeTimestampAttr attr attributes =
     (case fmlookup attributes attr of
        Some value \<Rightarrow>
          (case parse_int 64 value of
             Inl e \<Rightarrow> (Err (bad_attr attr ''int'' e), attributes)
           | Inr parsedValue \<Rightarrow> (Ok (word_of_int parsedValue), fmdrop attr attributes))
      | None \<Rightarrow> (Err (missing_attr attr), attributes))"

definition endpointPortFromAttr :: "attrs \<Rightarrow> port outcome \<times> attrs" where
  "endpointPortFromAttr =
     bind_ok (removeStringAttr EndpointPortNameAttr) (\<lambda>name.
     bind_ok (removeIntAttr EndpointPortAttr) (\<lambda>p.
     bind_ok (removeStringAttr EndpointProtocolAttr) (\<lambda>protocol.
       Pair (Ok (zero_port\<lparr>portName := name, portPort := p, portProtocol := protocol\<rparr>)))))"

definition servicePortFromAttr :: "attrs \<Rightarrow> port outcome \<times> attrs" where
  "servicePortFromAttr =
     bind_ok (removeStringAttr ServiceTargetPortAttr) (\<lambda>targetPort.
     bind_ok (removeStringAttr ServicePortNameAttr) (\<lambda>name.
     bind_ok (removeIntAttr ServicePortAttr) (\<lambda>p.
     bind_ok (removeStringAttr ServiceProtocolAttr) (\<lambda>protocol.
       Pair (Ok \<lparr>portName = name, portPort = p, portTargetPort = targetPort,
                 portProtocol = protocol\<rparr>)))))"

section \<open>From a Cloud Map instance to an endpoint\<close>

text \<open>
  \<open>types.HttpInstanceSummary\<close>: a nil \<open>InstanceId\<close> pointer is \<open>None\<close>, and reading it panics.
\<close>

record http_instance =
  instInstanceId :: "string option"
  instAttributes :: attrs

text \<open>The address: IPv6 is read first and IPv4 overrides it when both are present.\<close>

definition addressFromAttr :: "attrs \<Rightarrow> (string \<times> string) outcome \<times> attrs" where
  "addressFromAttr attributes =
     (let ipv4Exists = (fmlookup attributes EndpointIpv4Attr \<noteq> None);
          ipv6Exists = (fmlookup attributes EndpointIpv6Attr \<noteq> None)
      in bind_ok
           (if ipv6Exists
            then bind_ok (removeStringAttr EndpointIpv6Attr) (\<lambda>ip. Pair (Ok (ip, AddressTypeIPv6)))
            else Pair (Ok ('''', '''')))
           (\<lambda>addr.
             if ipv4Exists
             then bind_ok (removeStringAttr EndpointIpv4Attr) (\<lambda>ip. Pair (Ok (ip, AddressTypeIPv4)))
             else Pair (Ok addr))
           attributes)"

text \<open>\<open>Hostname, _ = removeStringAttr(...)\<close>: the error is dropped and the value is empty.\<close>

definition optionalStringAttr :: "string \<Rightarrow> attrs \<Rightarrow> string outcome \<times> attrs" where
  "optionalStringAttr attr attributes =
     (case removeStringAttr attr attributes of
        (Ok v, a) \<Rightarrow> (Ok v, a)
      | (_, a) \<Rightarrow> (Ok '''', a))"

definition endpointFromAttr :: "string \<Rightarrow> attrs \<Rightarrow> endpoint outcome \<times> attrs" where
  "endpointFromAttr instanceId =
     bind_ok addressFromAttr (\<lambda>addr.
     bind_ok endpointPortFromAttr (\<lambda>endpointPort.
     bind_ok servicePortFromAttr (\<lambda>servicePort.
     bind_ok (removeStringAttr ServiceTypeAttr) (\<lambda>serviceTypeStr.
     bind_ok (removeStringAttr ClusterIdAttr) (\<lambda>clusterId.
     bind_ok (removeStringAttr ClusterSetIdAttr) (\<lambda>clusterSetId.
     bind_ok (removeBoolAttr EndpointReadyAttr) (\<lambda>ready.
     bind_ok (removeTimestampAttr ServiceExportCreationAttr) (\<lambda>timestamp.
     bind_ok (optionalStringAttr EndpointHostnameAttr) (\<lambda>hostname.
     bind_ok (optionalStringAttr EndpointNodeNameAttr) (\<lambda>nodename attributes.
       (Ok \<lparr>epId = instanceId, epIP = fst addr, epAddressType = snd addr,
            epEndpointPort = endpointPort, epServicePort = servicePort,
            epClusterId = clusterId, epClusterSetId = clusterSetId,
            epServiceType = serviceTypeStr, epServiceExportCreationTimestamp = timestamp,
            epReady = ready, epHostname = hostname, epNodename = nodename,
            epAttributes = attributes\<rparr>, attributes)))))))))))"

definition NewEndpointFromInstance :: "http_instance \<Rightarrow> endpoint outcome" where
  "NewEndpointFromInstance inst =
     (case instInstanceId inst of
        None \<Rightarrow> Panic
      | Some i \<Rightarrow> fst (endpointFromAttr i (instAttributes inst)))"

section \<open>From an endpoint to its attributes\<close>

definition addressAttrs :: "endpoint \<Rightarrow> attrs" where
  "addressAttrs e =
     (if epAddressType e = AddressTypeIPv4 then fmupd EndpointIpv4Attr (epIP e) fmempty
      else if epAddressType e = AddressTypeIPv6 then fmupd EndpointIpv6Attr (epIP e) fmempty
      else fmempty)"

definition fixedAttrs :: "endpoint \<Rightarrow> (string \<times> string) list" where
  "fixedAttrs e =
     [(ClusterIdAttr, epClusterId e),
      (ClusterSetIdAttr, epClusterSetId e),
      (EndpointPortAttr, format_int (sint (portPort (epEndpointPort e)))),
      (EndpointProtocolAttr, portProtocol (epEndpointPort e)),
      (EndpointPortNameAttr, portName (epEndpointPort e)),
      (ServicePortNameAttr, portName (epServicePort e)),
      (ServicePortAttr, format_int (sint (portPort (epServicePort e)))),
      (ServiceTargetPortAttr, portTargetPort (epServicePort e)),
      (ServiceProtocolAttr, portProtocol (epServicePort e)),
      (ServiceTypeAttr, epServiceType e),
      (ServiceExportCreationAttr, format_int (sint (epServiceExportCreationTimestamp e))),
      (EndpointReadyAttr, format_bool (epReady e)),
      (EndpointHostnameAttr, epHostname e),
      (EndpointNodeNameAttr, epNodename e)]"

text \<open>
  The assignments in the code's order, then the endpoint's own attributes copied over them;
  copying a map into another does not depend on the order of the copy, which is \<open>fmadd\<close>.
\<close>

definition GetCloudMapAttributes :: "endpoint \<Rightarrow> attrs" where
  "GetCloudMapAttributes e =
     fmadd (foldl (\<lambda>m (k, v). fmupd k v m) (addressAttrs e) (fixedAttrs e)) (epAttributes e)"

section \<open>The codec of one attribute\<close>

text \<open>
  The contract that a removal function has with the formatting of its attribute: it takes a
  formatted value out of the map, reports a missing key without touching the map, and leaves
  every other key alone.
\<close>

locale attr_codec =
  fixes remove :: "string \<Rightarrow> attrs \<Rightarrow> 'a outcome \<times> attrs"
    and fmt :: "'a \<Rightarrow> string"
    and valid :: "'a \<Rightarrow> bool"
  assumes remove_formatted:
      "valid v \<Longrightarrow> fmlookup m k = Some (fmt v) \<Longrightarrow> remove k m = (Ok v, fmdrop k m)"
    and remove_missing: "fmlookup m k = None \<Longrightarrow> remove k m = (Err (missing_attr k), m)"
    and remove_shrinks: "remove k m = (r, m') \<Longrightarrow> m' = (if is_ok r then fmdrop k m else m)"
    and remove_total: "remove k m \<noteq> (Panic, m')"
begin

lemma remove_after_put: "valid v \<Longrightarrow> remove k (fmupd k (fmt v) m) = (Ok v, fmdrop k m)"
  by (simp add: remove_formatted fmdrop_fmupd_same)

lemma remove_frame: "k \<noteq> k' \<Longrightarrow> remove k m = (r, m') \<Longrightarrow> fmlookup m' k' = fmlookup m k'"
  by (auto dest!: remove_shrinks)

lemma remove_Ok_present:
  assumes "remove k m = (Ok v, m')"
  shows "fmlookup m k \<noteq> None" and "m' = fmdrop k m"
  using assms remove_missing [of m k] by (auto dest: remove_shrinks)

lemma no_panic_remove: "no_panic (remove k)"
  unfolding no_panic_def using remove_total by (metis prod.collapse)

lemma bind_remove_formatted:
  "fmlookup m k = Some (fmt v) \<Longrightarrow> valid v \<Longrightarrow> bind_ok (remove k) g m = g v (fmdrop k m)"
  by (simp add: remove_formatted)

end

interpretation string_attr: attr_codec removeStringAttr "\<lambda>v. v" "\<lambda>_. True"
  by unfold_locales (auto simp: removeStringAttr_def split: option.splits)

definition port_in_range :: "int32 \<Rightarrow> bool" where
  "port_in_range p \<longleftrightarrow> 0 \<le> sint p \<and> sint p < 2 ^ 16"

lemma word_of_nat_sint: "0 \<le> sint p \<Longrightarrow> word_of_nat (nat (sint p)) = (p :: int32)"
  by (simp add: of_nat_nat)

interpretation int_attr: attr_codec removeIntAttr "\<lambda>p. format_int (sint p)" port_in_range
  by unfold_locales
     (auto simp: removeIntAttr_def port_in_range_def parse_uint_format_int word_of_nat_sint
       split: option.splits sum.splits if_splits)

interpretation bool_attr: attr_codec removeBoolAttr format_bool "\<lambda>_. True"
  by unfold_locales (auto simp: removeBoolAttr_def split: option.splits sum.splits)

lemma parse_format_timestamp: "parse_int 64 (format_int (sint (t :: int64))) = Inr (sint t)"
  by (rule parse_int_format_int) (use sint_range_size [of t] in \<open>simp_all add: word_size\<close>)

interpretation timestamp_attr: attr_codec removeTimestampAttr "\<lambda>t. format_int (sint t)" "\<lambda>_. True"
  by unfold_locales
     (auto simp: removeTimestampAttr_def parse_format_timestamp split: option.splits sum.splits)

section \<open>The round trip\<close>

lemma no_panic_optional: "no_panic (optionalStringAttr k)"
  by (auto simp: no_panic_def optionalStringAttr_def removeStringAttr_def split: option.splits)

lemma no_panic_address: "no_panic addressFromAttr"
  unfolding no_panic_def
proof
  fix m
  have "no_panic (bind_ok
      (if b then bind_ok (removeStringAttr EndpointIpv6Attr) (\<lambda>ip. Pair (Ok (ip, AddressTypeIPv6)))
       else Pair (Ok ('''', '''')))
      (\<lambda>addr. if b' then bind_ok (removeStringAttr EndpointIpv4Attr) (\<lambda>ip. Pair (Ok (ip, AddressTypeIPv4)))
       else Pair (Ok addr)))" for b b'
    by (intro no_panic_rules string_attr.no_panic_remove)
  then show "fst (addressFromAttr m) \<noteq> Panic" by (simp add: addressFromAttr_def no_panic_def Let_def)
qed

lemma decoder_never_panics:
  assumes "instInstanceId inst \<noteq> None"
  shows "NewEndpointFromInstance inst \<noteq> Panic"
proof -
  have fields: "no_panic (\<lambda>m. (Ok (f m), m))" for f :: "attrs \<Rightarrow> endpoint"
    by (simp add: no_panic_def)
  have "no_panic (endpointFromAttr i)" for i
    unfolding endpointFromAttr_def endpointPortFromAttr_def servicePortFromAttr_def
    by (intro no_panic_rules no_panic_address no_panic_optional string_attr.no_panic_remove
        int_attr.no_panic_remove bool_attr.no_panic_remove timestamp_attr.no_panic_remove fields)
  with assms show ?thesis by (auto simp: NewEndpointFromInstance_def no_panic_def)
qed

text \<open>
  The endpoints whose registration can be read back: an IPv4 or IPv6 address, ports that fit
  \<open>ParseUint(_, 10, 16)\<close>, an endpoint port without a target port (it is not registered), and no
  attribute of their own under one of the keys the translation uses.
\<close>

definition registrable :: "endpoint \<Rightarrow> bool" where
  "registrable e \<longleftrightarrow>
     epAddressType e \<in> {AddressTypeIPv4, AddressTypeIPv6}
     \<and> port_in_range (portPort (epEndpointPort e)) \<and> port_in_range (portPort (epServicePort e))
     \<and> portTargetPort (epEndpointPort e) = ''''
     \<and> fset (fmdom (epAttributes e)) \<inter> set reserved_keys = {}"

definition as_instance :: "endpoint \<Rightarrow> http_instance" where
  "as_instance e = \<lparr>instInstanceId = Some (epId e), instAttributes = GetCloudMapAttributes e\<rparr>"

lemma reserved_None:
  "fset (fmdom m) \<inter> set reserved_keys = {} \<Longrightarrow> k \<in> set reserved_keys \<Longrightarrow> fmlookup m k = None"
  by (metis disjoint_iff fmdom_notD)

lemma lookup_GetCloudMapAttributes:
  assumes "fset (fmdom (epAttributes e)) \<inter> set reserved_keys = {}"
  shows "fmlookup (GetCloudMapAttributes e) k =
     (case map_of (fixedAttrs e) k of
        Some v \<Rightarrow> Some v
      | None \<Rightarrow>
          (case fmlookup (addressAttrs e) k of Some v \<Rightarrow> Some v | None \<Rightarrow> fmlookup (epAttributes e) k))"
proof -
  have addr: "fmlookup (addressAttrs e) k \<noteq> None \<Longrightarrow> k \<in> set reserved_keys" for k
    by (auto simp: addressAttrs_def reserved_keys_def split: if_splits)
  have fixed: "k \<in> set reserved_keys" if "map_of (fixedAttrs e) k = Some v" for v
    using that by (auto simp: fixedAttrs_def reserved_keys_def split: if_splits)
  have "distinct (map fst (fixedAttrs e))"
    by (simp add: fixedAttrs_def attr_key_defs)
  then show ?thesis
    using reserved_None [OF assms, of k] addr [of k] fixed
    by (auto simp: GetCloudMapAttributes_def lookup_foldl_fmupd split: option.splits)
qed

lemma address_reads_back:
  assumes "registrable e"
  shows "addressFromAttr (GetCloudMapAttributes e) =
    (Ok (epIP e, epAddressType e),
     fmdrop (if epAddressType e = AddressTypeIPv4 then EndpointIpv4Attr else EndpointIpv6Attr)
       (GetCloudMapAttributes e))"
proof -
  have look: "fmlookup (GetCloudMapAttributes e) EndpointIpv4Attr =
        (if epAddressType e = AddressTypeIPv4 then Some (epIP e) else None)"
      "fmlookup (GetCloudMapAttributes e) EndpointIpv6Attr =
        (if epAddressType e = AddressTypeIPv4 then None else Some (epIP e))"
    using assms reserved_None [of "epAttributes e" EndpointIpv4Attr]
      reserved_None [of "epAttributes e" EndpointIpv6Attr]
    by (auto simp: registrable_def lookup_GetCloudMapAttributes fixedAttrs_def addressAttrs_def
        reserved_keys_def attr_key_defs AddressTypeIPv4_def AddressTypeIPv6_def)
  then show ?thesis
    using assms
    by (auto simp: addressFromAttr_def Let_def removeStringAttr_def registrable_def bind_ok_def
        AddressTypeIPv4_def AddressTypeIPv6_def)
qed

lemmas remove_formatted_attrs =
  string_attr.bind_remove_formatted int_attr.bind_remove_formatted
  bool_attr.bind_remove_formatted timestamp_attr.bind_remove_formatted

lemma optional_present:
  "fmlookup m k = Some v \<Longrightarrow> bind_ok (optionalStringAttr k) g m = g v (fmdrop k m)"
  by (simp add: optionalStringAttr_def removeStringAttr_def)

text \<open>The map that is left when every key has been taken out, in the order of the decoder.\<close>

definition decoded_keys :: "string list" where
  "decoded_keys =
     [EndpointPortNameAttr, EndpointPortAttr, EndpointProtocolAttr,
      ServiceTargetPortAttr, ServicePortNameAttr, ServicePortAttr, ServiceProtocolAttr,
      ServiceTypeAttr, ClusterIdAttr, ClusterSetIdAttr, EndpointReadyAttr,
      ServiceExportCreationAttr, EndpointHostnameAttr, EndpointNodeNameAttr]"

definition drop_decoded :: "string \<Rightarrow> attrs \<Rightarrow> attrs" where
  "drop_decoded addr_key m = fold fmdrop decoded_keys (fmdrop addr_key m)"

lemma lookup_fold_fmdrop:
  "fmlookup (fold fmdrop ks m) k = (if k \<in> set ks then None else fmlookup m k)"
  by (induction ks arbitrary: m) auto

lemma attrs_left_over:
  assumes "registrable e" and "k \<notin> set reserved_keys"
  shows "fmlookup (GetCloudMapAttributes e) k = fmlookup (epAttributes e) k"
proof -
  have "map_of (fixedAttrs e) k = None" "fmlookup (addressAttrs e) k = None"
    using assms(2) by (auto simp: fixedAttrs_def addressAttrs_def reserved_keys_def)
  then show ?thesis
    using assms(1) by (simp add: registrable_def lookup_GetCloudMapAttributes)
qed

lemma drop_decoded_registered:
  assumes "registrable e"
  shows "drop_decoded (if epAddressType e = AddressTypeIPv4 then EndpointIpv4Attr else EndpointIpv6Attr)
    (GetCloudMapAttributes e) = epAttributes e" (is "drop_decoded ?ip ?A = _")
proof (rule fmap_ext)
  fix k
  show "fmlookup (drop_decoded ?ip ?A) k = fmlookup (epAttributes e) k"
  proof (cases "k \<in> set reserved_keys")
    case False
    then have "k \<notin> set decoded_keys \<and> k \<noteq> ?ip"
      by (auto simp: reserved_keys_def decoded_keys_def)
    with False show ?thesis
      by (simp add: drop_decoded_def lookup_fold_fmdrop attrs_left_over [OF assms])
  next
    case True
    have none: "fmlookup (epAttributes e) k = None"
      using assms True by (simp add: registrable_def reserved_None)
    have "k \<in> set decoded_keys \<or> k = EndpointIpv4Attr \<or> k = EndpointIpv6Attr"
      using True by (simp add: reserved_keys_def decoded_keys_def) blast
    then consider "k \<in> set decoded_keys" | "k = ?ip" | "k = EndpointIpv4Attr" "epAddressType e \<noteq> AddressTypeIPv4"
      | "k = EndpointIpv6Attr" "epAddressType e = AddressTypeIPv4"
      by (cases "epAddressType e = AddressTypeIPv4") auto
    then show ?thesis
      using assms none
      by cases (simp_all add: drop_decoded_def lookup_fold_fmdrop registrable_def fixedAttrs_def
        lookup_GetCloudMapAttributes addressAttrs_def attr_key_defs AddressTypeIPv4_def AddressTypeIPv6_def)
  qed
qed

lemma decode_registered:
  assumes "registrable e"
  shows "NewEndpointFromInstance (as_instance e) = Ok e"
proof -
  let ?A = "GetCloudMapAttributes e"
  let ?ip = "if epAddressType e = AddressTypeIPv4 then EndpointIpv4Attr else EndpointIpv6Attr"
  have valid: "port_in_range (portPort (epEndpointPort e))" "port_in_range (portPort (epServicePort e))"
    using assms by (simp_all add: registrable_def)
  have fixed: "map_of (fixedAttrs e) k = Some v \<Longrightarrow> fmlookup ?A k = Some v" for k v
    using assms by (simp add: registrable_def lookup_GetCloudMapAttributes)
  have look: "fmlookup ?A k = Some v" if "(k, v) \<in> set (fixedAttrs e)" for k v
    using that by (intro fixed map_of_is_SomeI) (simp_all add: fixedAttrs_def attr_key_defs)
  note looks = look [unfolded fixedAttrs_def, simplified]
  have "endpointFromAttr (epId e) ?A = (Ok (e\<lparr>epAttributes := drop_decoded ?ip ?A\<rparr>), drop_decoded ?ip ?A)"
    using valid assms
    by (simp add: endpointFromAttr_def address_reads_back [OF assms] bind_ok_assoc endpointPortFromAttr_def
      servicePortFromAttr_def remove_formatted_attrs optional_present drop_decoded_def zero_port_def
      registrable_def decoded_keys_def looks attr_key_defs)
  moreover have "drop_decoded ?ip ?A = epAttributes e"
    using assms by (rule drop_decoded_registered)
  ultimately show ?thesis
    by (simp add: NewEndpointFromInstance_def as_instance_def)
qed

lemma registered_cluster_set:
  assumes "registrable e"
  shows "fmlookup (GetCloudMapAttributes e) ClusterSetIdAttr = Some (epClusterSetId e)"
  using assms by (simp add: registrable_def lookup_GetCloudMapAttributes fixedAttrs_def attr_key_defs)

text \<open>
  C12: an endpoint registered in Cloud Map is read back unchanged: decoding the attributes that
  \<open>GetCloudMapAttributes\<close> produces gives the endpoint itself, every field and every attribute of
  its own included.
\<close>

theorem endpoint_roundtrip:
  assumes "registrable e"
  shows "NewEndpointFromInstance (as_instance e) = Ok e"
  using assms by (rule decode_registered)

section \<open>What the decoder accepts\<close>

text \<open>
  A declarative reading of an instance as an endpoint: which attribute gives which field, what
  each attribute must look like, and which attributes are left over.
\<close>

definition described_address :: "attrs \<Rightarrow> string \<times> string" where
  "described_address m =
     (case fmlookup m EndpointIpv4Attr of
        Some ip \<Rightarrow> (ip, AddressTypeIPv4)
      | None \<Rightarrow>
          (case fmlookup m EndpointIpv6Attr of Some ip \<Rightarrow> (ip, AddressTypeIPv6) | None \<Rightarrow> ('''', '''')))"

definition instance_describes :: "http_instance \<Rightarrow> endpoint \<Rightarrow> bool" where
  "instance_describes inst e \<longleftrightarrow>
     (let A = fmlookup (instAttributes inst) in
        instInstanceId inst = Some (epId e)
      \<and> epIP e = fst (described_address (instAttributes inst))
      \<and> epAddressType e = snd (described_address (instAttributes inst))
      \<and> A EndpointPortNameAttr = Some (portName (epEndpointPort e))
      \<and> Option.bind (A EndpointPortAttr) (\<lambda>s. Some (parse_uint 16 s)) = Some (Inr (unat (portPort (epEndpointPort e))))
      \<and> A EndpointProtocolAttr = Some (portProtocol (epEndpointPort e))
      \<and> portTargetPort (epEndpointPort e) = ''''
      \<and> A ServiceTargetPortAttr = Some (portTargetPort (epServicePort e))
      \<and> A ServicePortNameAttr = Some (portName (epServicePort e))
      \<and> Option.bind (A ServicePortAttr) (\<lambda>s. Some (parse_uint 16 s)) = Some (Inr (unat (portPort (epServicePort e))))
      \<and> A ServiceProtocolAttr = Some (portProtocol (epServicePort e))
      \<and> A ServiceTypeAttr = Some (epServiceType e)
      \<and> A ClusterIdAttr = Some (epClusterId e)
      \<and> A ClusterSetIdAttr = Some (epClusterSetId e)
      \<and> Option.bind (A EndpointReadyAttr) (\<lambda>s. Some (parse_bool s)) = Some (Inr (epReady e))
      \<and> Option.bind (A ServiceExportCreationAttr) (\<lambda>s. Some (parse_int 64 s))
          = Some (Inr (sint (epServiceExportCreationTimestamp e)))
      \<and> epHostname e = (case A EndpointHostnameAttr of Some v \<Rightarrow> v | None \<Rightarrow> '''')
      \<and> epNodename e = (case A EndpointNodeNameAttr of Some v \<Rightarrow> v | None \<Rightarrow> '''')
      \<and> epAttributes e = fmfilter (\<lambda>k. k \<notin> set reserved_keys) (instAttributes inst))"

lemma removeStringAttr_eq_Ok:
  "removeStringAttr k m = (Ok v, m') \<longleftrightarrow> fmlookup m k = Some v \<and> m' = fmdrop k m"
  by (auto simp: removeStringAttr_def split: option.splits)

lemma parse_uint16_eq_word:
  "parse_uint 16 s = Inr n \<and> v = (word_of_nat n :: int32) \<longleftrightarrow> parse_uint 16 s = Inr (unat v) \<and> n = unat v"
proof -
  have "unat (word_of_nat n :: int32) = n" if "parse_uint 16 s = Inr n"
    using parse_uint_bound [OF that] by (simp add: unat_of_nat)
  then show ?thesis by auto
qed

lemma removeIntAttr_eq_Ok:
  "removeIntAttr k m = (Ok v, m') \<longleftrightarrow>
     Option.bind (fmlookup m k) (\<lambda>s. Some (parse_uint 16 s)) = Some (Inr (unat v)) \<and> m' = fmdrop k m"
  using parse_uint16_eq_word
  by (auto simp: removeIntAttr_def split: option.splits sum.splits)

lemma removeBoolAttr_eq_Ok:
  "removeBoolAttr k m = (Ok v, m') \<longleftrightarrow>
     Option.bind (fmlookup m k) (\<lambda>s. Some (parse_bool s)) = Some (Inr v) \<and> m' = fmdrop k m"
  by (auto simp: removeBoolAttr_def split: option.splits sum.splits)

lemma parse_int_range: "parse_int 64 s = Inr i \<Longrightarrow> - (2 ^ 63) \<le> i \<and> i < 2 ^ 63"
  by (auto simp: parse_int_def Let_def split: list.splits sum.splits if_splits)

lemma sint_word_of_int64: "- (2 ^ 63) \<le> i \<Longrightarrow> i < 2 ^ 63 \<Longrightarrow> sint (word_of_int i :: int64) = i"
  by (simp add: int_word_sint)

lemma removeTimestampAttr_eq_Ok:
  "removeTimestampAttr k m = (Ok v, m') \<longleftrightarrow>
     Option.bind (fmlookup m k) (\<lambda>s. Some (parse_int 64 s)) = Some (Inr (sint v)) \<and> m' = fmdrop k m"
  by (auto simp: removeTimestampAttr_def sint_word_of_int64 split: option.splits sum.splits
      dest: parse_int_range)

lemma fmdrop_missing: "fmlookup m k = None \<Longrightarrow> fmdrop k m = m"
  by (rule fmap_ext) auto

lemma optionalStringAttr_eq:
  "optionalStringAttr k m = (Ok (case fmlookup m k of Some v \<Rightarrow> v | None \<Rightarrow> ''''), fmdrop k m)"
  by (cases "fmlookup m k")
     (auto simp: optionalStringAttr_def removeStringAttr_def fmdrop_missing)

lemma addressFromAttr_eq:
  "addressFromAttr m =
     (Ok (described_address m), fmdrop EndpointIpv4Attr (fmdrop EndpointIpv6Attr m))"
  by (cases "fmlookup m EndpointIpv4Attr"; cases "fmlookup m EndpointIpv6Attr")
     (auto simp: addressFromAttr_def described_address_def removeStringAttr_def fmdrop_missing attr_key_defs)

lemmas remove_eq_Ok =
  removeStringAttr_eq_Ok removeIntAttr_eq_Ok removeBoolAttr_eq_Ok removeTimestampAttr_eq_Ok

lemma filter_reserved:
  "fmfilter (\<lambda>k. k \<notin> set reserved_keys) m =
     drop_decoded EndpointIpv4Attr (fmdrop EndpointIpv6Attr m)"
  by (rule fmap_ext) (auto simp: drop_decoded_def lookup_fold_fmdrop reserved_keys_def decoded_keys_def)

lemma endpointPortFromAttr_eq_Ok:
  "endpointPortFromAttr m = (Ok p, m') \<longleftrightarrow>
     fmlookup m EndpointPortNameAttr = Some (portName p)
   \<and> Option.bind (fmlookup m EndpointPortAttr) (\<lambda>s. Some (parse_uint 16 s)) = Some (Inr (unat (portPort p)))
   \<and> fmlookup m EndpointProtocolAttr = Some (portProtocol p)
   \<and> portTargetPort p = ''''
   \<and> m' = fmdrop EndpointProtocolAttr (fmdrop EndpointPortAttr (fmdrop EndpointPortNameAttr m))"
  by (cases p)
     (auto simp: endpointPortFromAttr_def bind_ok_eq_Ok remove_eq_Ok zero_port_def attr_key_defs)

lemma servicePortFromAttr_eq_Ok:
  "servicePortFromAttr m = (Ok p, m') \<longleftrightarrow>
     fmlookup m ServiceTargetPortAttr = Some (portTargetPort p)
   \<and> fmlookup m ServicePortNameAttr = Some (portName p)
   \<and> Option.bind (fmlookup m ServicePortAttr) (\<lambda>s. Some (parse_uint 16 s)) = Some (Inr (unat (portPort p)))
   \<and> fmlookup m ServiceProtocolAttr = Some (portProtocol p)
   \<and> m' = fmdrop ServiceProtocolAttr (fmdrop ServicePortAttr
             (fmdrop ServicePortNameAttr (fmdrop ServiceTargetPortAttr m)))"
  by (cases p) (auto simp: servicePortFromAttr_def bind_ok_eq_Ok remove_eq_Ok attr_key_defs)

lemma endpointFromAttr_eq_Ok:
  "(\<exists>m'. endpointFromAttr i m = (Ok e, m')) \<longleftrightarrow>
     instance_describes \<lparr>instInstanceId = Some i, instAttributes = m\<rparr> e"
  by (cases e)
     (simp add: endpointFromAttr_def bind_ok_eq_Ok remove_eq_Ok endpointPortFromAttr_eq_Ok
         servicePortFromAttr_eq_Ok addressFromAttr_eq optionalStringAttr_eq attr_key_defs
         instance_describes_def Let_def filter_reserved drop_decoded_def decoded_keys_def, blast)

lemma decode_eq_Ok: "NewEndpointFromInstance inst = Ok e \<longleftrightarrow> instance_describes inst e"
proof -
  have "fst (endpointFromAttr i m) = Ok e \<longleftrightarrow> (\<exists>m'. endpointFromAttr i m = (Ok e, m'))" for i m
    by (cases "endpointFromAttr i m") auto
  then show ?thesis
    by (cases "instInstanceId inst")
       (simp_all add: NewEndpointFromInstance_def instance_describes_def Let_def
         endpointFromAttr_eq_Ok filter_reserved)
qed

text \<open>
  C26: \<open>NewEndpointFromInstance\<close> returns exactly the endpoint that the instance describes, and
  returns one precisely when the instance describes one: every mandatory attribute present, ports
  within 16 bits, a boolean, a 64-bit timestamp, the instance id set.
\<close>

theorem decoder_meets_description:
  "NewEndpointFromInstance inst = Ok e \<longleftrightarrow> instance_describes inst e"
  by (rule decode_eq_Ok)

text \<open>An endpoint that a decoded instance yields always has ports within 16 bits.\<close>

lemma decoded_ports_in_range:
  assumes "NewEndpointFromInstance inst = Ok e"
  shows "unat (portPort (epEndpointPort e)) < 2 ^ 16" and "unat (portPort (epServicePort e)) < 2 ^ 16"
  using assms
  by (auto simp: decode_eq_Ok instance_describes_def Let_def bind_eq_Some_conv dest: parse_uint_bound)

section \<open>Endpoint identifiers\<close>

text \<open>
  An address of one family: its separator is the given byte, and it has neither the other
  separator nor the two bytes that the identifier adds.
\<close>

definition family_address :: "char \<Rightarrow> string \<Rightarrow> bool" where
  "family_address sep a \<longleftrightarrow>
     sep \<in> {CHR ''.'', CHR '':''} \<and> set a \<inter> ({CHR ''_'', CHR ''-'', CHR ''.'', CHR '':''} - {sep}) = {}"

definition sanitize_address :: "string \<Rightarrow> string" where
  "sanitize_address a = replace_char CHR '':'' CHR ''_'' (replace_char CHR ''.'' CHR ''_'' a)"

lemma collapse_inj:
  assumes "sep \<in> {d, c}" and "x \<notin> {u, d, c} - {sep}" and "y \<notin> {u, d, c} - {sep}"
    and "(if (if x = d then u else x) = c then u else if x = d then u else x)
      = (if (if y = d then u else y) = c then u else if y = d then u else y)"
  shows "x = y"
  using assms by (auto split: if_splits)

lemma family_address_char:
  assumes "family_address sep a" and "x \<in> set a"
  shows "sep \<in> {CHR ''.'', CHR '':''}" and "x \<notin> {CHR ''_'', CHR ''.'', CHR '':''} - {sep}"
    and "x \<noteq> CHR ''-'' \<or> x = sep"
  using assms unfolding family_address_def by blast+

lemma sanitize_inj:
  assumes a: "family_address sep a" and b: "family_address sep b"
    and eq: "sanitize_address a = sanitize_address b"
  shows "a = b"
proof (rule list.inj_map_strong [OF _ eq [unfolded sanitize_address_def replace_char_def map_map]])
  fix x y
  assume x: "x \<in> set a" and y: "y \<in> set b"
    and eq': "((\<lambda>c. if c = CHR '':'' then CHR ''_'' else c) \<circ> (\<lambda>c. if c = CHR ''.'' then CHR ''_'' else c)) x
       = ((\<lambda>c. if c = CHR '':'' then CHR ''_'' else c) \<circ> (\<lambda>c. if c = CHR ''.'' then CHR ''_'' else c)) y"
  show "x = y"
    by (rule collapse_inj [OF family_address_char(1) [OF a x] family_address_char(2) [OF a x]
          family_address_char(2) [OF b y] eq' [unfolded comp_def]])
qed

lemma sanitize_no_dash:
  assumes "family_address sep a"
  shows "CHR ''-'' \<notin> set (sanitize_address a)"
proof
  assume "CHR ''-'' \<in> set (sanitize_address a)"
  then obtain x where "x \<in> set a" and "x = CHR ''-''"
    by (force simp: sanitize_address_def replace_char_def split: if_splits)
  then show False
    using family_address_char [OF assms, of x] by auto
qed

text \<open>
  C29: within one address family and for ports that are not negative, two identifiers are equal
  only for the same address, the same port number and the same protocol up to letter case.
\<close>

theorem endpoint_id_unique:
  assumes "family_address sep a" and "family_address sep b"
    and "0 \<le> sint (portPort p)" and "0 \<le> sint (portPort q)"
  shows "EndpointIdFromIPAddressAndPort a p = EndpointIdFromIPAddressAndPort b q \<longleftrightarrow>
    a = b \<and> portPort p = portPort q \<and> to_lower (portProtocol p) = to_lower (portProtocol q)"
proof
  assume "EndpointIdFromIPAddressAndPort a p = EndpointIdFromIPAddressAndPort b q"
  then have "(to_lower (portProtocol p) @ CHR ''-'' # sanitize_address a) @ CHR ''-'' # format_int (sint (portPort p))
      = (to_lower (portProtocol q) @ CHR ''-'' # sanitize_address b) @ CHR ''-'' # format_int (sint (portPort q))"
    by (simp add: EndpointIdFromIPAddressAndPort_def sanitize_address_def)
  from split_last_sep [OF this format_int_nonneg_no_dash format_int_nonneg_no_dash] assms(3,4)
  have port: "portPort p = portPort q"
    and rest: "to_lower (portProtocol p) @ CHR ''-'' # sanitize_address a
      = to_lower (portProtocol q) @ CHR ''-'' # sanitize_address b"
    by simp_all
  from split_last_sep [OF rest sanitize_no_dash sanitize_no_dash] assms(1,2) port
  show "a = b \<and> portPort p = portPort q \<and> to_lower (portProtocol p) = to_lower (portProtocol q)"
    by (auto intro: sanitize_inj)
qed (simp add: EndpointIdFromIPAddressAndPort_def)

section \<open>An example endpoint\<close>

definition example_port :: "string \<Rightarrow> int32 \<Rightarrow> port" where
  "example_port name n = \<lparr>portName = name, portPort = n, portTargetPort = '''', portProtocol = ''TCP''\<rparr>"

definition example_endpoint :: "string \<Rightarrow> string \<Rightarrow> endpoint" where
  "example_endpoint ip cluster =
     \<lparr>epId = EndpointIdFromIPAddressAndPort ip (example_port ''http'' 80), epIP = ip,
      epAddressType = AddressTypeIPv4, epEndpointPort = example_port ''http'' 80,
      epServicePort = (example_port ''web'' 8080)\<lparr>portTargetPort := ''80''\<rparr>,
      epClusterId = cluster, epClusterSetId = ''set1'', epServiceType = ClusterSetIPType,
      epServiceExportCreationTimestamp = 1640995200000, epReady = True,
      epHostname = '''', epNodename = ''node-1'',
      epAttributes = fmupd K8sVersionAttr ''aws-cloud-map-mcs-controller-for-k8s 0.3.0'' fmempty\<rparr>"

lemma example_ids:
  "epId (example_endpoint ''10.0.0.1'' c) = ''tcp-10_0_0_1-80''"
  "epId (example_endpoint ''10.0.0.2'' c) = ''tcp-10_0_0_2-80''"
  "epId (example_endpoint ''10.0.0.3'' c) = ''tcp-10_0_0_3-80''"
  by (simp_all add: example_endpoint_def example_port_def EndpointIdFromIPAddressAndPort_def
      replace_char_def to_lower_def lower_char_def format_int_def dec_digits.simps digit_char_def
      char_of_def bit_0)

lemma example_registrable: "registrable (example_endpoint ''10.0.0.1'' ''c1'')"
  by (simp add: registrable_def example_endpoint_def example_port_def port_in_range_def
      reserved_keys_def attr_key_defs)

theorem endpoint_roundtrip_witness:
  "registrable (example_endpoint ''10.0.0.1'' ''c1'')
   \<and> NewEndpointFromInstance (as_instance (example_endpoint ''10.0.0.1'' ''c1''))
       = Ok (example_endpoint ''10.0.0.1'' ''c1'')"
  using example_registrable endpoint_roundtrip [OF example_registrable] by (rule conjI)

theorem endpoint_id_unique_witness:
  "EndpointIdFromIPAddressAndPort ''10.0.0.1'' (example_port ''a'' 80)
     \<noteq> EndpointIdFromIPAddressAndPort ''10.0.0.1'' (example_port ''a'' 81)"
proof -
  have "family_address CHR ''.'' ''10.0.0.1''" by (simp add: family_address_def)
  moreover have "0 \<le> sint (portPort (example_port ''a'' 80))" "0 \<le> sint (portPort (example_port ''a'' 81))"
    by (simp_all add: example_port_def)
  ultimately show ?thesis
    using endpoint_id_unique [of "CHR ''.''" "''10.0.0.1''" "''10.0.0.1''"
        "example_port ''a'' 80" "example_port ''a'' 81"]
    by (simp add: example_port_def)
qed

end
