(* ===== verification/ModelPlan.thy ===== *)
theory ModelPlan
  imports ModelTypes
begin

text \<open>
  \<open>pkg/model/plan.go\<close>: the difference between the endpoints registered in Cloud Map and the
  endpoints of the Kubernetes service, as the endpoints to create, update and delete. The loop
  over the current endpoints fills \<open>currentMap\<close> (\<open>index_by epId\<close>), the loop over the desired ones
  consumes it, and the loop over what is left runs in an order \<open>ord\<close> that Go leaves open.
\<close>

section \<open>The plan\<close>

record plan =
  planCurrent :: "endpoint list"
  planDesired :: "endpoint list"

record changes =
  chCreate :: "endpoint list"
  chUpdate :: "endpoint list"
  chDelete :: "endpoint list"

fun desired_loop ::
  "endpoint list \<Rightarrow> (string, endpoint) fmap \<Rightarrow> endpoint list \<Rightarrow> endpoint list
    \<Rightarrow> (string, endpoint) fmap \<times> endpoint list \<times> endpoint list" where
  "desired_loop [] currentMap create update = (currentMap, create, update)"
| "desired_loop (e # es) currentMap create update =
     (case fmlookup currentMap (epId e) of
        Some existing \<Rightarrow>
          desired_loop es (fmdrop (epId e) currentMap) create
            (if endpoint_Equals existing e then update else update @ [e])
      | None \<Rightarrow> desired_loop es currentMap (create @ [e]) update)"

definition CalculateChanges :: "range_order \<Rightarrow> plan \<Rightarrow> changes" where
  "CalculateChanges ord p =
     (let currentMap = index_by epId (planCurrent p);
          (rest, create, update) = desired_loop (planDesired p) currentMap [] []
      in \<lparr>chCreate = create, chUpdate = update, chDelete = map_values ord rest\<rparr>)"

definition HasUpdates :: "changes \<Rightarrow> bool" where
  "HasUpdates c \<longleftrightarrow> length (chCreate c) > 0 \<or> length (chUpdate c) > 0"

definition HasDeletes :: "changes \<Rightarrow> bool" where
  "HasDeletes c \<longleftrightarrow> length (chDelete c) > 0"

definition IsNone :: "changes \<Rightarrow> bool" where
  "IsNone c \<longleftrightarrow> length (chCreate c) = 0 \<and> length (chUpdate c) = 0 \<and> length (chDelete c) = 0"

lemma IsNone_iff: "IsNone c \<longleftrightarrow> \<not> HasUpdates c \<and> \<not> HasDeletes c"
  by (auto simp: IsNone_def HasUpdates_def HasDeletes_def)

section \<open>What the loop computes\<close>

lemma desired_loop_distinct:
  assumes "distinct (map epId es)"
  shows "desired_loop es m c u =
    (fmfilter (\<lambda>k. k \<notin> epId ` set es) m,
     c @ filter (\<lambda>e. fmlookup m (epId e) = None) es,
     u @ filter (\<lambda>e. \<exists>x. fmlookup m (epId e) = Some x \<and> x \<noteq> e) es)"
  using assms
proof (induction es arbitrary: m c u)
  case Nil
  have "fmfilter (\<lambda>k. k \<notin> epId ` set []) m = m" by (rule fmap_ext) simp
  then show ?case by simp
next
  case (Cons e es)
  have other: "epId x \<noteq> epId e" if "x \<in> set es" for x
    using Cons.prems that by (auto simp: image_iff)
  show ?case
  proof (cases "fmlookup m (epId e)")
    case None
    have "fmfilter (\<lambda>k. k \<notin> epId ` set es) m = fmfilter (\<lambda>k. k \<notin> epId ` set (e # es)) m"
      using None by (intro fmap_ext) auto
    with None Cons show ?thesis by simp
  next
    case (Some x)
    have "fmfilter (\<lambda>k. k \<notin> epId ` set es) (fmdrop (epId e) m)
        = fmfilter (\<lambda>k. k \<notin> epId ` set (e # es)) m"
      by (intro fmap_ext) auto
    moreover have "filter (\<lambda>x. fmlookup (fmdrop (epId e) m) (epId x) = None) es
        = filter (\<lambda>x. fmlookup m (epId x) = None) es"
      using other by (intro filter_cong) auto
    moreover have "filter (\<lambda>y. \<exists>x. fmlookup (fmdrop (epId e) m) (epId y) = Some x \<and> x \<noteq> y) es
        = filter (\<lambda>y. \<exists>x. fmlookup m (epId y) = Some x \<and> x \<noteq> y) es"
      using other by (intro filter_cong) auto
    ultimately show ?thesis
      using Some Cons by (simp add: endpoint_Equals_def)
  qed
qed

lemma CalculateChanges_distinct:
  assumes "distinct (map epId (planDesired p))"
  shows "CalculateChanges ord p =
    \<lparr>chCreate = filter (\<lambda>e. fmlookup (index_by epId (planCurrent p)) (epId e) = None) (planDesired p),
     chUpdate = filter (\<lambda>e. \<exists>x. fmlookup (index_by epId (planCurrent p)) (epId e) = Some x \<and> x \<noteq> e)
       (planDesired p),
     chDelete = map_values ord
       (fmfilter (\<lambda>k. k \<notin> epId ` set (planDesired p)) (index_by epId (planCurrent p)))\<rparr>"
  by (simp add: CalculateChanges_def Let_def desired_loop_distinct [OF assms])

section \<open>The specification: a registry of endpoints\<close>

text \<open>
  A registry as its clients see it: registering adds or replaces endpoints by id, deleting removes
  them by id. \<open>apply_changes\<close> is what the export controller does with a plan: register the created
  and updated endpoints, then delete.
\<close>

definition registered :: "(string, endpoint) fmap \<Rightarrow> endpoint list \<Rightarrow> (string, endpoint) fmap" where
  "registered store es = foldl (\<lambda>m e. fmupd (epId e) e m) store es"

definition deregistered :: "(string, endpoint) fmap \<Rightarrow> endpoint list \<Rightarrow> (string, endpoint) fmap" where
  "deregistered store es = foldl (\<lambda>m e. fmdrop (epId e) m) store es"

definition apply_changes :: "changes \<Rightarrow> (string, endpoint) fmap \<Rightarrow> (string, endpoint) fmap" where
  "apply_changes c store = deregistered (registered store (chCreate c @ chUpdate c)) (chDelete c)"

lemma registered_other: "k \<notin> epId ` set es \<Longrightarrow> fmlookup (registered store es) k = fmlookup store k"
  by (induction es rule: rev_induct) (auto simp: registered_def)

lemma registered_member:
  assumes "e \<in> set es" and "\<And>x. x \<in> set es \<Longrightarrow> epId x = epId e \<Longrightarrow> x = e"
  shows "fmlookup (registered store es) (epId e) = Some e"
  using assms
proof (induction es rule: rev_induct)
  case Nil
  then show ?case by simp
next
  case (snoc y es)
  show ?case
  proof (cases "epId y = epId e")
    case True
    with snoc.prems show ?thesis by (simp add: registered_def)
  next
    case False
    with snoc have "fmlookup (registered store es) (epId e) = Some e" by auto
    with False show ?thesis by (simp add: registered_def)
  qed
qed

lemma lookup_deregistered:
  "fmlookup (deregistered store es) k = (if k \<in> epId ` set es then None else fmlookup store k)"
  by (induction es rule: rev_induct) (auto simp: deregistered_def)

lemma same_id_same_endpoint:
  "distinct (map epId es) \<Longrightarrow> x \<in> set es \<Longrightarrow> y \<in> set es \<Longrightarrow> epId x = epId y \<Longrightarrow> x = y"
  by (auto simp: distinct_map dest: inj_onD)

lemma deleted_ids:
  assumes "is_range_order ord" and "distinct (map epId (planDesired p))"
  shows "epId ` set (chDelete (CalculateChanges ord p)) =
    epId ` set (planCurrent p) - epId ` set (planDesired p)"
proof -
  let ?m = "index_by epId (planCurrent p)"
  let ?rest = "fmfilter (\<lambda>k. k \<notin> epId ` set (planDesired p)) ?m"
  have "epId ` set (chDelete (CalculateChanges ord p)) = {epId x |x. \<exists>k. fmlookup ?rest k = Some x}"
    using assms by (auto simp: CalculateChanges_distinct set_map_values)
  also have "\<dots> = {k. fmlookup ?rest k \<noteq> None}"
    by (auto dest: index_by_Some split: if_splits)
  also have "\<dots> = epId ` set (planCurrent p) - epId ` set (planDesired p)"
    by (rule set_eqI) (simp add: index_by_None del: not_None_eq)
  finally show ?thesis .
qed

text \<open>
  The store may hold more than the current endpoints of the plan, such as those of other clusters:
  what the plan does not name stays.
\<close>

lemma apply_changes_store:
  assumes ord: "is_range_order ord" and dist: "distinct (map epId (planDesired p))"
    and store: "\<And>k. k \<in> epId ` set (planCurrent p)
      \<Longrightarrow> fmlookup store k = fmlookup (index_by epId (planCurrent p)) k"
  shows "fmlookup (apply_changes (CalculateChanges ord p) store) k =
    (case fmlookup (index_by epId (planDesired p)) k of
       Some e \<Rightarrow> Some e
     | None \<Rightarrow> if k \<in> epId ` set (planCurrent p) then None else fmlookup store k)"
proof -
  let ?c = "CalculateChanges ord p"
  let ?m = "index_by epId (planCurrent p)"
  let ?ups = "chCreate ?c @ chUpdate ?c"
  note ids = same_id_same_endpoint [OF dist]
  have "x \<noteq> Some e \<longleftrightarrow> x = None \<or> (\<exists>y. x = Some y \<and> y \<noteq> e)" for x and e :: endpoint
    by (cases x) auto
  then have ups: "set ?ups = {e \<in> set (planDesired p). fmlookup ?m (epId e) \<noteq> Some e}"
    by (auto simp: CalculateChanges_distinct [OF dist])
  have del: "k \<in> epId ` set (chDelete ?c) \<longleftrightarrow>
      k \<in> epId ` set (planCurrent p) \<and> k \<notin> epId ` set (planDesired p)"
    by (simp add: deleted_ids [OF ord dist])
  show ?thesis
  proof (cases "k \<in> epId ` set (planDesired p)")
    case True
    then obtain e where e: "e \<in> set (planDesired p)" and k: "k = epId e" by auto
    have "fmlookup (registered store ?ups) k = Some e"
    proof (cases "fmlookup ?m k = Some e")
      case True
      with k ups ids e have "k \<notin> epId ` set ?ups" by auto
      moreover have "k \<in> epId ` set (planCurrent p)" using True by (metis index_by_None option.distinct(1))
      ultimately show ?thesis using True store by (simp add: registered_other)
    next
      case False
      with k e ups have "e \<in> set ?ups" by auto
      moreover have "x = e" if "x \<in> set ?ups" "epId x = epId e" for x
        using that ups e ids by auto
      ultimately show ?thesis unfolding k by (rule registered_member)
    qed
    moreover have "fmlookup (index_by epId (planDesired p)) k = Some e"
      using e k index_by_distinct [OF dist] by simp
    ultimately show ?thesis
      using True del by (simp add: apply_changes_def lookup_deregistered)
  next
    case False
    then have "k \<notin> epId ` set ?ups" using ups by auto
    moreover have "fmlookup (index_by epId (planDesired p)) k = None"
      using False by (simp add: index_by_None)
    ultimately show ?thesis
      using False del
      by (auto simp: apply_changes_def lookup_deregistered registered_other simp del: set_append)
  qed
qed

lemma apply_changes_lookup:
  assumes "is_range_order ord" and "distinct (map epId (planDesired p))"
  shows "fmlookup (apply_changes (CalculateChanges ord p) (index_by epId (planCurrent p))) k
    = fmlookup (index_by epId (planDesired p)) k"
proof (cases "fmlookup (index_by epId (planDesired p)) k")
  case None
  then show ?thesis
    using apply_changes_store [OF assms, of "index_by epId (planCurrent p)" k]
      index_by_None [of epId "planCurrent p" k] by (cases "k \<in> epId ` set (planCurrent p)") simp_all
next
  case (Some e)
  then show ?thesis
    using apply_changes_store [OF assms, of "index_by epId (planCurrent p)" k] by simp
qed

section \<open>Properties\<close>

text \<open>
  C11: applying a plan makes the registry hold exactly the desired endpoints, whatever it held
  before and in whatever order the deletions are listed.
\<close>

theorem plan_reaches_desired:
  assumes "is_range_order ord" and "distinct (map epId (planDesired p))"
  shows "apply_changes (CalculateChanges ord p) (index_by epId (planCurrent p))
    = index_by epId (planDesired p)"
  using apply_changes_lookup [OF assms] by (rule fmap_ext)

text \<open>
  A plan is empty exactly when the registry already holds the desired endpoints, so a second
  pass over an unchanged service changes nothing.
\<close>

theorem plan_empty_iff_converged:
  assumes ord: "is_range_order ord" and dist: "distinct (map epId (planDesired p))"
  shows "IsNone (CalculateChanges ord p) \<longleftrightarrow>
    index_by epId (planCurrent p) = index_by epId (planDesired p)"
proof
  assume "IsNone (CalculateChanges ord p)"
  then have "apply_changes (CalculateChanges ord p) (index_by epId (planCurrent p))
      = index_by epId (planCurrent p)"
    by (simp add: IsNone_def apply_changes_def registered_def deregistered_def)
  then show "index_by epId (planCurrent p) = index_by epId (planDesired p)"
    using apply_changes_lookup [OF ord dist] by (metis fmap_ext)
next
  assume eq: "index_by epId (planCurrent p) = index_by epId (planDesired p)"
  then have cur: "fmlookup (index_by epId (planCurrent p)) (epId e) = Some e"
    if "e \<in> set (planDesired p)" for e
    using that index_by_distinct [OF dist] by simp
  have "fmdom' (index_by epId (planCurrent p)) = fmdom' (index_by epId (planDesired p))"
    by (simp only: eq)
  then have "epId ` set (planCurrent p) = epId ` set (planDesired p)"
    by simp
  then have "chDelete (CalculateChanges ord p) = []"
    using deleted_ids [OF ord dist] by simp
  moreover have "chCreate (CalculateChanges ord p) = []" "chUpdate (CalculateChanges ord p) = []"
    using cur by (auto simp: CalculateChanges_distinct [OF dist] filter_empty_conv)
  ultimately show "IsNone (CalculateChanges ord p)"
    by (simp add: IsNone_def)
qed

section \<open>Witnesses\<close>

definition example_plan :: plan where
  "example_plan =
     \<lparr>planCurrent = [example_endpoint ''10.0.0.1'' ''c1'', example_endpoint ''10.0.0.2'' ''c1''],
      planDesired = [example_endpoint ''10.0.0.2'' ''c2'', example_endpoint ''10.0.0.3'' ''c1'']\<rparr>"

lemma example_plan_distinct: "distinct (map epId (planDesired example_plan))"
  by (simp add: example_plan_def example_ids)

theorem plan_reaches_desired_witness:
  "apply_changes (CalculateChanges sorted_order example_plan) (index_by epId (planCurrent example_plan))
     = index_by epId (planDesired example_plan)"
  by (rule plan_reaches_desired [OF sorted_order_is_range_order example_plan_distinct])

theorem plan_empty_iff_converged_witness:
  "\<not> IsNone (CalculateChanges sorted_order example_plan)"
proof -
  have "epId ` set (planCurrent example_plan) \<noteq> epId ` set (planDesired example_plan)"
    by (simp add: example_plan_def example_ids doubleton_eq_iff)
  then have "index_by epId (planCurrent example_plan) \<noteq> index_by epId (planDesired example_plan)"
    by (metis fmdom_index_by)
  then show ?thesis
    using plan_empty_iff_converged [OF sorted_order_is_range_order example_plan_distinct] by simp
qed

end
