(* ===== verification/ModelCluster.thy ===== *)
theory ModelCluster
  imports ModelTypes
begin

text \<open>
  \<open>pkg/model/cluster.go\<close>: the cluster id and cluster set id, read from the ClusterProperty objects
  of the cluster and kept once they are valid. \<open>list_props\<close> stands for
  \<open>client.List(ctx, clusterPropertyList)\<close> on a world of type \<open>'w\<close>; a \<open>ClusterUtils\<close> is the record
  of the properties it has cached, threaded together with that world.
\<close>

definition ClusterIdPropertyName :: string where
  "ClusterIdPropertyName = ''cluster.clusterset.k8s.io''"

definition ClusterSetIdPropertyName :: string where
  "ClusterSetIdPropertyName = ''clusterset.k8s.io''"

record cluster_properties =
  cpClusterId :: string
  cpClusterSetId :: string

record cluster_property =
  propName :: string
  propValue :: string

definition empty_properties :: cluster_properties where
  "empty_properties = \<lparr>cpClusterId = '''', cpClusterSetId = ''''\<rparr>"

definition NewClusterUtilsWithValues :: "string \<Rightarrow> string \<Rightarrow> cluster_properties" where
  [simp]: "NewClusterUtilsWithValues clusterId clusterSetId = \<lparr>cpClusterId = clusterId, cpClusterSetId = clusterSetId\<rparr>"

definition props_IsValid :: "cluster_properties \<Rightarrow> bool" where
  "props_IsValid r \<longleftrightarrow> cpClusterSetId r \<noteq> '''' \<and> cpClusterId r \<noteq> ''''"

definition props_String :: "cluster_properties \<Rightarrow> string" where
  "props_String r = ''ClusterId: '' @ cpClusterId r @ '', ClusterSetId: '' @ cpClusterSetId r"

definition set_property :: "cluster_properties \<Rightarrow> cluster_property \<Rightarrow> cluster_properties" where
  "set_property r p =
     (if propName p = ClusterIdPropertyName then r\<lparr>cpClusterId := propValue p\<rparr>
      else if propName p = ClusterSetIdPropertyName then r\<lparr>cpClusterSetId := propValue p\<rparr>
      else r)"

type_synonym 'w list_props = "'w \<Rightarrow> cluster_property list outcome \<times> 'w"

definition LoadClusterProperties ::
  "'w list_props \<Rightarrow> cluster_properties \<times> 'w \<Rightarrow> unit outcome \<times> cluster_properties \<times> 'w" where
  "LoadClusterProperties list_props s =
     (case list_props (snd s) of
        (Ok items, w) \<Rightarrow>
          let r = foldl set_property (fst s) items
          in (if props_IsValid r then Ok ()
              else Err (ErrText (''ClusterProperty not found: '' @ props_String r)), r, w)
      | (Err e, w) \<Rightarrow> (Err e, fst s, w)
      | (Panic, w) \<Rightarrow> (Panic, fst s, w))"

definition GetClusterProperties ::
  "'w list_props \<Rightarrow> cluster_properties \<times> 'w \<Rightarrow> cluster_properties outcome \<times> cluster_properties \<times> 'w" where
  "GetClusterProperties list_props s =
     (if props_IsValid (fst s) then (Ok (fst s), s)
      else bind_ok (LoadClusterProperties list_props) (\<lambda>_ s'. (Ok (fst s'), s')) s)"

section \<open>The value a property list gives\<close>

definition last_value :: "string \<Rightarrow> string \<Rightarrow> cluster_property list \<Rightarrow> string" where
  "last_value name old items =
     (case find (\<lambda>p. propName p = name) (rev items) of Some p \<Rightarrow> propValue p | None \<Rightarrow> old)"

lemma property_names_differ: "ClusterIdPropertyName \<noteq> ClusterSetIdPropertyName"
  by (simp add: ClusterIdPropertyName_def ClusterSetIdPropertyName_def)

lemma foldl_set_property:
  "foldl set_property r items =
     \<lparr>cpClusterId = last_value ClusterIdPropertyName (cpClusterId r) items,
      cpClusterSetId = last_value ClusterSetIdPropertyName (cpClusterSetId r) items\<rparr>"
  using property_names_differ
  by (induction items rule: rev_induct) (auto simp: last_value_def set_property_def)

lemma GetClusterProperties_Ok:
  "GetClusterProperties lp s = (Ok r, s') \<Longrightarrow> props_IsValid r \<and> fst s' = r"
  by (auto simp: GetClusterProperties_def LoadClusterProperties_def bind_ok_def Let_def
      split: if_splits outcome_splits)

lemma GetClusterProperties_cached:
  "props_IsValid r \<Longrightarrow> GetClusterProperties lp (r, w) = (Ok r, r, w)"
  by (simp add: GetClusterProperties_def)

section \<open>Reading the properties of one cluster\<close>

text \<open>
  A cluster does not change its properties: every listing tells them, if it has them. What has been read
  so far, or not read yet, is \<open>props_within\<close> them.
\<close>

definition lists_truly :: "'w list_props \<Rightarrow> cluster_properties \<Rightarrow> bool" where
  "lists_truly lp props \<longleftrightarrow> (\<forall>w items. fst (lp w) = Ok items \<longrightarrow> (\<forall>p \<in> set items.
     (propName p = ClusterIdPropertyName \<longrightarrow> propValue p = cpClusterId props)
     \<and> (propName p = ClusterSetIdPropertyName \<longrightarrow> propValue p = cpClusterSetId props)))"

definition props_within :: "cluster_properties \<Rightarrow> cluster_properties \<Rightarrow> bool" where
  "props_within p props \<longleftrightarrow> (cpClusterId p = '''' \<or> cpClusterId p = cpClusterId props)
     \<and> (cpClusterSetId p = '''' \<or> cpClusterSetId p = cpClusterSetId props)"

lemma props_within_simps [simp]: "props_within props props" "props_within empty_properties props"
  by (simp_all add: props_within_def empty_properties_def)

lemma valid_within: "\<lbrakk>props_within p props; props_IsValid p\<rbrakk> \<Longrightarrow> p = props"
  by (auto simp: props_within_def props_IsValid_def)

lemma set_property_within:
  assumes "props_within p props"
    and "\<forall>q \<in> set items. (propName q = ClusterIdPropertyName \<longrightarrow> propValue q = cpClusterId props)
        \<and> (propName q = ClusterSetIdPropertyName \<longrightarrow> propValue q = cpClusterSetId props)"
  shows "props_within (foldl set_property p items) props"
  using assms
proof (induction items arbitrary: p)
  case (Cons q items)
  then have "props_within (set_property p q) props" by (auto simp: props_within_def set_property_def)
  with Cons show ?case by simp
qed simp

lemma LoadClusterProperties_within:
  assumes "lists_truly lp props" and "props_within (fst s) props" and "LoadClusterProperties lp s = (r, s')"
  shows "props_within (fst s') props" and "r = Ok () \<Longrightarrow> fst s' = props" and "snd s' = snd (lp (snd s))"
proof -
  obtain l w where l: "lp (snd s) = (l, w)" by fastforce
  have "props_within (fst s') props \<and> (r = Ok () \<longrightarrow> fst s' = props) \<and> snd s' = w"
  proof (cases l)
    case (Ok items)
    then have "props_within (foldl set_property (fst s) items) props"
      using assms(1,2) l by (intro set_property_within) (auto simp: lists_truly_def dest: spec [of _ "snd s"])
    then show ?thesis
      using assms(3) l Ok valid_within by (auto simp: LoadClusterProperties_def Let_def split: if_splits)
  qed (use assms(2,3) l in \<open>auto simp: LoadClusterProperties_def\<close>)
  then show "props_within (fst s') props" and "r = Ok () \<Longrightarrow> fst s' = props" and "snd s' = snd (lp (snd s))"
    using l by simp_all
qed

lemma GetClusterProperties_within:
  assumes "lists_truly lp props" and "props_within (fst s) props" and "GetClusterProperties lp s = (r, s')"
  shows "props_within (fst s') props" and "r = Ok p \<Longrightarrow> p = props \<and> fst s' = props"
    and "snd s' = snd s \<or> snd s' = snd (lp (snd s))"
proof -
  obtain l s1 where l: "LoadClusterProperties lp s = (l, s1)" by (rule prod.exhaust)
  note d = LoadClusterProperties_within [OF assms(1,2) l]
  have "props_within (fst s') props \<and> (r = Ok p \<longrightarrow> p = props \<and> fst s' = props)
    \<and> (snd s' = snd s \<or> snd s' = snd (lp (snd s)))"
  proof (cases "props_IsValid (fst s)")
    case True
    then show ?thesis using assms(2,3) valid_within [OF assms(2) True] by (auto simp: GetClusterProperties_def)
  next
    case False
    then show ?thesis
      using assms(3) l d by (cases l) (auto simp: GetClusterProperties_def bind_ok_def)
  qed
  then show "props_within (fst s') props" and "r = Ok p \<Longrightarrow> p = props \<and> fst s' = props"
    and "snd s' = snd s \<or> snd s' = snd (lp (snd s))" by blast+
qed

lemma GetClusterProperties_Err:
  assumes "GetClusterProperties lp s = (Err e, s')"
  shows "fst (lp (snd s)) = Err e \<or> (\<exists>m. e = ErrText m)"
  using assms
  by (auto simp: GetClusterProperties_def LoadClusterProperties_def bind_ok_def Let_def split: if_splits outcome_splits)

section \<open>Properties\<close>

text \<open>
  \<open>GetClusterProperties\<close> never answers with an empty cluster id or cluster set id, what it
  answers is what it keeps, and from then on it answers the same without reading the cluster
  again, whatever the ClusterProperty objects have become.
\<close>

theorem cluster_properties_valid_and_kept:
  assumes "GetClusterProperties lp s = (Ok r, s')"
  shows "cpClusterId r \<noteq> '''' \<and> cpClusterSetId r \<noteq> ''''
    \<and> GetClusterProperties lp' (fst s', w) = (Ok r, fst s', w)"
  using GetClusterProperties_Ok [OF assms]
  by (auto simp: props_IsValid_def intro: GetClusterProperties_cached [of _ lp' w, unfolded props_IsValid_def])

theorem cluster_properties_valid_and_kept_witness:
  "cpClusterSetId \<lparr>cpClusterId = ''c'', cpClusterSetId = ''s''\<rparr> \<noteq> ''''
   \<and> GetClusterProperties (\<lambda>w. (Ok [], w)) (\<lparr>cpClusterId = ''c'', cpClusterSetId = ''s''\<rparr>, 5 :: nat)
      = (Ok \<lparr>cpClusterId = ''c'', cpClusterSetId = ''s''\<rparr>, \<lparr>cpClusterId = ''c'', cpClusterSetId = ''s''\<rparr>, 5)"
proof -
  let ?lp = "\<lambda>w :: nat. (Ok [\<lparr>propName = ''cluster.clusterset.k8s.io'', propValue = ''c''\<rparr>,
      \<lparr>propName = ''clusterset.k8s.io'', propValue = ''s''\<rparr>], w)"
  have "GetClusterProperties ?lp (empty_properties, 0)
      = (Ok \<lparr>cpClusterId = ''c'', cpClusterSetId = ''s''\<rparr>, \<lparr>cpClusterId = ''c'', cpClusterSetId = ''s''\<rparr>, 0)"
    by (simp add: GetClusterProperties_def LoadClusterProperties_def bind_ok_def empty_properties_def
        props_IsValid_def set_property_def ClusterIdPropertyName_def ClusterSetIdPropertyName_def)
  from cluster_properties_valid_and_kept [OF this, of "\<lambda>w. (Ok [], w)" 5]
  show ?thesis by simp
qed

text \<open>
  C31: reloading takes, for each of the two names, the last listed value, and keeps the old value
  when the name is not listed: deleting a ClusterProperty object does not clear it.
\<close>

theorem reload_takes_last_value_or_keeps_old:
  assumes "list_props w = (Ok items, w')"
  shows "snd (LoadClusterProperties list_props (r, w)) =
      (\<lparr>cpClusterId = last_value ClusterIdPropertyName (cpClusterId r) items,
        cpClusterSetId = last_value ClusterSetIdPropertyName (cpClusterSetId r) items\<rparr>, w')"
  by (simp add: LoadClusterProperties_def assms foldl_set_property Let_def)

theorem reload_takes_last_value_or_keeps_old_witness:
  "snd (LoadClusterProperties (\<lambda>w :: nat. (Ok [], w)) (\<lparr>cpClusterId = ''c'', cpClusterSetId = ''s''\<rparr>, 0))
     = (\<lparr>cpClusterId = ''c'', cpClusterSetId = ''s''\<rparr>, 0)"
  by (subst reload_takes_last_value_or_keeps_old [where items = "[]"])
     (simp_all add: last_value_def)

end
