(* ===== verification/K8sTypes.thy ===== *)
theory K8sTypes
  imports ModelTypes
begin

text \<open>
  The Kubernetes objects that the controllers read and write, with the fields they use: core/v1
  Service, discovery/v1 EndpointSlice, the MCS API's ServiceImport and ServiceExport
  (\<open>pkg/apis/multicluster/v1alpha1\<close>). A pointer field is an \<open>option\<close>; a metadata time is \<open>None\<close>
  for the zero time, otherwise its Unix milliseconds. Also the third-party functions whose source
  is not in the repository, as the record \<open>ext\<close> of parameters.
\<close>

section \<open>Metadata\<close>

text \<open>
  What \<open>metav1.NewControllerRef(owner, gvk)\<close> is given: the owner's name and UID, and the version and
  kind of the reference.
\<close>

datatype owner_ref = ControllerRef (ownerName: string) (ownerUID: string) (refVersion: string) (refKind: string)

record obj_meta =
  omNamespace :: string
  omName :: string
  omGenerateName :: string
  omUID :: string
  omResourceVersion :: string
  omLabels :: "(string, string) fmap"
  omAnnotations :: "(string, string) fmap"
  omOwnerReferences :: "owner_ref list"
  omFinalizers :: "string list"
  omDeletionTimestamp :: "int64 option"
  omCreationTimestamp :: "int64 option"

definition zero_meta :: obj_meta where
  "zero_meta =
     \<lparr>omNamespace = '''', omName = '''', omGenerateName = '''', omUID = '''', omResourceVersion = '''',
      omLabels = fmempty, omAnnotations = fmempty, omOwnerReferences = [], omFinalizers = [],
      omDeletionTimestamp = None, omCreationTimestamp = None\<rparr>"

section \<open>Services\<close>

datatype int_or_string = IntVal int32 | StrVal string

record service_port =
  spName :: string
  spProtocol :: string
  spPort :: int32
  spTargetPort :: int_or_string

record k8s_service =
  svMeta :: obj_meta
  svApiVersion :: string
  svKind :: string
  svType :: string
  svClusterIP :: string
  svPorts :: "service_port list"

section \<open>Endpoint slices\<close>

record object_reference =
  orKind :: string
  orNamespace :: string
  orName :: string
  orUID :: string
  orResourceVersion :: string

record slice_endpoint =
  seTargetRef :: "object_reference option"
  seAddresses :: "string list"
  seReady :: "bool option"
  seHostname :: "string option"
  seNodeName :: "string option"

record endpoint_port =
  dpName :: "string option"
  dpProtocol :: "string option"
  dpPort :: "int32 option"

record endpoint_slice =
  esMeta :: obj_meta
  esAddressType :: string
  esEndpoints :: "slice_endpoint list"
  esPorts :: "endpoint_port list"

section \<open>Imports and exports\<close>

record import_port =
  ipName :: string
  ipProtocol :: string
  ipPort :: int32

record service_import =
  siMeta :: obj_meta
  siApiVersion :: string
  siKind :: string
  siPorts :: "import_port list"
  siIPs :: "string list"
  siType :: string
  siClusters :: "string list"

record service_export =
  sxMeta :: obj_meta

section \<open>Functions of other packages\<close>

text \<open>
  \<open>intstr_String\<close> and \<open>intstr_Parse\<close> are the conversions of \<open>apimachinery/pkg/util/intstr\<close>;
  \<open>cmp_Diff\<close> is \<open>cmp.Diff\<close> with \<open>cmpopts.SortSlices\<close> on two string slices, which is empty exactly
  when the sorted slices are equal. The last three are those of \<open>controller-runtime/pkg/controller/controllerutil\<close>;
  they look at and change the metadata of an object.
\<close>

record ext =
  intstr_String :: "int_or_string \<Rightarrow> string"
  intstr_Parse :: "string \<Rightarrow> int_or_string"
  cmp_Diff :: "string list \<Rightarrow> string list \<Rightarrow> string"
  ContainsFinalizer :: "obj_meta \<Rightarrow> string \<Rightarrow> bool"
  AddFinalizer :: "obj_meta \<Rightarrow> string \<Rightarrow> obj_meta"
  RemoveFinalizer :: "obj_meta \<Rightarrow> string \<Rightarrow> obj_meta"

definition diff_is_multiset_equality :: "ext \<Rightarrow> bool" where
  "diff_is_multiset_equality X \<longleftrightarrow> (\<forall>a b. cmp_Diff X a b = '''' \<longleftrightarrow> mset a = mset b)"

definition target_ports_print :: "ext \<Rightarrow> string set \<Rightarrow> bool" where
  "target_ports_print X S \<longleftrightarrow> (\<forall>s \<in> S. intstr_String X (intstr_Parse X s) = s)"

text \<open>
  As documented: they say whether a finalizer is present, add it and remove it. They touch nothing but the list of
  finalizers, of which only the members matter.
\<close>

definition finalizer_laws :: "ext \<Rightarrow> bool" where
  "finalizer_laws X \<longleftrightarrow>
     (\<forall>m f. ContainsFinalizer X m f \<longleftrightarrow> f \<in> set (omFinalizers m))
     \<and> (\<forall>m f. \<exists>fs. AddFinalizer X m f = m\<lparr>omFinalizers := fs\<rparr> \<and> set fs = insert f (set (omFinalizers m)))
     \<and> (\<forall>m f. \<exists>fs. RemoveFinalizer X m f = m\<lparr>omFinalizers := fs\<rparr> \<and> set fs = set (omFinalizers m) - {f})"

lemma finalizer_lawsD:
  assumes "finalizer_laws X"
  shows "ContainsFinalizer X m f \<longleftrightarrow> f \<in> set (omFinalizers m)"
    and "\<exists>fs. AddFinalizer X m f = m\<lparr>omFinalizers := fs\<rparr> \<and> set fs = insert f (set (omFinalizers m))"
    and "\<exists>fs. RemoveFinalizer X m f = m\<lparr>omFinalizers := fs\<rparr> \<and> set fs = set (omFinalizers m) - {f}"
  using assms by (simp_all add: finalizer_laws_def)

text \<open>An instance of the parameters, for evaluation on examples.\<close>

definition example_ext :: ext where
  "example_ext =
     \<lparr>intstr_String = (\<lambda>v. case v of IntVal i \<Rightarrow> format_int (sint i) | StrVal s \<Rightarrow> s),
      intstr_Parse = (\<lambda>s. case parse_int 32 s of Inr i \<Rightarrow> IntVal (word_of_int i) | Inl e \<Rightarrow> StrVal s),
      cmp_Diff = (\<lambda>a b. if mset a = mset b then '''' else ''-''),
      ContainsFinalizer = (\<lambda>m f. f \<in> set (omFinalizers m)),
      AddFinalizer = (\<lambda>m f. m\<lparr>omFinalizers := List.insert f (omFinalizers m)\<rparr>),
      RemoveFinalizer = (\<lambda>m f. m\<lparr>omFinalizers := removeAll f (omFinalizers m)\<rparr>)\<rparr>"

lemma example_ext_diff: "diff_is_multiset_equality example_ext"
  by (simp add: diff_is_multiset_equality_def example_ext_def)

lemma example_ext_finalizers:
  "ContainsFinalizer example_ext m f \<longleftrightarrow> f \<in> set (omFinalizers m)"
  "AddFinalizer example_ext m f = m\<lparr>omFinalizers := List.insert f (omFinalizers m)\<rparr>"
  "RemoveFinalizer example_ext m f = m\<lparr>omFinalizers := removeAll f (omFinalizers m)\<rparr>"
  by (simp_all add: example_ext_def)

lemma example_ext_finalizer_laws: "finalizer_laws example_ext"
  unfolding finalizer_laws_def example_ext_finalizers by (metis set_insert set_removeAll)

end
