(* ===== verification/GoCrypto.thy ===== *)
theory GoCrypto
  imports GoStrconv
begin

text \<open>
  The parts of Go's \<open>crypto/sha256\<close>, \<open>encoding/base32\<close> and \<open>encoding/json\<close> that the controllers use
  for the names of derived services and for the annotation that lists them, on byte strings: the
  hash of FIPS 180-4, the extended-hex base32 alphabet without padding, and the JSON encoding of a
  list of string maps (\<open>json.Marshal\<close> sorts the keys and escapes HTML characters).
\<close>

section \<open>SHA-256\<close>

unbundle bit_operations_syntax

type_synonym w32 = "32 word"

definition rotr :: "nat \<Rightarrow> w32 \<Rightarrow> w32" where
  "rotr n x = (drop_bit n x) OR (push_bit (32 - n) x)"

definition sha_k :: "w32 list" where
  "sha_k =
     [1116352408, 1899447441, 3049323471, 3921009573, 961987163, 1508970993,
      2453635748, 2870763221, 3624381080, 310598401, 607225278, 1426881987,
      1925078388, 2162078206, 2614888103, 3248222580, 3835390401, 4022224774,
      264347078, 604807628, 770255983, 1249150122, 1555081692, 1996064986,
      2554220882, 2821834349, 2952996808, 3210313671, 3336571891, 3584528711,
      113926993, 338241895, 666307205, 773529912, 1294757372, 1396182291,
      1695183700, 1986661051, 2177026350, 2456956037, 2730485921, 2820302411,
      3259730800, 3345764771, 3516065817, 3600352804, 4094571909, 275423344,
      430227734, 506948616, 659060556, 883997877, 958139571, 1322822218,
      1537002063, 1747873779, 1955562222, 2024104815, 2227730452, 2361852424,
      2428436474, 2756734187, 3204031479, 3329325298]"

definition sha_init :: "w32 list" where
  "sha_init =
     [1779033703, 3144134277, 1013904242, 2773480762, 1359893119, 2600822924,
      528734635, 1541459225]"

definition byte_of :: "char \<Rightarrow> nat" where
  "byte_of c = of_char c"

text \<open>A number as \<open>n\<close> bytes, most significant first.\<close>

fun bytes_be :: "nat \<Rightarrow> nat \<Rightarrow> nat list" where
  "bytes_be 0 v = []"
| "bytes_be (Suc n) v = bytes_be n (v div 256) @ [v mod 256]"

definition sha_pad :: "nat list \<Rightarrow> nat list" where
  "sha_pad m =
     (let l = length m in m @ [128] @ replicate ((119 - l mod 64) mod 64) 0 @ bytes_be 8 (8 * l))"

definition word_be :: "nat list \<Rightarrow> w32" where
  "word_be bs = foldl (\<lambda>acc b. push_bit 8 acc OR word_of_nat b) 0 bs"

fun chunks :: "nat \<Rightarrow> nat \<Rightarrow> 'a list \<Rightarrow> 'a list list" where
  "chunks 0 sz xs = []"
| "chunks (Suc n) sz xs = take sz xs # chunks n sz (drop sz xs)"

text \<open>The message schedule, newest word first.\<close>

fun sha_schedule :: "nat \<Rightarrow> w32 list \<Rightarrow> w32 list" where
  "sha_schedule 0 ws = ws"
| "sha_schedule (Suc n) ws =
     (let x = ws ! 14; y = ws ! 1;
          s0 = rotr 7 x XOR rotr 18 x XOR drop_bit 3 x;
          s1 = rotr 17 y XOR rotr 19 y XOR drop_bit 10 y
      in sha_schedule n ((ws ! 15 + s0 + ws ! 6 + s1) # ws))"

definition sha_round :: "w32 list \<Rightarrow> w32 \<times> w32 \<Rightarrow> w32 list" where
  "sha_round st kw =
     (case st of
        [a, b, c, d, e, f, g, h] \<Rightarrow>
          let s1 = rotr 6 e XOR rotr 11 e XOR rotr 25 e;
              ch = (e AND f) XOR (NOT e AND g);
              t1 = h + s1 + ch + fst kw + snd kw;
              s0 = rotr 2 a XOR rotr 13 a XOR rotr 22 a;
              maj = (a AND b) XOR (a AND c) XOR (b AND c)
          in [t1 + (s0 + maj), a, b, c, d + t1, e, f, g]
      | _ \<Rightarrow> st)"

definition sha_block :: "w32 list \<Rightarrow> nat list \<Rightarrow> w32 list" where
  "sha_block hs block =
     (let w = rev (sha_schedule 48 (rev (map word_be (chunks 16 4 block))))
      in map2 (+) hs (foldl sha_round hs (zip sha_k w)))"

definition sha256 :: "string \<Rightarrow> nat list" where
  "sha256 s =
     (let m = sha_pad (map byte_of s)
      in concat (map (\<lambda>h. bytes_be 4 (unat h))
           (foldl sha_block sha_init (chunks (length m div 64) 64 m))))"

section \<open>Base32, extended hex alphabet, no padding\<close>

definition base32hex_char :: "nat \<Rightarrow> char" where
  "base32hex_char d = (if d < 10 then char_of (48 + d) else char_of (55 + d))"

fun bits_of_byte :: "nat \<Rightarrow> nat \<Rightarrow> bool list" where
  "bits_of_byte 0 v = []"
| "bits_of_byte (Suc n) v = bits_of_byte n (v div 2) @ [odd v]"

definition value_of_bits :: "bool list \<Rightarrow> nat" where
  "value_of_bits bs = foldl (\<lambda>acc b. 2 * acc + of_bool b) 0 bs"

fun base32_groups :: "bool list \<Rightarrow> string" where
  "base32_groups (a # b # c # d # e # rest) =
     base32hex_char (value_of_bits [a, b, c, d, e]) # base32_groups rest"
| "base32_groups [] = []"
| "base32_groups [a] = [base32hex_char (value_of_bits [a, False, False, False, False])]"
| "base32_groups [a, b] = [base32hex_char (value_of_bits [a, b, False, False, False])]"
| "base32_groups [a, b, c] = [base32hex_char (value_of_bits [a, b, c, False, False])]"
| "base32_groups [a, b, c, d] = [base32hex_char (value_of_bits [a, b, c, d, False])]"

definition base32hex :: "nat list \<Rightarrow> string" where
  "base32hex bytes = base32_groups (concat (map (bits_of_byte 8) bytes))"

section \<open>JSON\<close>

definition hex_char :: "nat \<Rightarrow> char" where
  "hex_char d = (if d < 10 then char_of (48 + d) else char_of (87 + d))"

definition json_escape :: "char \<Rightarrow> string" where
  "json_escape c =
     (let n = byte_of c in
        if n = 34 then [char_of (92 :: nat), c]
        else if n = 92 then [c, c]
        else if n = 10 then [char_of (92 :: nat), CHR ''n'']
        else if n = 13 then [char_of (92 :: nat), CHR ''r'']
        else if n = 9 then [char_of (92 :: nat), CHR ''t'']
        else if n < 32 \<or> c \<in> {CHR ''<'', CHR ''>'', CHR ''&''}
        then [char_of (92 :: nat), CHR ''u'', CHR ''0'', CHR ''0'', hex_char (n div 16), hex_char (n mod 16)]
        else [c])"

definition json_string :: "string \<Rightarrow> string" where
  "json_string s = CHR 0x22 # concat (map json_escape s) @ [CHR 0x22]"

fun join_commas :: "string list \<Rightarrow> string" where
  "join_commas [] = []"
| "join_commas [s] = s"
| "join_commas (s # t # ss) = s @ '','' @ join_commas (t # ss)"

text \<open>An object given as its members in key order.\<close>

definition json_object :: "(string \<times> string) list \<Rightarrow> string" where
  "json_object kvs = ''{'' @ join_commas (map (\<lambda>(k, v). json_string k @ '':'' @ json_string v) kvs) @ ''}''"

definition json_array :: "string list \<Rightarrow> string" where
  "json_array xs = ''['' @ join_commas xs @ '']''"

section \<open>Shapes\<close>

lemma length_bytes_be [simp]: "length (bytes_be n v) = n"
  by (induction n arbitrary: v) auto

lemma length_sha_round [simp]: "length (sha_round st kw) = length st"
  by (auto simp: sha_round_def Let_def split: list.splits)

lemma length_foldl_sha_round [simp]: "length (foldl sha_round st kws) = length st"
  by (induction kws arbitrary: st) auto

lemma length_sha_block [simp]: "length (sha_block hs b) = length hs"
  by (simp add: sha_block_def Let_def)

lemma length_sha256 [simp]: "length (sha256 s) = 32"
proof -
  have "length (foldl sha_block hs bs) = length hs" for hs bs
    by (induction bs arbitrary: hs) auto
  then have "length (foldl sha_block sha_init bs) = 8" for bs
    by (simp add: sha_init_def)
  then show ?thesis
    by (simp add: sha256_def Let_def length_concat comp_def sum_list_triv)
qed

lemma length_bits_of_byte [simp]: "length (bits_of_byte n v) = n"
  by (induction n arbitrary: v) auto

lemma length_base32_groups: "length (base32_groups bs) = (length bs + 4) div 5"
  by (induction bs rule: base32_groups.induct) auto

lemma length_base32hex: "length (base32hex bytes) = (8 * length bytes + 4) div 5"
  by (simp add: base32hex_def length_base32_groups length_concat comp_def sum_list_triv mult.commute)

definition is_base32hex_char :: "char \<Rightarrow> bool" where
  "is_base32hex_char c \<longleftrightarrow> (\<exists>d < 32. c = base32hex_char d)"

lemma base32hex_char_valid [simp]: "is_base32hex_char (base32hex_char (value_of_bits [a, b, c, d, e]))"
proof -
  have "value_of_bits [a, b, c, d, e] < 32"
    by (simp add: value_of_bits_def of_bool_def)
  then show ?thesis by (auto simp: is_base32hex_char_def)
qed

lemma base32_groups_chars: "c \<in> set (base32_groups bs) \<Longrightarrow> is_base32hex_char c"
  by (induction bs rule: base32_groups.induct) auto

end
