(* ===== verification/McsUtils.thy ===== *)
theory McsUtils
  imports K8sTypes GoCrypto
begin

text \<open>
  \<open>pkg/controllers/multicluster/utils.go\<close>: the conversions between ports of the Kubernetes APIs and
  of the model, the unique ports of a list of endpoints, the comparisons that ignore order, and the
  objects the import controller creates.
\<close>

section \<open>Labels and annotations\<close>

definition DerivedServiceAnnotation :: string where
  "DerivedServiceAnnotation = ''multicluster.k8s.aws/derived-service''"
definition ServiceExportFinalizer :: string where
  "ServiceExportFinalizer = ''multicluster.k8s.aws/service-export-finalizer''"
definition LabelServiceImportName :: string where
  "LabelServiceImportName = ''multicluster.kubernetes.io/service-name''"
definition LabelDerivedServiceOriginatingName :: string where
  "LabelDerivedServiceOriginatingName = ''multicluster.kubernetes.io/service-name''"
definition LabelEndpointSliceManagedBy :: string where
  "LabelEndpointSliceManagedBy = ''endpointslice.kubernetes.io/managed-by''"
definition LabelSourceCluster :: string where
  "LabelSourceCluster = ''multicluster.kubernetes.io/source-cluster''"
definition ValueEndpointSliceManagedBy :: string where
  "ValueEndpointSliceManagedBy = ''aws-cloud-map-mcs-controller-for-k8s''"

text \<open>\<open>discovery.LabelServiceName\<close>\<close>

definition LabelServiceName :: string where
  "LabelServiceName = ''kubernetes.io/service-name''"

section \<open>Ports\<close>

definition ServicePortToPort :: "ext \<Rightarrow> service_port \<Rightarrow> port" where
  "ServicePortToPort X svcPort =
     \<lparr>portName = spName svcPort, portPort = spPort svcPort,
      portTargetPort = intstr_String X (spTargetPort svcPort), portProtocol = spProtocol svcPort\<rparr>"

definition ServiceImportPortToPort :: "import_port \<Rightarrow> port" where
  "ServiceImportPortToPort svcPort =
     \<lparr>portName = ipName svcPort, portPort = ipPort svcPort, portTargetPort = '''',
      portProtocol = ipProtocol svcPort\<rparr>"

definition EndpointPortToPort :: "endpoint_port \<Rightarrow> port outcome" where
  "EndpointPortToPort p =
     (case (dpName p, dpPort p, dpProtocol p) of
        (Some name, Some n, Some protocol) \<Rightarrow>
          Ok \<lparr>portName = name, portPort = n, portTargetPort = '''', portProtocol = protocol\<rparr>
      | _ \<Rightarrow> Panic)"

definition PortToServicePort :: "ext \<Rightarrow> port \<Rightarrow> service_port" where
  "PortToServicePort X p =
     \<lparr>spName = portName p, spProtocol = portProtocol p, spPort = portPort p,
      spTargetPort = intstr_Parse X (portTargetPort p)\<rparr>"

definition PortToServiceImportPort :: "port \<Rightarrow> import_port" where
  "PortToServiceImportPort p =
     \<lparr>ipName = portName p, ipProtocol = portProtocol p, ipPort = portPort p\<rparr>"

definition PortToEndpointPort :: "port \<Rightarrow> endpoint_port" where
  "PortToEndpointPort p =
     \<lparr>dpName = Some (portName p), dpProtocol = Some (portProtocol p), dpPort = Some (portPort p)\<rparr>"

definition ExtractServicePorts :: "range_order \<Rightarrow> endpoint list \<Rightarrow> port list" where
  "ExtractServicePorts ord endpoints = map_values ord (index_by GetID (map epServicePort endpoints))"

definition ExtractEndpointPorts :: "range_order \<Rightarrow> endpoint list \<Rightarrow> port list" where
  "ExtractEndpointPorts ord endpoints = map_values ord (index_by GetID (map epEndpointPort endpoints))"

definition PortsEqualIgnoreOrder :: "ext \<Rightarrow> port list \<Rightarrow> port list \<Rightarrow> bool" where
  "PortsEqualIgnoreOrder X a b = (cmp_Diff X (map GetID a) (map GetID b) = '''')"

definition IPsEqualIgnoreOrder :: "ext \<Rightarrow> string list \<Rightarrow> string list \<Rightarrow> bool" where
  "IPsEqualIgnoreOrder X a b = (cmp_Diff X a b = '''')"

definition GetClusterIpsFromServices :: "k8s_service list \<Rightarrow> string list" where
  "GetClusterIpsFromServices services = map svClusterIP services"

section \<open>Service types\<close>

definition HeadlessImport :: string where "HeadlessImport = ''Headless''"
definition ClusterSetIPImport :: string where "ClusterSetIPImport = ''ClusterSetIP''"

definition ExtractServiceType :: "k8s_service \<Rightarrow> string" where
  "ExtractServiceType svc = (if svClusterIP svc = ''None'' then HeadlessType else ClusterSetIPType)"

definition ServiceTypetoServiceImportType :: "string \<Rightarrow> string" where
  "ServiceTypetoServiceImportType serviceType =
     (if serviceType = HeadlessType then HeadlessImport else ClusterSetIPImport)"

section \<open>Objects of the import controller\<close>

definition DerivedName :: "string \<Rightarrow> string \<Rightarrow> string \<Rightarrow> string" where
  "DerivedName ns name clusterId =
     ''imported-'' @ take 10 (to_lower (base32hex (sha256 (ns @ name @ clusterId))))"

definition CreateDerivedServiceAnnotation :: "string \<Rightarrow> string \<Rightarrow> string list \<Rightarrow> string" where
  "CreateDerivedServiceAnnotation ns name clusterIds =
     json_array (map (\<lambda>clusterId.
       json_object [(''cluster'', clusterId), (''derived-service'', DerivedName ns name clusterId)]) clusterIds)"

definition CreateServiceImportStruct ::
  "service \<Rightarrow> string list \<Rightarrow> port list \<Rightarrow> service_import outcome" where
  "CreateServiceImportStruct svc clusterIds servicePorts =
     (case svcEndpoints svc of
        [] \<Rightarrow> Panic
      | e # _ \<Rightarrow>
          Ok \<lparr>siMeta = zero_meta\<lparr>omNamespace := svcNamespace svc, omName := svcName svc,
                 omAnnotations := fmupd DerivedServiceAnnotation
                   (CreateDerivedServiceAnnotation (svcNamespace svc) (svcName svc) clusterIds) fmempty\<rparr>,
              siApiVersion = '''', siKind = '''',
              siPorts = map PortToServiceImportPort servicePorts,
              siIPs = [],
              siType = ServiceTypetoServiceImportType (epServiceType e),
              siClusters = clusterIds\<rparr>)"

definition CreateDerivedServiceStruct ::
  "ext \<Rightarrow> service_import \<Rightarrow> port list \<Rightarrow> string \<Rightarrow> k8s_service" where
  "CreateDerivedServiceStruct X svcImport importedSvcPorts clusterId =
     (let m = siMeta svcImport;
          ownerRef = ControllerRef (omName m) (omUID m) (siApiVersion svcImport) (siKind svcImport)
      in \<lparr>svMeta = zero_meta\<lparr>
            omLabels := fmupd LabelDerivedServiceOriginatingName (omName m)
                          (fmupd LabelSourceCluster clusterId fmempty),
            omNamespace := omNamespace m,
            omName := DerivedName (omNamespace m) (omName m) clusterId,
            omOwnerReferences := [ownerRef]\<rparr>,
          svApiVersion = '''', svKind = '''', svType = ''ClusterIP'',
          svClusterIP = (if siType svcImport = HeadlessImport then ''None'' else ''''),
          svPorts = map (PortToServicePort X) importedSvcPorts\<rparr>)"

definition CreateEndpointForSlice :: "k8s_service \<Rightarrow> endpoint \<Rightarrow> slice_endpoint" where
  "CreateEndpointForSlice svc e =
     \<lparr>seTargetRef = Some \<lparr>orKind = ''Service'', orNamespace = omNamespace (svMeta svc),
        orName = omName (svMeta svc), orUID = omUID (svMeta svc),
        orResourceVersion = omResourceVersion (svMeta svc)\<rparr>,
      seAddresses = [epIP e],
      seReady = Some (epReady e),
      seHostname = (if epHostname e \<noteq> '''' then Some (epHostname e) else None),
      seNodeName = (if epNodename e \<noteq> '''' then Some (epNodename e) else None)\<rparr>"

definition CreateEndpointSliceStruct ::
  "k8s_service \<Rightarrow> string \<Rightarrow> string \<Rightarrow> string \<Rightarrow> endpoint_slice" where
  "CreateEndpointSliceStruct svc svcImportName clusterId addressType =
     \<lparr>esMeta = zero_meta\<lparr>
        omLabels := fmupd LabelSourceCluster clusterId
          (fmupd LabelEndpointSliceManagedBy ValueEndpointSliceManagedBy
          (fmupd LabelServiceImportName svcImportName
          (fmupd LabelServiceName (omName (svMeta svc)) fmempty))),
        omGenerateName := omName (svMeta svc) @ ''-'',
        omOwnerReferences := [ControllerRef (omName (svMeta svc)) (omUID (svMeta svc))
          (svApiVersion svc) (svKind svc)],
        omNamespace := omNamespace (svMeta svc)\<rparr>,
      esAddressType = addressType,
      esEndpoints = [],
      esPorts = []\<rparr>"

section \<open>Properties\<close>

lemma ExtractServicePorts_spec:
  assumes "is_range_order ord"
  shows "set (ExtractServicePorts ord es) \<subseteq> epServicePort ` set es"
    and "distinct (map (\<lambda>p. (portProtocol p, portPort p)) (ExtractServicePorts ord es))"
    and "(\<lambda>p. (portProtocol p, portPort p)) ` set (ExtractServicePorts ord es)
        = (\<lambda>e. (portProtocol (epServicePort e), portPort (epServicePort e))) ` set es"
proof -
  let ?f = "\<lambda>p :: port. (portProtocol p, portPort p)"
  note mv = map_values_index_by [OF assms, of GetID "map epServicePort es"]
  have sub: "set (ExtractServicePorts ord es) \<subseteq> epServicePort ` set es"
    using mv(1) by (simp add: ExtractServicePorts_def)
  have "distinct (map ?f (ExtractServicePorts ord es))"
    using mv(2) by (auto simp: ExtractServicePorts_def distinct_map inj_on_def GetID_inj)
  moreover have "?f (epServicePort e) \<in> ?f ` set (ExtractServicePorts ord es)" if "e \<in> set es" for e
  proof -
    have "GetID (epServicePort e) \<in> GetID ` set (ExtractServicePorts ord es)"
      using mv(3) that by (simp add: ExtractServicePorts_def)
    then show ?thesis by (auto simp: GetID_inj image_iff)
  qed
  ultimately show "set (ExtractServicePorts ord es) \<subseteq> epServicePort ` set es"
    "distinct (map ?f (ExtractServicePorts ord es))"
    "?f ` set (ExtractServicePorts ord es)
        = (\<lambda>e. (portProtocol (epServicePort e), portPort (epServicePort e))) ` set es"
    using sub by (auto simp: image_iff subset_iff)
qed

text \<open>
  The ports extracted from endpoints are those of the endpoints, one for each pair of protocol
  and port number that occurs, and none twice.
\<close>

theorem extracted_ports_unique_and_complete:
  assumes "is_range_order ord"
  shows "set (ExtractServicePorts ord es) \<subseteq> epServicePort ` set es
    \<and> distinct (map (\<lambda>p. (portProtocol p, portPort p)) (ExtractServicePorts ord es))
    \<and> (\<lambda>p. (portProtocol p, portPort p)) ` set (ExtractServicePorts ord es)
        = (\<lambda>e. (portProtocol (epServicePort e), portPort (epServicePort e))) ` set es"
  using ExtractServicePorts_spec [OF assms] by blast

lemma PortsEqual_iff:
  assumes "diff_is_multiset_equality X"
  shows "PortsEqualIgnoreOrder X a b \<longleftrightarrow>
    mset (map (\<lambda>p. (portProtocol p, portPort p)) a) = mset (map (\<lambda>p. (portProtocol p, portPort p)) b)"
proof -
  let ?f = "\<lambda>p :: port. (portProtocol p, portPort p)"
  let ?g = "\<lambda>(pr, n :: int32). pr @ '':'' @ format_int (sint n)"
  have "inj ?g"
  proof (rule injI)
    fix x y assume "?g x = ?g y"
    then have "GetID (zero_port\<lparr>portProtocol := fst x, portPort := snd x\<rparr>)
        = GetID (zero_port\<lparr>portProtocol := fst y, portPort := snd y\<rparr>)"
      by (simp add: GetID_def case_prod_beta)
    then show "x = y" by (auto simp: GetID_inj prod_eq_iff)
  qed
  moreover have "GetID = ?g \<circ> ?f" by (auto simp: GetID_def)
  ultimately show ?thesis
    using assms mset_map_inj [of ?g "map ?f a" "map ?f b"]
    by (simp add: PortsEqualIgnoreOrder_def diff_is_multiset_equality_def del: mset_map)
qed

text \<open>
  Two lists of ports compare equal exactly when they hold the same pairs of protocol and
  number with the same multiplicities: names and target ports are not compared.
\<close>

theorem ports_compared_by_protocol_and_number:
  assumes "diff_is_multiset_equality X"
  shows "PortsEqualIgnoreOrder X a b \<longleftrightarrow>
    mset (map (\<lambda>p. (portProtocol p, portPort p)) a) = mset (map (\<lambda>p. (portProtocol p, portPort p)) b)"
  using assms by (rule PortsEqual_iff)

definition dns_label_char :: "char \<Rightarrow> bool" where
  "dns_label_char c \<longleftrightarrow>
     c = CHR ''-'' \<or> (48 \<le> (of_char c :: nat) \<and> of_char c \<le> (57 :: nat))
     \<or> (97 \<le> (of_char c :: nat) \<and> of_char c \<le> (122 :: nat))"

lemma lower_base32hex:
  assumes "is_base32hex_char c"
  shows "dns_label_char (lower_char c)"
proof -
  from assms obtain d where d: "d < 32" "c = base32hex_char d"
    by (auto simp: is_base32hex_char_def)
  show ?thesis
  proof (cases "d < 10")
    case True
    with d have "(of_char c :: nat) = 48 + d" by (simp add: base32hex_char_def)
    with True show ?thesis by (simp add: lower_char_def dns_label_char_def)
  next
    case False
    with d have "(of_char c :: nat) = 55 + d" by (simp add: base32hex_char_def)
    with False d show ?thesis by (simp add: lower_char_def dns_label_char_def)
  qed
qed

lemma derived_suffix:
  "length (take 10 (to_lower (base32hex (sha256 s)))) = 10"
  "list_all dns_label_char (take 10 (to_lower (base32hex (sha256 s))))"
proof -
  show "length (take 10 (to_lower (base32hex (sha256 s)))) = 10"
    by (simp add: to_lower_def length_base32hex)
  have "dns_label_char c" if "c \<in> set (to_lower (base32hex bs))" for c bs
  proof -
    from that obtain d where "d \<in> set (base32hex bs)" "c = lower_char d"
      by (auto simp: to_lower_def)
    then show ?thesis unfolding base32hex_def
      by (auto intro: lower_base32hex base32_groups_chars)
  qed
  then show "list_all dns_label_char (take 10 (to_lower (base32hex (sha256 s))))"
    unfolding list_all_iff by (blast dest: in_set_takeD)
qed

lemma imported_prefix: "list_all dns_label_char ''imported-''"
  by (simp add: dns_label_char_def)

text \<open>
  C30: the name of a derived service is a DNS label of 19 bytes, and it depends only on the
  concatenation of namespace, name and cluster id: services and clusters whose names run into
  each other get the same derived service.
\<close>

theorem derived_name_shape:
  "length (DerivedName ns name c) = 19 \<and> list_all dns_label_char (DerivedName ns name c)
   \<and> (ns @ name @ c = ns' @ name' @ c' \<longrightarrow> DerivedName ns name c = DerivedName ns' name' c')"
  using derived_suffix [of "ns @ name @ c"] imported_prefix
  by (simp add: DerivedName_def)

lemma derived_name_shape_witness:
  "DerivedName ''team-a'' ''b'' ''c1'' = DerivedName ''team-'' ''ab'' ''c1''"
  using derived_name_shape [of "''team-a''" "''b''" "''c1''" "''team-''" "''ab''" "''c1''"]
  by simp

lemma extracted_ports_unique_and_complete_witness:
  "is_range_order sorted_order
   \<and> set (ExtractServicePorts sorted_order [example_endpoint ''10.0.0.1'' ''c1'', example_endpoint ''10.0.0.2'' ''c2''])
       \<subseteq> epServicePort ` {example_endpoint ''10.0.0.1'' ''c1'', example_endpoint ''10.0.0.2'' ''c2''}"
  using extracted_ports_unique_and_complete [OF sorted_order_is_range_order,
      of "[example_endpoint ''10.0.0.1'' ''c1'', example_endpoint ''10.0.0.2'' ''c2'']"]
  by (simp add: sorted_order_is_range_order)

lemma ports_compared_by_protocol_and_number_witness:
  "diff_is_multiset_equality example_ext
   \<and> PortsEqualIgnoreOrder example_ext [example_port ''http'' 80, example_port ''admin'' 8081]
       [example_port ''admin'' 8081, example_port ''other'' 80]"
  using ports_compared_by_protocol_and_number [OF example_ext_diff,
      of "[example_port ''http'' 80, example_port ''admin'' 8081]"
        "[example_port ''admin'' 8081, example_port ''other'' 80]"]
  by (simp add: example_ext_diff example_port_def)

text \<open>
  Converting a port of the model to a port of a Service, EndpointSlice or ServiceImport and
  back gives the port again, less the target port where the API object has none; the conversion
  from an EndpointSlice panics exactly when one of the three pointers of the port is nil.
\<close>

theorem port_conversions_roundtrip:
  "EndpointPortToPort (PortToEndpointPort p) = Ok (p\<lparr>portTargetPort := ''''\<rparr>)
   \<and> ServiceImportPortToPort (PortToServiceImportPort p) = p\<lparr>portTargetPort := ''''\<rparr>
   \<and> (ServicePortToPort X (PortToServicePort X p) = p
        \<longleftrightarrow> intstr_String X (intstr_Parse X (portTargetPort p)) = portTargetPort p)
   \<and> (EndpointPortToPort q = Panic \<longleftrightarrow> dpName q = None \<or> dpPort q = None \<or> dpProtocol q = None)"
  by (auto simp: EndpointPortToPort_def PortToEndpointPort_def ServiceImportPortToPort_def
      PortToServiceImportPort_def ServicePortToPort_def PortToServicePort_def
      split: option.splits intro: port.equality dest: arg_cong [of _ _ portTargetPort])

end
