(* ===== verification/EndpointSlicePlan.thy ===== *)
theory EndpointSlicePlan
  imports McsUtils
begin

text \<open>
  \<open>pkg/controllers/multicluster/endpointslice_plan.go\<close>: which EndpointSlices to create, update and
  delete so that together they hold the desired endpoints of a cluster.

  The code holds slices by pointer, moves the pointers between its four lists and writes through
  them, so slices live in an explicit store: a pointer is an index of the list \<open>slices\<close>, an index
  out of range is the nil pointer, and allocation appends. The loop that adds endpoints is a
  partial function: \<open>None\<close> is a run that never returns.
\<close>

section \<open>State and operations\<close>

type_synonym slice_ref = nat
type_synonym slices = "endpoint_slice list"
type_synonym endpoint_map = "(string, endpoint) fmap"

definition defaultMaxEndpointsPerSlice :: int where
  "defaultMaxEndpointsPerSlice = 100"

record slice_changes =
  scCreate :: "slice_ref list"
  scUpdate :: "slice_ref list"
  scDelete :: "slice_ref list"
  scUnmodified :: "slice_ref list"

record slice_plan =
  maxEndpointsPerSlice :: int
  spService :: k8s_service
  spServiceImportName :: string
  spCurrent :: "slice_ref list"
  spDesired :: "endpoint list"
  spClusterId :: string

definition no_changes :: slice_changes where
  "no_changes = \<lparr>scCreate = [], scUpdate = [], scDelete = [], scUnmodified = []\<rparr>"

definition CheckAddressType :: "slice_plan \<Rightarrow> string" where
  "CheckAddressType p = (case spDesired p of [] \<Rightarrow> AddressTypeIPv4 | e # _ \<Rightarrow> epAddressType e)"

definition getMaxEndpointsPerSlice :: "slice_plan \<Rightarrow> int" where
  "getMaxEndpointsPerSlice p =
     (if maxEndpointsPerSlice p \<noteq> 0 then maxEndpointsPerSlice p else defaultMaxEndpointsPerSlice)"

fun endpointPortSliceToPortSlice :: "endpoint_port list \<Rightarrow> port list outcome" where
  "endpointPortSliceToPortSlice [] = Ok []"
| "endpointPortSliceToPortSlice (q # qs) =
     (case EndpointPortToPort q of
        Ok p \<Rightarrow> (case endpointPortSliceToPortSlice qs of Ok ps \<Rightarrow> Ok (p # ps) | Err e \<Rightarrow> Err e | Panic \<Rightarrow> Panic)
      | Err e \<Rightarrow> Err e
      | Panic \<Rightarrow> Panic)"

definition portSliceToEndpointPortSlice :: "port list \<Rightarrow> endpoint_port list" where
  "portSliceToEndpointPortSlice ports = map PortToEndpointPort ports"

subsection \<open>Trimming the existing slices\<close>

text \<open>
  \<open>keep_desired\<close> is the inner loop: it keeps the endpoints whose first address is still wanted and
  takes that address out of the map of desired endpoints. An endpoint without an address panics.
\<close>

fun keep_desired ::
  "slice_endpoint list \<Rightarrow> endpoint_map \<Rightarrow> slice_endpoint list outcome \<times> endpoint_map" where
  "keep_desired [] desired = (Ok [], desired)"
| "keep_desired (e # es) desired =
     (case seAddresses e of
        [] \<Rightarrow> (Panic, desired)
      | key # _ \<Rightarrow>
          (case fmlookup desired key of
             Some d \<Rightarrow> bind_ok (keep_desired es) (\<lambda>kept. Pair (Ok (e # kept))) (fmdrop key desired)
           | None \<Rightarrow> keep_desired es desired))"

record trim_state =
  tsSlices :: slices
  tsDesired :: endpoint_map
  tsChanges :: slice_changes

definition trimSlice ::
  "ext \<Rightarrow> port list \<Rightarrow> slice_ref \<Rightarrow> trim_state \<Rightarrow> unit outcome \<times> trim_state" where
  "trimSlice X desiredPorts r s =
     (if length (tsSlices s) \<le> r then (Panic, s)
      else let existing = tsSlices s ! r; c = tsChanges s in
        (case keep_desired (esEndpoints existing) (tsDesired s) of
           (Ok updated, desired) \<Rightarrow>
             (if updated = [] then
                (Ok (), s\<lparr>tsDesired := desired, tsChanges := c\<lparr>scDelete := scDelete c @ [r]\<rparr>\<rparr>)
              else
                (case endpointPortSliceToPortSlice (esPorts existing) of
                   Ok ports \<Rightarrow>
                     (let portsDiffer = (\<not> PortsEqualIgnoreOrder X desiredPorts ports);
                          s1 = (if portsDiffer
                                then existing\<lparr>esPorts := portSliceToEndpointPortSlice desiredPorts\<rparr>
                                else existing);
                          endpointsDiffer = (length updated \<noteq> length (esEndpoints existing));
                          s2 = (if endpointsDiffer then s1\<lparr>esEndpoints := updated\<rparr> else s1);
                          c' = (if portsDiffer \<or> endpointsDiffer
                                then c\<lparr>scUpdate := scUpdate c @ [r]\<rparr>
                                else c\<lparr>scUnmodified := scUnmodified c @ [r]\<rparr>)
                      in (Ok (), s\<lparr>tsSlices := (tsSlices s)[r := s2], tsDesired := desired, tsChanges := c'\<rparr>))
                 | Err e \<Rightarrow> (Err e, s\<lparr>tsDesired := desired\<rparr>)
                 | Panic \<Rightarrow> (Panic, s\<lparr>tsDesired := desired\<rparr>)))
         | (Err e, desired) \<Rightarrow> (Err e, s\<lparr>tsDesired := desired\<rparr>)
         | (Panic, desired) \<Rightarrow> (Panic, s\<lparr>tsDesired := desired\<rparr>)))"

fun trimSlices ::
  "ext \<Rightarrow> port list \<Rightarrow> slice_ref list \<Rightarrow> trim_state \<Rightarrow> unit outcome \<times> trim_state" where
  "trimSlices X desiredPorts [] s = (Ok (), s)"
| "trimSlices X desiredPorts (r # rs) s =
     bind_ok (trimSlice X desiredPorts r) (\<lambda>_. trimSlices X desiredPorts rs) s"

subsection \<open>Adding the endpoints that are left\<close>

text \<open>Choosing a slice with room: its pointer, whether its ports must be written, the new lists.\<close>

definition getOrCreateUnfilledEndpointSlice ::
  "slice_plan \<Rightarrow> slice_changes \<Rightarrow> int \<Rightarrow> slices \<Rightarrow> (slice_ref \<times> bool) \<times> slice_changes \<times> slices" where
  "getOrCreateUnfilledEndpointSlice p c requiredCapacity h =
     (case find (\<lambda>r. int (length (esEndpoints (h ! r))) < getMaxEndpointsPerSlice p) (scUpdate c) of
        Some r \<Rightarrow> ((r, False), c, h)
      | None \<Rightarrow>
          (case scDelete c of
             r # rs \<Rightarrow>
               ((r, True), c\<lparr>scDelete := rs, scUpdate := scUpdate c @ [r]\<rparr>,
                h[r := (h ! r)\<lparr>esEndpoints := []\<rparr>])
           | [] \<Rightarrow>
               (case List.extract (\<lambda>r. int (length (esEndpoints (h ! r))) + requiredCapacity
                         \<le> getMaxEndpointsPerSlice p) (scUnmodified c) of
                  Some (before, r, after) \<Rightarrow>
                    ((r, False), c\<lparr>scUnmodified := before @ after, scUpdate := scUpdate c @ [r]\<rparr>, h)
                | None \<Rightarrow>
                    ((length h, True), c\<lparr>scCreate := scCreate c @ [length h]\<rparr>,
                     h @ [CreateEndpointSliceStruct (spService p) (spServiceImportName p)
                            (spClusterId p) (CheckAddressType p)]))))"

text \<open>\<open>fill_slice\<close> is the \<open>range\<close> loop over the desired endpoints, on the keys in iteration order.\<close>

fun fill_slice ::
  "slice_plan \<Rightarrow> slice_ref \<Rightarrow> string list \<Rightarrow> slices \<Rightarrow> endpoint_map \<Rightarrow> slices \<times> endpoint_map" where
  "fill_slice p r [] h desired = (h, desired)"
| "fill_slice p r (key # keys) h desired =
     (case fmlookup desired key of
        None \<Rightarrow> fill_slice p r keys h desired
      | Some endpointToAdd \<Rightarrow>
          (if getMaxEndpointsPerSlice p - int (length (esEndpoints (h ! r))) \<le> 0 then (h, desired)
           else fill_slice p r keys
             (h[r := (h ! r)\<lparr>esEndpoints := esEndpoints (h ! r)
                       @ [CreateEndpointForSlice (spService p) endpointToAdd]\<rparr>])
             (fmdrop key desired)))"

definition add_round ::
  "slice_plan \<Rightarrow> range_order \<Rightarrow> port list \<Rightarrow> trim_state \<Rightarrow> trim_state" where
  "add_round p ord desiredPorts s =
     (let ((r, needsPortUpdate), c, h) =
            getOrCreateUnfilledEndpointSlice p (tsChanges s) (int (fcard (fmdom (tsDesired s)))) (tsSlices s);
          (h1, desired) = fill_slice p r (ord (fmdom (tsDesired s))) h (tsDesired s);
          h2 = (if needsPortUpdate
                then h1[r := (h1 ! r)\<lparr>esPorts := portSliceToEndpointPortSlice desiredPorts\<rparr>]
                else h1)
      in \<lparr>tsSlices = h2, tsDesired = desired, tsChanges = c\<rparr>)"

partial_function (option) add_loop ::
  "slice_plan \<Rightarrow> range_order \<Rightarrow> port list \<Rightarrow> trim_state \<Rightarrow> trim_state option" where
  "add_loop p ord desiredPorts s =
     (if fmdom (tsDesired s) = {||} then Some s
      else add_loop p ord desiredPorts (add_round p ord desiredPorts s))"

text \<open>
  The plan: \<open>None\<close> when the loop never ends, otherwise the changes and the store after the writes.
  \<open>pord\<close> is the iteration order of the map of ports, \<open>ord\<close> that of the map of endpoints.
\<close>

definition CalculateSliceChanges ::
  "ext \<Rightarrow> range_order \<Rightarrow> range_order \<Rightarrow> slice_plan \<Rightarrow> slices \<Rightarrow> (slice_changes outcome \<times> slices) option" where
  "CalculateSliceChanges X pord ord p h =
     (let desiredEndpoints = index_by epIP (spDesired p);
          desiredPorts = ExtractEndpointPorts pord (spDesired p)
      in case trimSlices X desiredPorts (spCurrent p)
                \<lparr>tsSlices = h, tsDesired = desiredEndpoints, tsChanges = no_changes\<rparr> of
           (Ok _, s) \<Rightarrow>
             (case add_loop p ord desiredPorts s of
                Some s' \<Rightarrow> Some (Ok (tsChanges s'), tsSlices s')
              | None \<Rightarrow> None)
         | (Err e, s) \<Rightarrow> Some (Err e, tsSlices s)
         | (Panic, s) \<Rightarrow> Some (Panic, tsSlices s))"

section \<open>What a plan must achieve\<close>

definition slice_addr :: "slice_endpoint \<Rightarrow> string" where
  "slice_addr e = hd (seAddresses e)"

definition slice_keys :: "endpoint_slice \<Rightarrow> string list" where
  "slice_keys s = map slice_addr (esEndpoints s)"

definition keys_at :: "slices \<Rightarrow> slice_ref list \<Rightarrow> string list" where
  "keys_at h rs = concat (map (\<lambda>r. slice_keys (h ! r)) rs)"

definition well_addressed :: "endpoint_slice \<Rightarrow> bool" where
  "well_addressed s \<longleftrightarrow> list_all (\<lambda>e. seAddresses e \<noteq> []) (esEndpoints s)
     \<and> list_all (\<lambda>q. EndpointPortToPort q \<noteq> Panic) (esPorts s)"

definition has_ports :: "ext \<Rightarrow> port list \<Rightarrow> endpoint_slice \<Rightarrow> bool" where
  "has_ports X ports s \<longleftrightarrow>
     (case endpointPortSliceToPortSlice (esPorts s) of
        Ok ps \<Rightarrow> PortsEqualIgnoreOrder X ports ps | Err e \<Rightarrow> False | Panic \<Rightarrow> False)"

abbreviation wanted :: "endpoint_map \<Rightarrow> string multiset" where
  "wanted desired \<equiv> mset_set (fset (fmdom desired))"

definition by_ip :: "endpoint_map \<Rightarrow> bool" where
  "by_ip desired \<longleftrightarrow> (\<forall>k e. fmlookup desired k = Some e \<longrightarrow> epIP e = k)"

lemma keys_at_simps [simp]:
  "keys_at h [] = []" "keys_at h (r # rs) = slice_keys (h ! r) @ keys_at h rs"
  "keys_at h (rs @ rs') = keys_at h rs @ keys_at h rs'"
  by (simp_all add: keys_at_def)

lemma keys_at_update [simp]: "r \<notin> set rs \<Longrightarrow> keys_at (h[r := s]) rs = keys_at h rs"
  by (induction rs) auto

lemma keys_at_append [simp]: "\<forall>r \<in> set rs. r < length h \<Longrightarrow> keys_at (h @ h') rs = keys_at h rs"
  by (induction rs) (auto simp: nth_append)

lemma wanted_fmdrop:
  assumes "fmlookup desired key = Some d"
  shows "wanted desired = add_mset key (wanted (fmdrop key desired))"
proof -
  have "key \<in> fset (fmdom desired)" using assms by (simp add: fmdomI)
  then show ?thesis
    by (simp add: mset_set.remove)
qed

lemma fmdrop_submap: "fmlookup (fmdrop k m) x = Some e \<Longrightarrow> fmlookup m x = Some e"
  by (simp add: fmlookup_drop split: if_splits)

lemma by_ip_drop [simp]: "by_ip desired \<Longrightarrow> by_ip (fmdrop k desired)"
  by (auto simp: by_ip_def)

lemma by_ip_index [simp]: "by_ip (index_by epIP es)"
  using index_by_Some [of epIP es] by (auto simp: by_ip_def)

lemma ports_after_write:
  assumes "diff_is_multiset_equality X"
  shows "has_ports X ports (s\<lparr>esPorts := portSliceToEndpointPortSlice ports\<rparr>)"
proof -
  have "endpointPortSliceToPortSlice (portSliceToEndpointPortSlice ps)
      = Ok (map (\<lambda>p. p\<lparr>portTargetPort := ''''\<rparr>) ps)" for ps
    by (induction ps)
      (simp_all add: portSliceToEndpointPortSlice_def EndpointPortToPort_def PortToEndpointPort_def)
  then show ?thesis
    using assms by (simp add: has_ports_def PortsEqual_iff comp_def)
qed

lemma has_ports_endpoints [simp]: "has_ports X ports (s\<lparr>esEndpoints := es\<rparr>) = has_ports X ports s"
  by (simp add: has_ports_def)

lemma ports_readable:
  assumes "list_all (\<lambda>q. EndpointPortToPort q \<noteq> Panic) qs"
  obtains ps where "endpointPortSliceToPortSlice qs = Ok ps"
proof -
  have "\<exists>ps. endpointPortSliceToPortSlice qs = Ok ps"
    using assms
    by (induction qs) (auto simp: EndpointPortToPort_def split: option.splits)
  then show ?thesis using that by blast
qed

section \<open>The two loops over one slice\<close>

lemma keep_desired_spec:
  assumes "list_all (\<lambda>e. seAddresses e \<noteq> []) es"
  obtains kept desired' where "keep_desired es desired = (Ok kept, desired')"
    and "wanted desired = mset (map slice_addr kept) + wanted desired'"
    and "\<forall>k e. fmlookup desired' k = Some e \<longrightarrow> fmlookup desired k = Some e"
    and "length kept \<le> length es" and "length kept = length es \<longrightarrow> kept = es"
    and "set kept \<subseteq> set es"
    and "fset (fmdom desired') = fset (fmdom desired) - slice_addr ` set es"
proof -
  have "\<exists>kept desired'. keep_desired es desired = (Ok kept, desired')
    \<and> wanted desired = mset (map slice_addr kept) + wanted desired'
    \<and> (\<forall>k e. fmlookup desired' k = Some e \<longrightarrow> fmlookup desired k = Some e)
    \<and> length kept \<le> length es \<and> (length kept = length es \<longrightarrow> kept = es)
    \<and> set kept \<subseteq> set es \<and> fset (fmdom desired') = fset (fmdom desired) - slice_addr ` set es"
    using assms
  proof (induction es arbitrary: desired)
    case Nil
    show ?case by simp
  next
    case (Cons e es)
    then obtain key addrs where e: "seAddresses e = key # addrs"
      by (cases "seAddresses e") auto
    then have addr: "slice_addr e = key" by (simp add: slice_addr_def)
    show ?case
    proof (cases "fmlookup desired key")
      case None
      with Cons.IH [of desired] Cons.prems obtain kept desired' where
        "keep_desired es desired = (Ok kept, desired')"
        "wanted desired = mset (map slice_addr kept) + wanted desired'"
        "\<forall>k e. fmlookup desired' k = Some e \<longrightarrow> fmlookup desired k = Some e"
        "length kept \<le> length es" "set kept \<subseteq> set es"
        "fset (fmdom desired') = fset (fmdom desired) - slice_addr ` set es" by auto
      moreover have "key \<notin> fset (fmdom desired)" using None by (simp add: fmdom_notI)
      ultimately show ?thesis
        using None e addr by (intro exI [of _ kept] exI [of _ desired']) auto
    next
      case (Some d)
      with Cons.IH [of "fmdrop key desired"] Cons.prems obtain kept desired' where
        k: "keep_desired es (fmdrop key desired) = (Ok kept, desired')"
        "wanted (fmdrop key desired) = mset (map slice_addr kept) + wanted desired'"
        "\<forall>k e. fmlookup desired' k = Some e \<longrightarrow> fmlookup (fmdrop key desired) k = Some e"
        "length kept \<le> length es" "length kept = length es \<longrightarrow> kept = es" "set kept \<subseteq> set es"
        "fset (fmdom desired') = fset (fmdom (fmdrop key desired)) - slice_addr ` set es" by auto
      from k(3) have "\<forall>k e. fmlookup desired' k = Some e \<longrightarrow> fmlookup desired k = Some e"
        using fmdrop_submap by metis
      with k wanted_fmdrop [OF Some] Some e addr show ?thesis
        by (intro exI [of _ "e # kept"] exI [of _ desired']) auto
    qed
  qed
  then show thesis using that by blast
qed

lemma keep_all:
  assumes "list_all (\<lambda>e. seAddresses e \<noteq> []) es" and "mset (map slice_addr es) \<subseteq># wanted desired"
  obtains desired' where "keep_desired es desired = (Ok es, desired')"
    and "wanted desired = mset (map slice_addr es) + wanted desired'"
proof -
  have "\<exists>desired'. keep_desired es desired = (Ok es, desired')
    \<and> wanted desired = mset (map slice_addr es) + wanted desired'"
    using assms
  proof (induction es arbitrary: desired)
    case Nil
    show ?case by simp
  next
    case (Cons e es)
    then obtain key addrs where e: "seAddresses e = key # addrs"
      by (cases "seAddresses e") auto
    then have addr: "slice_addr e = key" by (simp add: slice_addr_def)
    with Cons.prems(2) have "key \<in># wanted desired" by (simp add: insert_subset_eq_iff)
    then obtain d where d: "fmlookup desired key = Some d"
      by (auto simp: fmlookup_dom_iff)
    with Cons.prems addr have "mset (map slice_addr es) \<subseteq># wanted (fmdrop key desired)"
      by (simp add: wanted_fmdrop)
    with Cons.IH [of "fmdrop key desired"] Cons.prems(1) obtain desired' where
      "keep_desired es (fmdrop key desired) = (Ok es, desired')"
      "wanted (fmdrop key desired) = mset (map slice_addr es) + wanted desired'" by auto
    with d e addr show ?case by (simp add: wanted_fmdrop)
  qed
  then show thesis using that by blast
qed

section \<open>The invariant of the plan\<close>

text \<open>
  \<open>live\<close> are the slices that will exist once the changes are made. \<open>refs_inv\<close>: every current slice
  is in exactly one list, new pointers are exactly the created slices, and no slice outside
  \<open>scUpdate\<close> is written. \<open>keys_inv\<close>: the addresses held by live slices and those still to add are
  together the desired ones, each once. \<open>full_inv\<close>: live slices (except those in \<open>E\<close>) hold the desired
  ports and an endpoint, and none is longer than the bound \<open>B\<close>.
\<close>

definition live :: "slice_changes \<Rightarrow> slice_ref list" where
  "live c = scCreate c @ scUpdate c @ scUnmodified c"

definition refs_inv :: "slices \<Rightarrow> slice_ref list \<Rightarrow> trim_state \<Rightarrow> bool" where
  "refs_inv h0 seen s \<longleftrightarrow>
     (let c = tsChanges s; h = tsSlices s in
      mset (scUpdate c @ scDelete c @ scUnmodified c) = mset seen
      \<and> distinct seen \<and> (\<forall>r \<in> set seen. r < length h0)
      \<and> length h0 \<le> length h \<and> scCreate c = [length h0..<length h]
      \<and> (\<forall>r < length h0. r \<notin> set (scUpdate c) \<longrightarrow> h ! r = h0 ! r)
      \<and> (\<forall>r < length h0. esMeta (h ! r) = esMeta (h0 ! r) \<and> esAddressType (h ! r) = esAddressType (h0 ! r)))"

definition keys_inv :: "endpoint_map \<Rightarrow> trim_state \<Rightarrow> bool" where
  "keys_inv D s \<longleftrightarrow>
     mset (keys_at (tsSlices s) (live (tsChanges s))) + wanted (tsDesired s) = wanted D
     \<and> by_ip (tsDesired s)"

definition full_inv :: "ext \<Rightarrow> port list \<Rightarrow> int \<Rightarrow> slice_ref set \<Rightarrow> trim_state \<Rightarrow> bool" where
  "full_inv X ports B E s \<longleftrightarrow>
     (\<forall>r \<in> set (live (tsChanges s)).
        int (length (esEndpoints (tsSlices s ! r))) \<le> B
        \<and> list_all (\<lambda>e. seAddresses e \<noteq> []) (esEndpoints (tsSlices s ! r))
        \<and> (r \<notin> E \<longrightarrow> has_ports X ports (tsSlices s ! r) \<and> esEndpoints (tsSlices s ! r) \<noteq> []))"

lemma refs_inv_lists:
  assumes "refs_inv h0 seen s"
  shows "distinct (live (tsChanges s) @ scDelete (tsChanges s))"
    and "r \<in> set (live (tsChanges s) @ scDelete (tsChanges s)) \<Longrightarrow> r < length (tsSlices s)"
    and "set (scUpdate (tsChanges s)) \<union> set (scDelete (tsChanges s)) \<union> set (scUnmodified (tsChanges s)) = set seen"
proof -
  let ?c = "tsChanges s"
  let ?old = "scUpdate ?c @ scDelete ?c @ scUnmodified ?c"
  have m: "mset ?old = mset seen" and d: "distinct seen" and lt: "\<forall>r \<in> set seen. r < length h0"
    and le: "length h0 \<le> length (tsSlices s)" and cr: "scCreate ?c = [length h0..<length (tsSlices s)]"
    using assms by (simp_all add: refs_inv_def Let_def)
  from m d have dold: "distinct ?old" by (metis mset_eq_imp_distinct_iff)
  from m have sold: "set ?old = set seen" by (metis mset_eq_setD)
  then show "set (scUpdate ?c) \<union> set (scDelete ?c) \<union> set (scUnmodified ?c) = set seen"
    by (simp add: Un_assoc)
  have old_lt: "r < length h0" if "r \<in> set ?old" for r using that lt unfolding sold by blast
  show "distinct (live ?c @ scDelete ?c)"
    using dold old_lt cr by (fastforce simp: live_def)
  show "r < length (tsSlices s)" if "r \<in> set (live ?c @ scDelete ?c)"
    using that old_lt [of r] le cr by (fastforce simp: live_def)
qed

section \<open>Trimming keeps the invariant\<close>

lemma trimSlice_spec:
  assumes X: "diff_is_multiset_equality X"
    and refs: "refs_inv h0 seen s" and keys: "keys_inv D s" and full: "full_inv X ports B {} s"
    and r: "r < length h0" "r \<notin> set seen"
    and wa: "well_addressed (h0 ! r)" and B: "int (length (esEndpoints (h0 ! r))) \<le> B"
  obtains s' where "trimSlice X ports r s = (Ok (), s')"
    and "refs_inv h0 (seen @ [r]) s'" and "keys_inv D s'" and "full_inv X ports B {} s'"
    and "scCreate (tsChanges s') = scCreate (tsChanges s)"
    and "fset (fmdom (tsDesired s')) = fset (fmdom (tsDesired s)) - set (slice_keys (h0 ! r))"
proof -
  let ?c = "tsChanges s"
  let ?h = "tsSlices s"
  note lists = refs_inv_lists [OF refs]
  have fresh: "r \<notin> set (scUpdate ?c)" "r \<notin> set (scDelete ?c)" "r \<notin> set (scUnmodified ?c)"
    using lists(3) r(2) by auto
  have same: "?h ! r = h0 ! r" and lt: "r < length ?h" and notcr: "r \<notin> set (scCreate ?c)"
    using refs r(1) fresh(1) by (auto simp: refs_inv_def Let_def)
  have notlive: "r \<notin> set (live ?c)" using fresh notcr by (simp add: live_def)
  have addressed: "list_all (\<lambda>e. seAddresses e \<noteq> []) (esEndpoints (h0 ! r))"
    using wa by (simp add: well_addressed_def)
  obtain kept desired where kd: "keep_desired (esEndpoints (h0 ! r)) (tsDesired s) = (Ok kept, desired)"
    and w: "wanted (tsDesired s) = mset (map slice_addr kept) + wanted desired"
    and sub: "\<forall>k e. fmlookup desired k = Some e \<longrightarrow> fmlookup (tsDesired s) k = Some e"
    and len: "length kept \<le> length (esEndpoints (h0 ! r))"
    and eq: "length kept = length (esEndpoints (h0 ! r)) \<longrightarrow> kept = esEndpoints (h0 ! r)"
    and subset: "set kept \<subseteq> set (esEndpoints (h0 ! r))"
    and dom: "fset (fmdom desired) = fset (fmdom (tsDesired s)) - slice_addr ` set (esEndpoints (h0 ! r))"
    by (rule keep_desired_spec [OF addressed, of "tsDesired s"])
  have byip: "by_ip desired" using keys sub unfolding keys_inv_def by_ip_def by blast
  obtain ps where ps: "endpointPortSliceToPortSlice (esPorts (h0 ! r)) = Ok ps"
    using wa ports_readable unfolding well_addressed_def by blast
  have dom': "fset (fmdom desired) = fset (fmdom (tsDesired s)) - set (slice_keys (h0 ! r))"
    using dom by (simp add: slice_keys_def)
  show thesis
  proof (cases "kept = []")
    case True
    let ?s = "s\<lparr>tsDesired := desired, tsChanges := ?c\<lparr>scDelete := scDelete ?c @ [r]\<rparr>\<rparr>"
    show thesis
    proof (rule that [of ?s])
      show "trimSlice X ports r s = (Ok (), ?s)"
        using True kd same lt by (simp add: trimSlice_def Let_def)
      show "refs_inv h0 (seen @ [r]) ?s" using refs r by (simp add: refs_inv_def Let_def)
      show "keys_inv D ?s" using keys True w byip by (simp add: keys_inv_def live_def)
      show "full_inv X ports B {} ?s" using full by (simp add: full_inv_def live_def)
    qed (use dom' in simp_all)
  next
    case False
    define differ where "differ \<longleftrightarrow> \<not> PortsEqualIgnoreOrder X ports ps"
    define s1 where "s1 = (if differ then (h0 ! r)\<lparr>esPorts := portSliceToEndpointPortSlice ports\<rparr> else h0 ! r)"
    define shorter where "shorter \<longleftrightarrow> length kept \<noteq> length (esEndpoints (h0 ! r))"
    define s2 where "s2 = (if shorter then s1\<lparr>esEndpoints := kept\<rparr> else s1)"
    define c' where "c' = (if differ \<or> shorter then ?c\<lparr>scUpdate := scUpdate ?c @ [r]\<rparr>
                           else ?c\<lparr>scUnmodified := scUnmodified ?c @ [r]\<rparr>)"
    let ?s = "s\<lparr>tsSlices := ?h[r := s2], tsDesired := desired, tsChanges := c'\<rparr>"
    have ends: "esEndpoints s2 = kept" using eq by (auto simp: s2_def s1_def shorter_def)
    have kept: "list_all (\<lambda>e. seAddresses e \<noteq> []) kept"
      using addressed subset by (auto simp: list_all_iff)
    have ports: "has_ports X ports s2"
      using ps ports_after_write [OF X] by (auto simp: s2_def s1_def differ_def has_ports_def)
    have meta: "esMeta s2 = esMeta (h0 ! r)" "esAddressType s2 = esAddressType (h0 ! r)"
      by (simp_all add: s2_def s1_def)
    have unmod: "s2 = h0 ! r" if "\<not> (differ \<or> shorter)" using that by (simp add: s2_def s1_def)
    have live': "mset (live c') = add_mset r (mset (live ?c))" by (simp add: c'_def live_def)
    then have setlive: "set (live c') = insert r (set (live ?c))"
      by (metis set_mset_add_mset_insert set_mset_mset)
    have keys': "mset (keys_at (?h[r := s2]) (live c')) = mset (map slice_addr kept) + mset (keys_at ?h (live ?c))"
      using notlive ends lt by (auto simp: c'_def live_def slice_keys_def)
    show thesis
    proof (rule that [of ?s])
      show "trimSlice X ports r s = (Ok (), ?s)"
        using False kd same lt ps
        by (simp add: trimSlice_def Let_def s2_def s1_def c'_def differ_def shorter_def)
      show "refs_inv h0 (seen @ [r]) ?s"
        using refs r meta unmod by (auto simp: refs_inv_def Let_def c'_def nth_list_update)
      show "keys_inv D ?s" using keys keys' w byip by (simp add: keys_inv_def ac_simps)
      show "full_inv X ports B {} ?s"
        using full notlive ends ports kept len B False lt
        by (auto simp: full_inv_def setlive nth_list_update)
      show "scCreate (tsChanges ?s) = scCreate ?c" by (simp add: c'_def)
    qed (use dom' in simp_all)
  qed
qed


lemma trimSlices_spec:
  assumes "diff_is_multiset_equality X"
    and "refs_inv h0 seen s" and "keys_inv D s" and "full_inv X ports B {} s"
    and "distinct (seen @ rs)" and "\<forall>r \<in> set rs. r < length h0 \<and> well_addressed (h0 ! r)
      \<and> int (length (esEndpoints (h0 ! r))) \<le> B"
  obtains s' where "trimSlices X ports rs s = (Ok (), s')"
    and "refs_inv h0 (seen @ rs) s'" and "keys_inv D s'" and "full_inv X ports B {} s'"
    and "scCreate (tsChanges s') = scCreate (tsChanges s)"
    and "fset (fmdom (tsDesired s')) = fset (fmdom (tsDesired s)) - set (keys_at h0 rs)"
proof -
  have "\<exists>s'. trimSlices X ports rs s = (Ok (), s') \<and> refs_inv h0 (seen @ rs) s' \<and> keys_inv D s'
    \<and> full_inv X ports B {} s' \<and> scCreate (tsChanges s') = scCreate (tsChanges s)
    \<and> fset (fmdom (tsDesired s')) = fset (fmdom (tsDesired s)) - set (keys_at h0 rs)"
    using assms(2-6)
  proof (induction rs arbitrary: seen s)
    case Nil
    then show ?case by simp
  next
    case (Cons r rs)
    have r: "r < length h0" "r \<notin> set seen" "well_addressed (h0 ! r)"
      "int (length (esEndpoints (h0 ! r))) \<le> B" using Cons.prems(4,5) by auto
    obtain s1 where s1: "trimSlice X ports r s = (Ok (), s1)" "refs_inv h0 (seen @ [r]) s1"
      "keys_inv D s1" "full_inv X ports B {} s1" "scCreate (tsChanges s1) = scCreate (tsChanges s)"
      "fset (fmdom (tsDesired s1)) = fset (fmdom (tsDesired s)) - set (slice_keys (h0 ! r))"
      by (rule trimSlice_spec [OF assms(1) Cons.prems(1-3) r])
    have "distinct ((seen @ [r]) @ rs)" using Cons.prems(4) by simp
    with Cons.IH [OF s1(2-4)] Cons.prems(5) obtain s' where
      "trimSlices X ports rs s1 = (Ok (), s')" "refs_inv h0 ((seen @ [r]) @ rs) s'" "keys_inv D s'"
      "full_inv X ports B {} s'" "scCreate (tsChanges s') = scCreate (tsChanges s1)"
      "fset (fmdom (tsDesired s')) = fset (fmdom (tsDesired s1)) - set (keys_at h0 rs)" by auto
    with s1 show ?case by (intro exI [of _ s']) auto
  qed
  then show thesis using that by blast
qed

section \<open>A round of the adding loop\<close>

lemma nth_update_any:
  assumes "r < length h"
  shows "h[r := x] ! q = (if q = r then x else h ! q)"
  using assms by (cases "q = r") simp_all

lemma fill_slice_spec:
  assumes "r < length h" and "by_ip desired" and "int (length (esEndpoints (h ! r))) \<le> getMaxEndpointsPerSlice p"
  obtains added desired' where
    "fill_slice p r keys h desired
       = (h[r := (h ! r)\<lparr>esEndpoints := esEndpoints (h ! r)
             @ map (CreateEndpointForSlice (spService p)) added\<rparr>], desired')"
    and "wanted desired = mset (map epIP added) + wanted desired'"
    and "by_ip desired'"
    and "int (length (esEndpoints (h ! r)) + length added) \<le> getMaxEndpointsPerSlice p"
    and "\<forall>k \<in> set keys. k \<in> fset (fmdom desired)
      \<longrightarrow> int (length (esEndpoints (h ! r))) < getMaxEndpointsPerSlice p \<longrightarrow> added \<noteq> []"
proof -
  let ?max = "getMaxEndpointsPerSlice p"
  let ?new = "\<lambda>h added. (h ! r)\<lparr>esEndpoints := esEndpoints (h ! r)
             @ map (CreateEndpointForSlice (spService p)) added\<rparr>"
  have "\<exists>added desired'. fill_slice p r keys h desired = (h[r := ?new h added], desired')
    \<and> wanted desired = mset (map epIP added) + wanted desired' \<and> by_ip desired'
    \<and> int (length (esEndpoints (h ! r)) + length added) \<le> ?max
    \<and> (\<forall>k \<in> set keys. k \<in> fset (fmdom desired) \<longrightarrow> int (length (esEndpoints (h ! r))) < ?max \<longrightarrow> added \<noteq> [])"
    using assms
  proof (induction keys arbitrary: h desired)
    case Nil
    then show ?case by (intro exI [of _ "[]"] exI [of _ desired]) simp
  next
    case (Cons key keys)
    show ?case
    proof (cases "fmlookup desired key")
      case None
      with Cons.IH [OF Cons.prems] fmdom_notI [OF None] show ?thesis by auto
    next
      case (Some e)
      show ?thesis
      proof (cases "?max - int (length (esEndpoints (h ! r))) \<le> 0")
        case True
        with Some Cons.prems show ?thesis
          by (intro exI [of _ "[]"] exI [of _ desired]) simp
      next
        case False
        let ?h = "h[r := ?new h [e]]"
        from False Cons.prems have "r < length ?h" "by_ip (fmdrop key desired)"
          "int (length (esEndpoints (?h ! r))) \<le> ?max" by simp_all
        from Cons.IH [OF this] obtain added desired' where
          a: "fill_slice p r keys ?h (fmdrop key desired) = (?h[r := ?new ?h added], desired')"
          "wanted (fmdrop key desired) = mset (map epIP added) + wanted desired'" "by_ip desired'"
          "int (length (esEndpoints (?h ! r)) + length added) \<le> ?max" by blast
        have "epIP e = key" using Some Cons.prems(2) by (simp add: by_ip_def)
        with a Some False Cons.prems(1) show ?thesis
          by (intro exI [of _ "e # added"] exI [of _ desired']) (simp add: wanted_fmdrop)
      qed
    qed
  qed
  then show thesis using that by blast
qed

lemma extract_split:
  assumes "List.extract P xs = Some (ys, x, zs)"
  shows "xs = ys @ x # zs" and "x \<in> set xs" and "P x"
  using assms by (auto simp: extract_Some_iff)

lemma getOrCreate_spec:
  assumes refs: "refs_inv h0 seen s" and keys: "keys_inv D s" and full: "full_inv X ports B {} s"
    and des: "fmdom (tsDesired s) \<noteq> {||}" and max: "1 \<le> getMaxEndpointsPerSlice p"
    and B: "getMaxEndpointsPerSlice p \<le> B"
    and g: "getOrCreateUnfilledEndpointSlice p (tsChanges s) (int (fcard (fmdom (tsDesired s)))) (tsSlices s)
              = ((r, need), c', h')"
  shows "let s' = s\<lparr>tsSlices := h', tsChanges := c'\<rparr> in
    refs_inv h0 seen s' \<and> keys_inv D s' \<and> full_inv X ports B (if need then {r} else {}) s'
    \<and> r \<in> set (scCreate c') \<union> set (scUpdate c') \<and> r < length h'
    \<and> int (length (esEndpoints (h' ! r))) < getMaxEndpointsPerSlice p"
proof -
  let ?c = "tsChanges s"
  let ?h = "tsSlices s"
  let ?max = "getMaxEndpointsPerSlice p"
  let ?P = "\<lambda>r. int (length (esEndpoints (?h ! r))) < ?max"
  let ?Q = "\<lambda>r. int (length (esEndpoints (?h ! r))) + int (fcard (fmdom (tsDesired s))) \<le> ?max"
  note lists = refs_inv_lists [OF refs]
  consider (upd) r' where "find ?P (scUpdate ?c) = Some r'"
    | (del) r' rs where "find ?P (scUpdate ?c) = None" "scDelete ?c = r' # rs"
    | (unm) ys r' zs where "find ?P (scUpdate ?c) = None" "scDelete ?c = []"
        "List.extract ?Q (scUnmodified ?c) = Some (ys, r', zs)"
    | (new) "find ?P (scUpdate ?c) = None" "scDelete ?c = []" "List.extract ?Q (scUnmodified ?c) = None"
    by (metis list.exhaust option.exhaust prod_cases3)
  then show ?thesis
  proof cases
    case upd
    then have "r = r'" "\<not> need" "c' = ?c" "h' = ?h"
      using g by (auto simp: getOrCreateUnfilledEndpointSlice_def)
    moreover have "r' \<in> set (scUpdate ?c)" "?P r'" using upd by (auto simp: find_Some_iff)
    ultimately show ?thesis
      using refs keys full lists(2) [of r'] by (auto simp: live_def)
  next
    case del
    then have e: "r = r'" "need" "c' = ?c\<lparr>scDelete := rs, scUpdate := scUpdate ?c @ [r']\<rparr>"
      "h' = ?h[r' := (?h ! r')\<lparr>esEndpoints := []\<rparr>]"
      using g by (auto simp: getOrCreateUnfilledEndpointSlice_def)
    have notlive: "r' \<notin> set (live ?c)" and lt: "r' < length ?h"
      using lists(1) lists(2) [of r'] del by auto
    have lv: "mset (live c') = add_mset r' (mset (live ?c))" by (simp add: e live_def)
    then have setlive: "set (live c') = insert r' (set (live ?c))"
      by (metis set_mset_add_mset_insert set_mset_mset)
    have kk: "mset (keys_at h' (live c')) = mset (keys_at ?h (live ?c))"
      using notlive lt by (auto simp: e live_def slice_keys_def)
    have "refs_inv h0 seen (s\<lparr>tsSlices := h', tsChanges := c'\<rparr>)"
      using refs del lt by (auto simp: refs_inv_def Let_def e nth_list_update)
    moreover have "keys_inv D (s\<lparr>tsSlices := h', tsChanges := c'\<rparr>)"
      using keys kk by (simp add: keys_inv_def)
    moreover have "full_inv X ports B {r} (s\<lparr>tsSlices := h', tsChanges := c'\<rparr>)"
      using full notlive lt max B setlive by (auto simp: full_inv_def e nth_list_update)
    ultimately show ?thesis using max lt by (simp add: e)
  next
    case unm
    note ex = extract_split [OF unm(3)]
    from unm have e: "r = r'" "\<not> need"
      "c' = ?c\<lparr>scUnmodified := ys @ zs, scUpdate := scUpdate ?c @ [r']\<rparr>" "h' = ?h"
      using g by (auto simp: getOrCreateUnfilledEndpointSlice_def)
    have lv: "mset (live c') = mset (live ?c)" using ex(1) by (simp add: e live_def)
    then have setlive: "set (live c') = set (live ?c)" by (metis mset_eq_setD)
    have kk: "mset (keys_at ?h (live c')) = mset (keys_at ?h (live ?c))"
      using ex(1) by (simp add: e live_def)
    have pos: "0 < fcard (fmdom (tsDesired s))" using des by (metis fcard_0_eq neq0_conv)
    have "refs_inv h0 seen (s\<lparr>tsSlices := h', tsChanges := c'\<rparr>)"
      using refs unm(2) ex(1) by (auto simp: refs_inv_def Let_def e)
    moreover have "keys_inv D (s\<lparr>tsSlices := h', tsChanges := c'\<rparr>)"
      using keys kk by (simp add: keys_inv_def e)
    moreover have "full_inv X ports B {} (s\<lparr>tsSlices := h', tsChanges := c'\<rparr>)"
      using full setlive by (simp add: full_inv_def e)
    moreover have "r' < length ?h" using lists(2) [of r'] ex(2) by (simp add: live_def)
    ultimately show ?thesis using e ex(3) pos by simp
  next
    case new
    let ?n = "CreateEndpointSliceStruct (spService p) (spServiceImportName p) (spClusterId p) (CheckAddressType p)"
    from new have e: "r = length ?h" "need" "c' = ?c\<lparr>scCreate := scCreate ?c @ [length ?h]\<rparr>" "h' = ?h @ [?n]"
      using g by (auto simp: getOrCreateUnfilledEndpointSlice_def)
    have lt: "\<forall>q \<in> set (live ?c). q < length ?h" using lists(2) by simp
    have empty: "esEndpoints ?n = []" by (simp add: CreateEndpointSliceStruct_def)
    have setlive: "set (live c') = insert (length ?h) (set (live ?c))" by (auto simp: e live_def)
    have "mset (keys_at h' (live c')) = mset (keys_at h' (live ?c)) + mset (slice_keys ?n)"
      by (simp add: e live_def)
    then have kk: "mset (keys_at h' (live c')) = mset (keys_at ?h (live ?c))"
      using lt empty by (simp add: e slice_keys_def)
    have "refs_inv h0 seen (s\<lparr>tsSlices := h', tsChanges := c'\<rparr>)"
      using refs by (auto simp: refs_inv_def Let_def e nth_append)
    moreover have "keys_inv D (s\<lparr>tsSlices := h', tsChanges := c'\<rparr>)"
      using keys kk by (simp add: keys_inv_def)
    moreover have "full_inv X ports B {r} (s\<lparr>tsSlices := h', tsChanges := c'\<rparr>)"
      using full lt empty max B setlive by (auto simp: full_inv_def e nth_append)
    ultimately show ?thesis using empty max by (simp add: e)
  qed
qed


lemma add_round_spec:
  assumes X: "diff_is_multiset_equality X" and ord: "is_range_order ord"
    and refs: "refs_inv h0 seen s" and keys: "keys_inv D s" and full: "full_inv X ports B {} s"
    and des: "fmdom (tsDesired s) \<noteq> {||}" and max: "1 \<le> getMaxEndpointsPerSlice p"
    and B: "getMaxEndpointsPerSlice p \<le> B"
  defines "s' \<equiv> add_round p ord ports s"
  shows "refs_inv h0 seen s'" and "keys_inv D s'" and "full_inv X ports B {} s'"
    and "fcard (fmdom (tsDesired s')) < fcard (fmdom (tsDesired s))"
proof -
  let ?h0 = "tsSlices s" and ?d = "tsDesired s" and ?max = "getMaxEndpointsPerSlice p"
  obtain r need c h where g: "getOrCreateUnfilledEndpointSlice p (tsChanges s) (int (fcard (fmdom ?d))) ?h0
      = ((r, need), c, h)" by (metis prod_cases3 surj_pair)
  let ?s1 = "s\<lparr>tsSlices := h, tsChanges := c\<rparr>"
  have refs1: "refs_inv h0 seen ?s1" and keys1: "keys_inv D ?s1"
    and full1: "full_inv X ports B (if need then {r} else {}) ?s1"
    and rin: "r \<in> set (scCreate c) \<union> set (scUpdate c)" and lt: "r < length h"
    and room: "int (length (esEndpoints (h ! r))) < ?max"
    using getOrCreate_spec [OF refs keys full des max B g] by (auto simp: Let_def)
  have byip: "by_ip ?d" using keys by (simp add: keys_inv_def)
  obtain added d' where f: "fill_slice p r (ord (fmdom ?d)) h ?d
      = (h[r := (h ! r)\<lparr>esEndpoints := esEndpoints (h ! r) @ map (CreateEndpointForSlice (spService p)) added\<rparr>], d')"
    and w: "wanted ?d = mset (map epIP added) + wanted d'" and byip': "by_ip d'"
    and fits: "int (length (esEndpoints (h ! r)) + length added) \<le> ?max"
    and some: "\<forall>k \<in> set (ord (fmdom ?d)). k \<in> fset (fmdom ?d)
      \<longrightarrow> int (length (esEndpoints (h ! r))) < ?max \<longrightarrow> added \<noteq> []"
    by (rule fill_slice_spec [OF lt byip less_imp_le [OF room]])
  define s1 where "s1 = (h ! r)\<lparr>esEndpoints := esEndpoints (h ! r) @ map (CreateEndpointForSlice (spService p)) added\<rparr>"
  define s2 where "s2 = (if need then s1\<lparr>esPorts := portSliceToEndpointPortSlice ports\<rparr> else s1)"
  have s': "s' = \<lparr>tsSlices = h[r := s2], tsDesired = d', tsChanges = c\<rparr>"
    using lt unfolding s'_def add_round_def by (simp add: g f s2_def s1_def)
  have ne: "added \<noteq> []" using some room des ord by fastforce
  have s2: "esEndpoints s2 = esEndpoints (h ! r) @ map (CreateEndpointForSlice (spService p)) added"
    "esMeta s2 = esMeta (h ! r)" "esAddressType s2 = esAddressType (h ! r)"
    by (simp_all add: s2_def s1_def)
  have addressed: "list_all (\<lambda>e. seAddresses e \<noteq> []) (map (CreateEndpointForSlice (spService p)) added)"
    by (auto simp: list_all_iff CreateEndpointForSlice_def)
  have sk: "mset (slice_keys s2) = mset (slice_keys (h ! r)) + mset (map epIP added)"
    by (simp add: slice_keys_def s2 slice_addr_def comp_def CreateEndpointForSlice_def)
  have rl: "r \<in> set (live c)" and rnotun: "r \<notin> set (scUnmodified c)"
    using rin refs_inv_lists(1) [OF refs1] by (auto simp: live_def)
  obtain before after where split: "live c = before @ r # after" "r \<notin> set before" "r \<notin> set after"
    using rl refs_inv_lists(1) [OF refs1] by (auto dest: split_list)
  show "refs_inv h0 seen s'"
    using refs1 rin lt by (auto simp: refs_inv_def Let_def s' s2 nth_update_any)
  show "keys_inv D s'"
    using keys1 split lt sk w byip' by (simp add: keys_inv_def s' ac_simps)
  show "full_inv X ports B {} s'"
    using full1 lt fits B ne addressed ports_after_write [OF X]
    by (auto simp: full_inv_def s' nth_update_any [OF lt] s2_def s1_def rl)
  have "size (wanted d') < size (wanted ?d)" using w ne by simp
  then show "fcard (fmdom (tsDesired s')) < fcard (fmdom ?d)"
    by (simp add: s' fcard.rep_eq)
qed

lemma add_loop_spec:
  assumes X: "diff_is_multiset_equality X" and ord: "is_range_order ord"
    and max: "1 \<le> getMaxEndpointsPerSlice p" and B: "getMaxEndpointsPerSlice p \<le> B"
    and "refs_inv h0 seen s" and "keys_inv D s" and "full_inv X ports B {} s"
  obtains s' where "add_loop p ord ports s = Some s'" and "refs_inv h0 seen s'" and "keys_inv D s'"
    and "full_inv X ports B {} s'" and "fmdom (tsDesired s') = {||}"
proof -
  have "\<exists>s'. add_loop p ord ports s = Some s' \<and> refs_inv h0 seen s' \<and> keys_inv D s'
      \<and> full_inv X ports B {} s' \<and> fmdom (tsDesired s') = {||}"
    using assms(5-7)
  proof (induction "fcard (fmdom (tsDesired s))" arbitrary: s rule: less_induct)
    case less
    show ?case
    proof (cases "fmdom (tsDesired s) = {||}")
      case True
      with less.prems show ?thesis by (simp add: add_loop.simps)
    next
      case False
      note round = add_round_spec [OF X ord less.prems False max B]
      from less.hyps [OF round(4,1-3)] False show ?thesis
        by (simp add: add_loop.simps [of p ord ports s])
    qed
  qed
  then show thesis using that by blast
qed

text \<open>With no room per slice, a round adds nothing and the loop goes on for ever.\<close>

lemma fill_slice_no_room:
  assumes "getMaxEndpointsPerSlice p \<le> 0"
  shows "fill_slice p r keys h desired = (h, desired)"
  using assms by (induction keys) (auto split: option.splits)

lemma add_loop_returns_empty:
  assumes "add_loop p ord ports s = Some s'"
  shows "getMaxEndpointsPerSlice p \<le> 0 \<longrightarrow> fmdom (tsDesired s) = {||}"
proof (rule add_loop.raw_induct [OF _ assms,
    of "\<lambda>p ord ports s s'. getMaxEndpointsPerSlice p \<le> 0 \<longrightarrow> fmdom (tsDesired s) = {||}"])
  fix loop p ord ports s s'
  assume IH: "\<And>p ord ports s s'. loop p ord ports s = Some s'
      \<Longrightarrow> getMaxEndpointsPerSlice p \<le> 0 \<longrightarrow> fmdom (tsDesired s) = {||}"
    and step: "(if fmdom (tsDesired s) = {||} then Some s
      else loop p ord ports (add_round p ord ports s)) = Some (s' :: trim_state)"
  show "getMaxEndpointsPerSlice p \<le> 0 \<longrightarrow> fmdom (tsDesired s) = {||}"
  proof (rule impI)
    assume max: "getMaxEndpointsPerSlice p \<le> 0"
    have "tsDesired (add_round p ord ports s) = tsDesired s"
      by (simp add: add_round_def fill_slice_no_room [OF max] split: prod.splits)
    with IH [of p ord ports "add_round p ord ports s" s'] step max
    show "fmdom (tsDesired s) = {||}" by (auto split: if_splits)
  qed
qed

lemma add_loop_diverges:
  assumes "getMaxEndpointsPerSlice p \<le> 0" and "fmdom (tsDesired s) \<noteq> {||}"
  shows "add_loop p ord ports s = None"
  using assms add_loop_returns_empty [of p ord ports s] by (cases "add_loop p ord ports s") auto

section \<open>The plan as a whole\<close>

definition plan_ready :: "slice_plan \<Rightarrow> slices \<Rightarrow> bool" where
  "plan_ready p h \<longleftrightarrow> distinct (spCurrent p)
     \<and> (\<forall>r \<in> set (spCurrent p). r < length h \<and> well_addressed (h ! r))"

definition slices_within :: "int \<Rightarrow> slices \<Rightarrow> slice_ref list \<Rightarrow> bool" where
  "slices_within B h rs \<longleftrightarrow> (\<forall>r \<in> set rs. int (length (esEndpoints (h ! r))) \<le> B)"

abbreviation desired_ips :: "slice_plan \<Rightarrow> string multiset" where
  "desired_ips p \<equiv> mset_set (epIP ` set (spDesired p))"

definition start_state :: "slice_plan \<Rightarrow> slices \<Rightarrow> trim_state" where
  "start_state p h = \<lparr>tsSlices = h, tsDesired = index_by epIP (spDesired p), tsChanges = no_changes\<rparr>"

lemma start_inv:
  "refs_inv h [] (start_state p h)" "keys_inv (index_by epIP (spDesired p)) (start_state p h)"
  "full_inv X ports B {} (start_state p h)"
  by (simp_all add: start_state_def refs_inv_def keys_inv_def full_inv_def live_def no_changes_def)

lemma dom_start: "fset (fmdom (index_by epIP es)) = epIP ` set es"
  by (metis fmdom'_alt_def fmdom_index_by)

lemma wanted_start: "wanted (index_by epIP es) = mset_set (epIP ` set es)"
  by (simp add: dom_start)

lemma trimmed:
  assumes X: "diff_is_multiset_equality X" and ready: "plan_ready p h"
    and B: "slices_within B h (spCurrent p)"
  obtains s where "trimSlices X ports (spCurrent p) (start_state p h) = (Ok (), s)"
    and "refs_inv h (spCurrent p) s" and "keys_inv (index_by epIP (spDesired p)) s"
    and "full_inv X ports B {} s"
    and "fset (fmdom (tsDesired s)) = epIP ` set (spDesired p) - set (keys_at h (spCurrent p))"
proof -
  have d: "distinct ([] @ spCurrent p)" and w: "\<forall>r \<in> set (spCurrent p). r < length h
      \<and> well_addressed (h ! r) \<and> int (length (esEndpoints (h ! r))) \<le> B"
    using ready B by (auto simp: plan_ready_def slices_within_def)
  have "fset (fmdom (tsDesired (start_state p h))) = epIP ` set (spDesired p)"
    by (simp add: start_state_def dom_start)
  then show thesis
    using trimSlices_spec [OF X start_inv d w] that by (metis append_Nil)
qed

lemma slice_plan_result:
  assumes X: "diff_is_multiset_equality X" and ord: "is_range_order ord" and ready: "plan_ready p h"
    and max: "1 \<le> getMaxEndpointsPerSlice p" and B: "getMaxEndpointsPerSlice p \<le> B"
    and within: "slices_within B h (spCurrent p)"
  obtains s where "CalculateSliceChanges X pord ord p h = Some (Ok (tsChanges s), tsSlices s)"
    and "refs_inv h (spCurrent p) s" and "keys_inv (index_by epIP (spDesired p)) s"
    and "full_inv X (ExtractEndpointPorts pord (spDesired p)) B {} s"
    and "wanted (tsDesired s) = {#}"
proof -
  let ?ports = "ExtractEndpointPorts pord (spDesired p)"
  obtain s1 where t: "trimSlices X ?ports (spCurrent p) (start_state p h) = (Ok (), s1)"
    and i: "refs_inv h (spCurrent p) s1" "keys_inv (index_by epIP (spDesired p)) s1"
      "full_inv X ?ports B {} s1"
    and "fset (fmdom (tsDesired s1)) = epIP ` set (spDesired p) - set (keys_at h (spCurrent p))"
    by (rule trimmed [OF X ready within])
  obtain s where l: "add_loop p ord ?ports s1 = Some s" "refs_inv h (spCurrent p) s"
    "keys_inv (index_by epIP (spDesired p)) s" "full_inv X ?ports B {} s" "fmdom (tsDesired s) = {||}"
    by (rule add_loop_spec [OF X ord max B i])
  show thesis
    by (rule that [of s]) (use t l in \<open>simp_all add: CalculateSliceChanges_def start_state_def\<close>)
qed

lemma size_bound:
  obtains B where "getMaxEndpointsPerSlice p \<le> B" and "slices_within B h (spCurrent p)"
proof (rule that)
  let ?B = "max (getMaxEndpointsPerSlice p)
    (Max (insert 0 ((\<lambda>r. int (length (esEndpoints (h ! r)))) ` set (spCurrent p))))"
  show "getMaxEndpointsPerSlice p \<le> ?B" by simp
  show "slices_within ?B h (spCurrent p)" by (auto simp: slices_within_def le_max_iff_disj)
qed

text \<open>
  C1: with distinct, well-formed current slices and room for at least one endpoint per slice, the
  plan returns; the slices it leaves live hold exactly the desired addresses, each once; every
  current slice is in exactly one of the update, delete and unmodified lists, the created slices are
  new, and only the slices to update are written, never their metadata.
\<close>

theorem slice_plan_correct:
  assumes "diff_is_multiset_equality X" and "is_range_order ord" and "plan_ready p h"
    and "1 \<le> getMaxEndpointsPerSlice p"
  shows "\<exists>c h'. CalculateSliceChanges X pord ord p h = Some (Ok c, h')
    \<and> mset (keys_at h' (live c)) = desired_ips p
    \<and> mset (scUpdate c @ scDelete c @ scUnmodified c) = mset (spCurrent p)
    \<and> scCreate c = [length h..<length h']
    \<and> (\<forall>r < length h. r \<notin> set (scUpdate c) \<longrightarrow> h' ! r = h ! r)
    \<and> (\<forall>r < length h. esMeta (h' ! r) = esMeta (h ! r))"
proof -
  obtain B where "getMaxEndpointsPerSlice p \<le> B" "slices_within B h (spCurrent p)"
    by (rule size_bound)
  then obtain s where
    "CalculateSliceChanges X pord ord p h = Some (Ok (tsChanges s), tsSlices s)"
    "refs_inv h (spCurrent p) s" "keys_inv (index_by epIP (spDesired p)) s" "wanted (tsDesired s) = {#}"
    using slice_plan_result [OF assms, of B pord] by blast
  then show ?thesis
    by (intro exI [of _ "tsChanges s"] exI [of _ "tsSlices s"])
      (auto simp: refs_inv_def keys_inv_def Let_def wanted_start)
qed

text \<open>
  C28: every slice left live has an endpoint, has the desired ports, and is not longer than the limit
  (or than the longest current slice, where one was already over the limit).
\<close>

theorem slice_plan_slices_full_and_bounded:
  assumes "diff_is_multiset_equality X" and "is_range_order ord" and "plan_ready p h"
    and "1 \<le> getMaxEndpointsPerSlice p" and "getMaxEndpointsPerSlice p \<le> B"
    and "slices_within B h (spCurrent p)"
    and "CalculateSliceChanges X pord ord p h = Some (Ok c, h')" and "r \<in> set (live c)"
  shows "esEndpoints (h' ! r) \<noteq> [] \<and> int (length (esEndpoints (h' ! r))) \<le> B
    \<and> has_ports X (ExtractEndpointPorts pord (spDesired p)) (h' ! r)"
proof -
  obtain s where r: "CalculateSliceChanges X pord ord p h = Some (Ok (tsChanges s), tsSlices s)"
    and "refs_inv h (spCurrent p) s" "keys_inv (index_by epIP (spDesired p)) s"
    and f: "full_inv X (ExtractEndpointPorts pord (spDesired p)) B {} s" and "wanted (tsDesired s) = {#}"
    by (rule slice_plan_result [OF assms(1-6), of pord])
  from r assms(7) have "c = tsChanges s" "h' = tsSlices s" by simp_all
  with f assms(8) show ?thesis by (simp add: full_inv_def)
qed

text \<open>
  C27: the plan runs for ever exactly when the limit is negative and some desired address is in no
  current slice; the limit 0 stands for 100, so a plan of the controller returns.
\<close>

theorem slice_plan_returns_iff:
  assumes X: "diff_is_multiset_equality X" and ord: "is_range_order ord" and ready: "plan_ready p h"
  shows "CalculateSliceChanges X pord ord p h = None \<longleftrightarrow>
    getMaxEndpointsPerSlice p < 1
    \<and> \<not> epIP ` set (spDesired p) \<subseteq> set (keys_at h (spCurrent p))"
proof -
  let ?ports = "ExtractEndpointPorts pord (spDesired p)"
  obtain B where B: "getMaxEndpointsPerSlice p \<le> B" and within: "slices_within B h (spCurrent p)"
    by (rule size_bound)
  show ?thesis
  proof (cases "1 \<le> getMaxEndpointsPerSlice p")
    case True
    then show ?thesis using slice_plan_result [OF X ord ready True B within, of pord] by fastforce
  next
    case False
    obtain s where t: "trimSlices X ?ports (spCurrent p) (start_state p h) = (Ok (), s)"
      and "refs_inv h (spCurrent p) s" "keys_inv (index_by epIP (spDesired p)) s" "full_inv X ?ports B {} s"
      and d: "fset (fmdom (tsDesired s)) = epIP ` set (spDesired p) - set (keys_at h (spCurrent p))"
      by (rule trimmed [OF X ready within])
    have c: "CalculateSliceChanges X pord ord p h =
        (case add_loop p ord ?ports s of Some s' \<Rightarrow> Some (Ok (tsChanges s'), tsSlices s') | None \<Rightarrow> None)"
      using t by (simp add: CalculateSliceChanges_def start_state_def)
    have e: "fmdom (tsDesired s) = {||} \<longleftrightarrow> epIP ` set (spDesired p) \<subseteq> set (keys_at h (spCurrent p))"
      using d by (metis Diff_eq_empty_iff bot_fset.rep_eq fset_inject)
    show ?thesis
    proof (cases "fmdom (tsDesired s) = {||}")
      case True
      then show ?thesis using c e by (simp add: add_loop.simps)
    next
      case ne: False
      then show ?thesis using c e False add_loop_diverges [of p s ord ?ports] by simp
    qed
  qed
qed


section \<open>A plan that changes nothing\<close>

definition slice_settled :: "ext \<Rightarrow> port list \<Rightarrow> endpoint_slice \<Rightarrow> bool" where
  "slice_settled X ports s \<longleftrightarrow> esEndpoints s \<noteq> [] \<and> has_ports X ports s
     \<and> list_all (\<lambda>e. seAddresses e \<noteq> []) (esEndpoints s)"

lemma trimSlice_settled:
  assumes "r < length (tsSlices s)" and "slice_settled X ports (tsSlices s ! r)"
    and "mset (slice_keys (tsSlices s ! r)) \<subseteq># wanted (tsDesired s)"
  obtains desired where "trimSlice X ports r s = (Ok (), s\<lparr>tsDesired := desired,
      tsChanges := (tsChanges s)\<lparr>scUnmodified := scUnmodified (tsChanges s) @ [r]\<rparr>\<rparr>)"
    and "wanted (tsDesired s) = mset (slice_keys (tsSlices s ! r)) + wanted desired"
proof -
  let ?es = "esEndpoints (tsSlices s ! r)"
  have a: "list_all (\<lambda>e. seAddresses e \<noteq> []) ?es" "mset (map slice_addr ?es) \<subseteq># wanted (tsDesired s)"
    using assms(2,3) by (simp_all add: slice_settled_def slice_keys_def)
  obtain desired where d: "keep_desired ?es (tsDesired s) = (Ok ?es, desired)"
    "wanted (tsDesired s) = mset (map slice_addr ?es) + wanted desired"
    by (rule keep_all [OF a])
  obtain ps where "endpointPortSliceToPortSlice (esPorts (tsSlices s ! r)) = Ok ps"
    "PortsEqualIgnoreOrder X ports ps"
    using assms(2) by (auto simp: slice_settled_def has_ports_def split: outcome.splits)
  with d assms(1,2) show thesis
    by (intro that [of desired]) (simp_all add: trimSlice_def Let_def slice_settled_def slice_keys_def)
qed

lemma trimSlices_settled:
  assumes "\<forall>r \<in> set rs. r < length (tsSlices s) \<and> slice_settled X ports (tsSlices s ! r)"
    and "mset (keys_at (tsSlices s) rs) \<subseteq># wanted (tsDesired s)"
  shows "\<exists>desired. trimSlices X ports rs s = (Ok (), s\<lparr>tsDesired := desired,
      tsChanges := (tsChanges s)\<lparr>scUnmodified := scUnmodified (tsChanges s) @ rs\<rparr>\<rparr>)
    \<and> wanted (tsDesired s) = mset (keys_at (tsSlices s) rs) + wanted desired"
  using assms
proof (induction rs arbitrary: s)
  case Nil
  show ?case by (rule exI [of _ "tsDesired s"]) simp
next
  case (Cons r rs)
  have "mset (slice_keys (tsSlices s ! r)) \<subseteq># wanted (tsDesired s)"
    using Cons.prems(2) subset_mset.order_trans [OF mset_subset_eq_add_left] by simp
  with Cons.prems(1) obtain desired where d: "trimSlice X ports r s = (Ok (), s\<lparr>tsDesired := desired,
      tsChanges := (tsChanges s)\<lparr>scUnmodified := scUnmodified (tsChanges s) @ [r]\<rparr>\<rparr>)"
    "wanted (tsDesired s) = mset (slice_keys (tsSlices s ! r)) + wanted desired"
    by (auto intro: trimSlice_settled)
  let ?s = "s\<lparr>tsDesired := desired,
      tsChanges := (tsChanges s)\<lparr>scUnmodified := scUnmodified (tsChanges s) @ [r]\<rparr>\<rparr>"
  have "\<forall>r \<in> set rs. r < length (tsSlices ?s) \<and> slice_settled X ports (tsSlices ?s ! r)"
    using Cons.prems(1) by simp
  moreover have "mset (keys_at (tsSlices ?s) rs) \<subseteq># wanted (tsDesired ?s)"
    using Cons.prems(2) d(2) by simp
  ultimately obtain desired' where "trimSlices X ports rs ?s = (Ok (), ?s\<lparr>tsDesired := desired',
      tsChanges := (tsChanges ?s)\<lparr>scUnmodified := scUnmodified (tsChanges ?s) @ rs\<rparr>\<rparr>)"
    "wanted (tsDesired ?s) = mset (keys_at (tsSlices ?s) rs) + wanted desired'"
    using Cons.IH [of ?s] by blast
  with d show ?case by (intro exI [of _ desired']) (simp add: ac_simps)
qed

lemma settled_plan:
  assumes "\<forall>r \<in> set (spCurrent p). r < length h
      \<and> slice_settled X (ExtractEndpointPorts pord (spDesired p)) (h ! r)"
    and "mset (keys_at h (spCurrent p)) = desired_ips p"
  shows "CalculateSliceChanges X pord ord p h = Some (Ok (no_changes\<lparr>scUnmodified := spCurrent p\<rparr>), h)"
proof -
  let ?s = "start_state p h" and ?ports = "ExtractEndpointPorts pord (spDesired p)"
  have w: "wanted (tsDesired ?s) = desired_ips p" by (simp add: start_state_def wanted_start)
  then obtain desired where
    t: "trimSlices X ?ports (spCurrent p) ?s = (Ok (), ?s\<lparr>tsDesired := desired,
      tsChanges := (tsChanges ?s)\<lparr>scUnmodified := scUnmodified (tsChanges ?s) @ spCurrent p\<rparr>\<rparr>)"
    and "wanted (tsDesired ?s) = mset (keys_at (tsSlices ?s) (spCurrent p)) + wanted desired"
    using trimSlices_settled [of "spCurrent p" ?s X ?ports] assms by (auto simp: start_state_def)
  with assms(2) w have "wanted desired = {#}" by (simp add: start_state_def)
  then have "fmdom desired = {||}"
    by (metis bot_fset.rep_eq finite_fset fset_inject mset_set_empty_iff)
  with t show ?thesis
    by (simp add: CalculateSliceChanges_def start_state_def add_loop.simps no_changes_def)
qed

text \<open>
  Current slices that hold the desired addresses and ports are left as they are, whatever
  readiness, host name and node the desired endpoints carry: a change of those is not planned.
\<close>

theorem slice_plan_compares_addresses_and_ports_only:
  assumes "\<forall>r \<in> set (spCurrent p). r < length h
      \<and> slice_settled X (ExtractEndpointPorts pord (spDesired p)) (h ! r)"
    and "mset (keys_at h (spCurrent p)) = desired_ips p"
  shows "CalculateSliceChanges X pord ord p h = Some (Ok (no_changes\<lparr>scUnmodified := spCurrent p\<rparr>), h)"
  using assms by (rule settled_plan)

text \<open>
  C24: planning again on the slices that a plan leaves live, listed in any order, changes nothing.
\<close>

theorem slice_plan_converges:
  assumes X: "diff_is_multiset_equality X" and ord: "is_range_order ord" and ready: "plan_ready p h"
    and max: "1 \<le> getMaxEndpointsPerSlice p"
    and plan: "CalculateSliceChanges X pord ord p h = Some (Ok c, h')"
    and again: "mset cur = mset (live c)"
  shows "CalculateSliceChanges X pord ord' (p\<lparr>spCurrent := cur\<rparr>) h'
    = Some (Ok (no_changes\<lparr>scUnmodified := cur\<rparr>), h')"
proof -
  obtain B where B: "getMaxEndpointsPerSlice p \<le> B" "slices_within B h (spCurrent p)"
    by (rule size_bound)
  obtain s where r: "CalculateSliceChanges X pord ord p h = Some (Ok (tsChanges s), tsSlices s)"
    and refs: "refs_inv h (spCurrent p) s" and keys: "keys_inv (index_by epIP (spDesired p)) s"
    and f: "full_inv X (ExtractEndpointPorts pord (spDesired p)) B {} s"
    and none: "wanted (tsDesired s) = {#}"
    by (rule slice_plan_result [OF X ord ready max B, of pord])
  from r plan have s: "c = tsChanges s" "h' = tsSlices s" by simp_all
  from again have cur: "set cur = set (live c)" by (metis mset_eq_setD)
  have "\<forall>r \<in> set cur. r < length h' \<and> slice_settled X (ExtractEndpointPorts pord (spDesired p)) (h' ! r)"
    using f refs_inv_lists(2) [OF refs] by (simp add: cur s full_inv_def slice_settled_def)
  moreover have "mset (keys_at h' cur) = mset (keys_at h' (live c))"
  proof -
    have "mset (keys_at h' rs) = sum_mset (image_mset (\<lambda>r. mset (slice_keys (h' ! r))) (mset rs))" for rs
      by (induction rs) simp_all
    with again show ?thesis by simp
  qed
  then have "mset (keys_at h' cur) = desired_ips p"
    using keys none by (simp add: keys_inv_def s wanted_start)
  ultimately show ?thesis using settled_plan [of "p\<lparr>spCurrent := cur\<rparr>" h' X pord ord'] by simp
qed

section \<open>An example\<close>

text \<open>One slice that holds 10.0.0.1, reported not ready; \<open>ips\<close> are the desired addresses, all ready.\<close>

definition example_svc :: k8s_service where
  "example_svc = \<lparr>svMeta = zero_meta\<lparr>omName := ''imported-0123456789'', omNamespace := ''default''\<rparr>,
     svApiVersion = '''', svKind = '''', svType = ''ClusterIP'', svClusterIP = ''10.1.0.1'', svPorts = []\<rparr>"

definition example_slices :: slices where
  "example_slices = [\<lparr>esMeta = zero_meta\<lparr>omName := ''s''\<rparr>, esAddressType = AddressTypeIPv4,
     esEndpoints = [(CreateEndpointForSlice example_svc (example_endpoint ''10.0.0.1'' ''c1''))
       \<lparr>seReady := Some False\<rparr>],
     esPorts = [PortToEndpointPort (example_port ''http'' 80)]\<rparr>]"

definition example_slice_plan :: "int \<Rightarrow> string list \<Rightarrow> slice_plan" where
  "example_slice_plan n ips = \<lparr>maxEndpointsPerSlice = n, spService = example_svc,
     spServiceImportName = ''web'', spCurrent = [0],
     spDesired = map (\<lambda>ip. example_endpoint ip ''c1'') ips, spClusterId = ''c1''\<rparr>"

lemma example_ready: "plan_ready (example_slice_plan n ips) example_slices"
  by (simp add: plan_ready_def example_slice_plan_def example_slices_def well_addressed_def
      CreateEndpointForSlice_def PortToEndpointPort_def EndpointPortToPort_def)

lemma example_max: "getMaxEndpointsPerSlice (example_slice_plan 0 ips) = 100"
  by (simp add: getMaxEndpointsPerSlice_def example_slice_plan_def defaultMaxEndpointsPerSlice_def)

lemma example_keys: "slice_keys (example_slices ! 0) = [''10.0.0.1'']"
  by (simp add: example_slices_def slice_keys_def slice_addr_def CreateEndpointForSlice_def
      example_endpoint_def)

lemma example_desired: "epIP ` set (spDesired (example_slice_plan n ips)) = set ips"
  by (simp add: example_slice_plan_def example_endpoint_def image_image)

lemma example_within: "slices_within 100 example_slices (spCurrent (example_slice_plan n ips))"
  by (simp add: slices_within_def example_slice_plan_def example_slices_def)

lemma slice_plan_correct_witness:
  "\<exists>c h'. CalculateSliceChanges example_ext sorted_order sorted_order
        (example_slice_plan 0 [''10.0.0.1'', ''10.0.0.2'']) example_slices = Some (Ok c, h')
    \<and> mset (keys_at h' (live c)) = {#''10.0.0.1'', ''10.0.0.2''#}"
  using slice_plan_correct [OF example_ext_diff sorted_order_is_range_order
      example_ready [of 0 "[''10.0.0.1'', ''10.0.0.2'']"], of sorted_order]
  by (auto simp: example_max example_desired)

lemma slice_plan_slices_full_and_bounded_witness:
  "\<exists>c h'. CalculateSliceChanges example_ext sorted_order sorted_order
        (example_slice_plan 0 [''10.0.0.1'', ''10.0.0.2'']) example_slices = Some (Ok c, h')
    \<and> live c \<noteq> []
    \<and> (\<forall>r \<in> set (live c). esEndpoints (h' ! r) \<noteq> [] \<and> int (length (esEndpoints (h' ! r))) \<le> 100)"
proof -
  let ?p = "example_slice_plan 0 [''10.0.0.1'', ''10.0.0.2'']"
  have B: "1 \<le> getMaxEndpointsPerSlice ?p" "getMaxEndpointsPerSlice ?p \<le> 100" by (simp_all add: example_max)
  note prems = example_ext_diff sorted_order_is_range_order example_ready [of 0 "[''10.0.0.1'', ''10.0.0.2'']"]
  obtain s where s: "CalculateSliceChanges example_ext sorted_order sorted_order ?p example_slices
      = Some (Ok (tsChanges s), tsSlices s)" "wanted (tsDesired s) = {#}"
    and k: "keys_inv (index_by epIP (spDesired ?p)) s"
    by (rule slice_plan_result [OF prems B example_within, of sorted_order])
  have "mset (keys_at (tsSlices s) (live (tsChanges s))) = {#''10.0.0.1'', ''10.0.0.2''#}"
    using k s(2) by (simp add: keys_inv_def wanted_start example_desired)
  then have "live (tsChanges s) \<noteq> []" by auto
  with slice_plan_slices_full_and_bounded [OF prems B example_within s(1)] s(1) show ?thesis by blast
qed

lemma slice_plan_returns_iff_witness:
  "CalculateSliceChanges example_ext sorted_order sorted_order
     (example_slice_plan (-1) [''10.0.0.1'', ''10.0.0.2'']) example_slices = None
   \<and> CalculateSliceChanges example_ext sorted_order sorted_order
     (example_slice_plan 0 [''10.0.0.1'', ''10.0.0.2'']) example_slices \<noteq> None"
proof -
  have "spCurrent (example_slice_plan n ips) = [0]" for n ips by (simp add: example_slice_plan_def)
  moreover have "getMaxEndpointsPerSlice (example_slice_plan (-1) ips) = -1" for ips
    by (simp add: getMaxEndpointsPerSlice_def example_slice_plan_def)
  ultimately show ?thesis
    using slice_plan_returns_iff [OF example_ext_diff sorted_order_is_range_order example_ready]
    by (simp add: example_desired example_max example_keys)
qed

lemma slice_plan_compares_addresses_and_ports_only_witness:
  "map seReady (esEndpoints (example_slices ! 0)) = [Some False]
   \<and> map epReady (spDesired (example_slice_plan 0 [''10.0.0.1''])) = [True]
   \<and> CalculateSliceChanges example_ext sorted_order sorted_order
       (example_slice_plan 0 [''10.0.0.1'']) example_slices
     = Some (Ok (no_changes\<lparr>scUnmodified := [0]\<rparr>), example_slices)"
proof -
  let ?p = "example_slice_plan 0 [''10.0.0.1'']"
  have cur: "spCurrent ?p = [0]" by (simp add: example_slice_plan_def)
  have des: "spDesired ?p = [example_endpoint ''10.0.0.1'' ''c1'']" by (simp add: example_slice_plan_def)
  have ep: "epEndpointPort (example_endpoint ip c) = example_port ''http'' 80" for ip c
    by (simp add: example_endpoint_def)
  have ports: "ExtractEndpointPorts sorted_order (spDesired ?p) = [example_port ''http'' 80]"
    by (simp add: ExtractEndpointPorts_def des ep map_values_def map_entries_def index_by_def sorted_order_def)
  have "slice_settled example_ext [example_port ''http'' 80] (example_slices ! 0)"
    by (simp add: slice_settled_def has_ports_def example_slices_def CreateEndpointForSlice_def
        PortToEndpointPort_def EndpointPortToPort_def PortsEqual_iff [OF example_ext_diff] example_port_def)
  moreover have "0 < length example_slices" by (simp add: example_slices_def)
  ultimately have "CalculateSliceChanges example_ext sorted_order sorted_order ?p example_slices
     = Some (Ok (no_changes\<lparr>scUnmodified := spCurrent ?p\<rparr>), example_slices)"
    by (intro slice_plan_compares_addresses_and_ports_only)
      (simp_all add: cur ports example_keys example_desired)
  then show ?thesis by (simp add: cur des example_slices_def) (simp add: example_endpoint_def)
qed

lemma slice_plan_converges_witness:
  "\<exists>c h'. CalculateSliceChanges example_ext sorted_order sorted_order
        (example_slice_plan 0 [''10.0.0.1'', ''10.0.0.2'']) example_slices = Some (Ok c, h')
    \<and> CalculateSliceChanges example_ext sorted_order sorted_order
        ((example_slice_plan 0 [''10.0.0.1'', ''10.0.0.2''])\<lparr>spCurrent := rev (live c)\<rparr>) h'
      = Some (Ok (no_changes\<lparr>scUnmodified := rev (live c)\<rparr>), h')"
proof -
  let ?p = "example_slice_plan 0 [''10.0.0.1'', ''10.0.0.2'']"
  have B: "1 \<le> getMaxEndpointsPerSlice ?p" "getMaxEndpointsPerSlice ?p \<le> 100" by (simp_all add: example_max)
  note prems = example_ext_diff sorted_order_is_range_order example_ready [of 0 "[''10.0.0.1'', ''10.0.0.2'']"]
  obtain s where s: "CalculateSliceChanges example_ext sorted_order sorted_order ?p example_slices
      = Some (Ok (tsChanges s), tsSlices s)"
    and "keys_inv (index_by epIP (spDesired ?p)) s"
    by (rule slice_plan_result [OF prems B example_within, of sorted_order])
  then show ?thesis
    using slice_plan_converges [OF prems B(1) s, of "rev (live (tsChanges s))"] by simp
qed

end
