(* ===== verification/OperationPoller.thy ===== *)
theory OperationPoller
  imports CommonPkg
begin

text \<open>
  \<open>pkg/cloudmap/operation_poller.go\<close>: polling the asynchronous operations of Cloud Map. \<open>Poll\<close> is
  a function; \<open>Submit\<close> and \<open>Await\<close> start goroutines, so a run of the poller is a transition system:
  the thread that submits and then receives from the channel, the goroutine that waits for the
  WaitGroup and closes the channel, and one goroutine for each submitted operation. \<open>pstep\<close> makes the
  steps executable and \<open>run_poller\<close> runs them under a schedule.

  A \<open>'w\<close> is the state of everything outside: the Cloud Map API is a function on it. Time is a number
  of polls: \<open>wait.Poll\<close> calls its condition once in each interval until the timeout, so all its
  behaviours are those with some bound on the number of calls.
\<close>

section \<open>Polling one operation\<close>

record operation =
  opStatus :: string
  opErrorMessage :: "string option"
  opTargets :: "(string, string) fmap"

definition OperationStatusSuccess :: string where "OperationStatusSuccess = ''SUCCESS''"
definition OperationStatusFail :: string where "OperationStatusFail = ''FAIL''"

definition operationPollTimoutErrorMessage :: string where
  "operationPollTimoutErrorMessage = ''timed out while polling operations''"

definition aws_ToString :: "string option \<Rightarrow> string" where
  "aws_ToString v = (case v of None \<Rightarrow> '''' | Some s \<Rightarrow> s)"

text \<open>
  \<open>sdApi.GetOperation\<close> answers a pointer to an operation. \<open>poll_condition\<close> is the function that
  \<open>wait.Poll\<close> is given: \<open>Ok None\<close> when it answers \<open>false, nil\<close>, that is, not done yet.
\<close>

type_synonym 'w get_operation = "string \<Rightarrow> 'w \<Rightarrow> operation option outcome \<times> 'w"

definition poll_condition :: "'w get_operation \<Rightarrow> string \<Rightarrow> 'w \<Rightarrow> operation option outcome \<times> 'w" where
  "poll_condition get_op opId w =
     (case get_op opId w of
        (Ok (Some op), w') \<Rightarrow>
          (if opStatus op = OperationStatusSuccess then (Ok (Some op), w')
           else if opStatus op = OperationStatusFail
           then (Err (ErrText (''operation failed, opId: '' @ opId @ '', reason: '' @ aws_ToString (opErrorMessage op))), w')
           else (Ok None, w'))
      | (Ok None, w') \<Rightarrow> (Panic, w')
      | (Err e, w') \<Rightarrow> (Err e, w')
      | (Panic, w') \<Rightarrow> (Panic, w'))"

definition poll_timeout :: "string \<Rightarrow> goerror" where
  "poll_timeout opId = ErrText (operationPollTimoutErrorMessage @ '', opId: '' @ opId)"

fun Poll :: "'w get_operation \<Rightarrow> nat \<Rightarrow> string \<Rightarrow> 'w \<Rightarrow> operation outcome \<times> 'w" where
  "Poll get_op 0 opId w = (Err (poll_timeout opId), w)"
| "Poll get_op (Suc n) opId w =
     (case poll_condition get_op opId w of
        (Ok (Some op), w') \<Rightarrow> (Ok op, w')
      | (Ok None, w') \<Rightarrow> Poll get_op n opId w'
      | (Err e, w') \<Rightarrow> (Err e, w')
      | (Panic, w') \<Rightarrow> (Panic, w'))"

section \<open>The goroutines\<close>

text \<open>
  One submitted operation: not started, polling (with the number of polls that are left), blocked on
  sending its result, sent but before the deferred \<open>Done\<close>, and returned.
\<close>

datatype routine =
    RStart
  | RPoll string nat
  | RSend string "goerror option"
  | RSent string "goerror option"
  | RExit string "goerror option"

datatype main_pc = MSubmitting | MReceiving | MReturned

record 'w poller_env =
  peProviders :: "('w \<Rightarrow> string outcome \<times> 'w) list"
  peGetOperation :: "'w get_operation"
  pePolls :: "nat \<Rightarrow> nat"

record 'w poller =
  plWorld :: 'w
  plMain :: main_pc
  plRoutines :: "routine list"
  plWaitGroup :: int
  plClosed :: bool
  plReceived :: "(string \<times> goerror option) list"
  plPanic :: bool

definition poller_init :: "'w \<Rightarrow> 'w poller" where
  "poller_init w = \<lparr>plWorld = w, plMain = MSubmitting, plRoutines = [], plWaitGroup = 0,
     plClosed = False, plReceived = [], plPanic = False\<rparr>"

datatype thread = Main | Closer | Routine nat

abbreviation set_routine :: "nat \<Rightarrow> routine \<Rightarrow> 'w poller \<Rightarrow> 'w poller" where
  "set_routine i r s \<equiv> s\<lparr>plRoutines := (plRoutines s)[i := r]\<rparr>"

text \<open>
  The steps. \<open>submit\<close> is a call of \<open>Submit\<close>, \<open>await\<close> the start of \<open>Await\<close>, \<open>return\<close> the end of its loop over
  the closed channel; \<open>close\<close> is the goroutine of \<open>Await\<close>. A send on the unbuffered channel needs the
  receiver; a send on a closed channel panics.
\<close>

inductive poller_step :: "'w poller_env \<Rightarrow> thread \<Rightarrow> 'w poller \<Rightarrow> 'w poller \<Rightarrow> bool" for E where
  submit: "\<lbrakk>\<not> plPanic s; plMain s = MSubmitting; length (plRoutines s) < length (peProviders E)\<rbrakk>
    \<Longrightarrow> poller_step E Main s (s\<lparr>plWaitGroup := plWaitGroup s + 1, plRoutines := plRoutines s @ [RStart]\<rparr>)"
| await: "\<lbrakk>\<not> plPanic s; plMain s = MSubmitting; length (peProviders E) \<le> length (plRoutines s)\<rbrakk>
    \<Longrightarrow> poller_step E Main s (s\<lparr>plMain := MReceiving\<rparr>)"
| return: "\<lbrakk>\<not> plPanic s; plMain s = MReceiving; plClosed s\<rbrakk>
    \<Longrightarrow> poller_step E Main s (s\<lparr>plMain := MReturned\<rparr>)"
| close: "\<lbrakk>\<not> plPanic s; plMain s \<noteq> MSubmitting; plWaitGroup s = 0; \<not> plClosed s\<rbrakk>
    \<Longrightarrow> poller_step E Closer s (s\<lparr>plClosed := True\<rparr>)"
| call_ok: "\<lbrakk>\<not> plPanic s; i < length (plRoutines s); plRoutines s ! i = RStart;
      (peProviders E ! i) (plWorld s) = (Ok opId, w)\<rbrakk>
    \<Longrightarrow> poller_step E (Routine i) s ((set_routine i (RPoll opId (pePolls E i)) s)\<lparr>plWorld := w\<rparr>)"
| call_err: "\<lbrakk>\<not> plPanic s; i < length (plRoutines s); plRoutines s ! i = RStart;
      (peProviders E ! i) (plWorld s) = (Err e, w)\<rbrakk>
    \<Longrightarrow> poller_step E (Routine i) s ((set_routine i (RSend '''' (Some e)) s)\<lparr>plWorld := w\<rparr>)"
| call_panic: "\<lbrakk>\<not> plPanic s; i < length (plRoutines s); plRoutines s ! i = RStart;
      (peProviders E ! i) (plWorld s) = (Panic, w)\<rbrakk>
    \<Longrightarrow> poller_step E (Routine i) s (s\<lparr>plWorld := w, plPanic := True\<rparr>)"
| poll_done: "\<lbrakk>\<not> plPanic s; i < length (plRoutines s); plRoutines s ! i = RPoll opId (Suc n);
      poll_condition (peGetOperation E) opId (plWorld s) = (Ok (Some op), w)\<rbrakk>
    \<Longrightarrow> poller_step E (Routine i) s ((set_routine i (RSend opId None) s)\<lparr>plWorld := w\<rparr>)"
| poll_again: "\<lbrakk>\<not> plPanic s; i < length (plRoutines s); plRoutines s ! i = RPoll opId (Suc n);
      poll_condition (peGetOperation E) opId (plWorld s) = (Ok None, w)\<rbrakk>
    \<Longrightarrow> poller_step E (Routine i) s ((set_routine i (RPoll opId n) s)\<lparr>plWorld := w\<rparr>)"
| poll_err: "\<lbrakk>\<not> plPanic s; i < length (plRoutines s); plRoutines s ! i = RPoll opId (Suc n);
      poll_condition (peGetOperation E) opId (plWorld s) = (Err e, w)\<rbrakk>
    \<Longrightarrow> poller_step E (Routine i) s ((set_routine i (RSend opId (Some e)) s)\<lparr>plWorld := w\<rparr>)"
| poll_panic: "\<lbrakk>\<not> plPanic s; i < length (plRoutines s); plRoutines s ! i = RPoll opId (Suc n);
      poll_condition (peGetOperation E) opId (plWorld s) = (Panic, w)\<rbrakk>
    \<Longrightarrow> poller_step E (Routine i) s (s\<lparr>plWorld := w, plPanic := True\<rparr>)"
| poll_timeout: "\<lbrakk>\<not> plPanic s; i < length (plRoutines s); plRoutines s ! i = RPoll opId 0\<rbrakk>
    \<Longrightarrow> poller_step E (Routine i) s (set_routine i (RSend opId (Some (poll_timeout opId))) s)"
| send: "\<lbrakk>\<not> plPanic s; i < length (plRoutines s); plRoutines s ! i = RSend opId r;
      plMain s = MReceiving; \<not> plClosed s\<rbrakk>
    \<Longrightarrow> poller_step E (Routine i) s
          ((set_routine i (RSent opId r) s)\<lparr>plReceived := plReceived s @ [(opId, r)]\<rparr>)"
| send_closed: "\<lbrakk>\<not> plPanic s; i < length (plRoutines s); plRoutines s ! i = RSend opId r; plClosed s\<rbrakk>
    \<Longrightarrow> poller_step E (Routine i) s (s\<lparr>plPanic := True\<rparr>)"
| finish: "\<lbrakk>\<not> plPanic s; i < length (plRoutines s); plRoutines s ! i = RSent opId r\<rbrakk>
    \<Longrightarrow> poller_step E (Routine i) s ((set_routine i (RExit opId r) s)
          \<lparr>plWaitGroup := plWaitGroup s - 1, plPanic := plWaitGroup s \<le> 0\<rparr>)"

text \<open>What \<open>Await\<close> returns: the received errors wrapped into one, in the order they came.\<close>

definition await_result :: "'w poller \<Rightarrow> unit outcome" where
  "await_result s =
     (if plPanic s then Panic
      else case wrap_all None (map snd (plReceived s)) of None \<Rightarrow> Ok () | Some e \<Rightarrow> Err e)"

section \<open>Running the goroutines\<close>

definition routine_step :: "'w poller_env \<Rightarrow> nat \<Rightarrow> 'w poller \<Rightarrow> 'w poller option" where
  "routine_step E i s =
     (if length (plRoutines s) \<le> i then None
      else case plRoutines s ! i of
        RStart \<Rightarrow>
          (case (peProviders E ! i) (plWorld s) of
             (Ok opId, w) \<Rightarrow> Some ((set_routine i (RPoll opId (pePolls E i)) s)\<lparr>plWorld := w\<rparr>)
           | (Err e, w) \<Rightarrow> Some ((set_routine i (RSend '''' (Some e)) s)\<lparr>plWorld := w\<rparr>)
           | (Panic, w) \<Rightarrow> Some (s\<lparr>plWorld := w, plPanic := True\<rparr>))
      | RPoll opId 0 \<Rightarrow> Some (set_routine i (RSend opId (Some (poll_timeout opId))) s)
      | RPoll opId (Suc n) \<Rightarrow>
          (case poll_condition (peGetOperation E) opId (plWorld s) of
             (Ok (Some op), w) \<Rightarrow> Some ((set_routine i (RSend opId None) s)\<lparr>plWorld := w\<rparr>)
           | (Ok None, w) \<Rightarrow> Some ((set_routine i (RPoll opId n) s)\<lparr>plWorld := w\<rparr>)
           | (Err e, w) \<Rightarrow> Some ((set_routine i (RSend opId (Some e)) s)\<lparr>plWorld := w\<rparr>)
           | (Panic, w) \<Rightarrow> Some (s\<lparr>plWorld := w, plPanic := True\<rparr>))
      | RSend opId r \<Rightarrow>
          (if plClosed s then Some (s\<lparr>plPanic := True\<rparr>)
           else if plMain s = MReceiving
           then Some ((set_routine i (RSent opId r) s)\<lparr>plReceived := plReceived s @ [(opId, r)]\<rparr>)
           else None)
      | RSent opId r \<Rightarrow>
          Some ((set_routine i (RExit opId r) s)
            \<lparr>plWaitGroup := plWaitGroup s - 1, plPanic := plWaitGroup s \<le> 0\<rparr>)
      | RExit opId r \<Rightarrow> None)"

fun pstep :: "'w poller_env \<Rightarrow> thread \<Rightarrow> 'w poller \<Rightarrow> 'w poller option" where
  "pstep E Main s =
     (if plPanic s then None
      else case plMain s of
        MSubmitting \<Rightarrow>
          (if length (plRoutines s) < length (peProviders E)
           then Some (s\<lparr>plWaitGroup := plWaitGroup s + 1, plRoutines := plRoutines s @ [RStart]\<rparr>)
           else Some (s\<lparr>plMain := MReceiving\<rparr>))
      | MReceiving \<Rightarrow> (if plClosed s then Some (s\<lparr>plMain := MReturned\<rparr>) else None)
      | MReturned \<Rightarrow> None)"
| "pstep E Closer s =
     (if \<not> plPanic s \<and> plMain s \<noteq> MSubmitting \<and> plWaitGroup s = 0 \<and> \<not> plClosed s
      then Some (s\<lparr>plClosed := True\<rparr>) else None)"
| "pstep E (Routine i) s = (if plPanic s then None else routine_step E i s)"

lemma pstep_sound: "pstep E t s = Some s' \<Longrightarrow> poller_step E t s s'"
  by (cases t)
    (auto simp: routine_step_def split: if_splits main_pc.splits routine.splits nat.splits
       prod.splits outcome.splits option.splits intro: poller_step.intros)

lemma pstep_complete: "poller_step E t s s' \<Longrightarrow> pstep E t s = Some s'"
  by (cases rule: poller_step.cases, assumption) (simp_all add: routine_step_def)

section \<open>Sums over the goroutines\<close>

definition routines_sum :: "(nat \<Rightarrow> routine \<Rightarrow> 'a::comm_monoid_add) \<Rightarrow> routine list \<Rightarrow> 'a" where
  "routines_sum g rs = sum_list (map (\<lambda>(i, r). g i r) (enumerate 0 rs))"

lemma routines_sum_update:
  assumes "i < length rs"
  shows "routines_sum g (rs[i := r]) + g i (rs ! i) = routines_sum g rs + g i r"
proof -
  have "sum_list (map (\<lambda>(i, r). g i r) (enumerate n (rs[i := r]))) + g (n + i) (rs ! i)
      = sum_list (map (\<lambda>(i, r). g i r) (enumerate n rs)) + g (n + i) r" for n
    using assms
  proof (induction rs arbitrary: n i)
    case Nil
    then show ?case by simp
  next
    case (Cons r' rs)
    show ?case
    proof (cases i)
      case 0
      then show ?thesis by (simp add: ac_simps)
    next
      case (Suc j)
      with Cons.IH [of j "Suc n"] Cons.prems show ?thesis by (simp add: ac_simps)
    qed
  qed
  from this [of 0] show ?thesis by (simp add: routines_sum_def)
qed

lemma routines_sum_snoc [simp]: "routines_sum g (rs @ [r]) = routines_sum g rs + g (length rs) r"
  by (simp add: routines_sum_def enumerate_append_eq)

lemma routines_sum_Nil [simp]: "routines_sum g [] = 0"
  by (simp add: routines_sum_def)

section \<open>Every run ends\<close>

primrec routine_weight :: "nat \<Rightarrow> routine \<Rightarrow> nat" where
  "routine_weight polls RStart = polls + 4"
| "routine_weight polls (RPoll opId n) = n + 3"
| "routine_weight polls (RSend opId r) = 2"
| "routine_weight polls (RSent opId r) = 1"
| "routine_weight polls (RExit opId r) = 0"

definition main_weight :: "main_pc \<Rightarrow> nat" where
  "main_weight pc = (case pc of MSubmitting \<Rightarrow> 2 | MReceiving \<Rightarrow> 1 | MReturned \<Rightarrow> 0)"

definition poller_weight :: "'w poller_env \<Rightarrow> 'w poller \<Rightarrow> nat" where
  "poller_weight E s =
     routines_sum (\<lambda>i. routine_weight (pePolls E i)) (plRoutines s)
     + sum_list (map (\<lambda>i. pePolls E i + 5) [length (plRoutines s)..<length (peProviders E)])
     + main_weight (plMain s) + of_bool (\<not> plClosed s) + of_bool (\<not> plPanic s)"

lemma weight_update:
  assumes "i < length (plRoutines s)"
    and "routine_weight (pePolls E i) r < routine_weight (pePolls E i) (plRoutines s ! i)"
    and "plRoutines s' = (plRoutines s)[i := r]" and "plMain s' = plMain s" and "plClosed s' = plClosed s"
    and "\<not> plPanic s"
  shows "poller_weight E s' < poller_weight E s"
  using routines_sum_update [OF assms(1), of "\<lambda>i. routine_weight (pePolls E i)" r] assms(2-)
  by (cases "plPanic s'") (simp_all add: poller_weight_def)

lemma poller_step_decreases:
  "poller_step E t s s' \<Longrightarrow> poller_weight E s' < poller_weight E s"
proof (induction rule: poller_step.induct)
  case (submit s)
  then show ?case by (simp add: poller_weight_def upt_conv_Cons)
next
  case (call_ok s i opId w)
  then show ?case by (intro weight_update [of i s _ "RPoll opId (pePolls E i)"]) simp_all
next
  case (call_err s i e w)
  then show ?case by (intro weight_update [of i s _ "RSend '''' (Some e)"]) simp_all
next
  case (poll_done s i opId n op w)
  then show ?case by (intro weight_update [of i s _ "RSend opId None"]) simp_all
next
  case (poll_again s i opId n w)
  then show ?case by (intro weight_update [of i s _ "RPoll opId n"]) simp_all
next
  case (poll_err s i opId n e w)
  then show ?case by (intro weight_update [of i s _ "RSend opId (Some e)"]) simp_all
next
  case (poll_timeout s i opId)
  then show ?case by (intro weight_update [of i s _ "RSend opId (Some (poll_timeout opId))"]) simp_all
next
  case (send s i opId r)
  then show ?case by (intro weight_update [of i s _ "RSent opId r"]) simp_all
next
  case (finish s i opId r)
  then show ?case by (intro weight_update [of i s _ "RExit opId r"]) simp_all
qed (simp_all add: poller_weight_def main_weight_def)

section \<open>The invariant\<close>

primrec running :: "routine \<Rightarrow> bool" where
  "running RStart = True"
| "running (RPoll opId n) = True"
| "running (RSend opId r) = True"
| "running (RSent opId r) = True"
| "running (RExit opId r) = False"

primrec delivered :: "routine \<Rightarrow> (string \<times> goerror option) multiset" where
  "delivered RStart = {#}"
| "delivered (RPoll opId n) = {#}"
| "delivered (RSend opId r) = {#}"
| "delivered (RSent opId r) = {#(opId, r)#}"
| "delivered (RExit opId r) = {#(opId, r)#}"

definition api_never_panics :: "'w poller_env \<Rightarrow> bool" where
  "api_never_panics E \<longleftrightarrow>
     (\<forall>p \<in> set (peProviders E). \<forall>w. fst (p w) \<noteq> Panic)
     \<and> (\<forall>opId w. fst (poll_condition (peGetOperation E) opId w) \<noteq> Panic)"

definition poller_inv :: "'w poller_env \<Rightarrow> 'w poller \<Rightarrow> bool" where
  "poller_inv E s \<longleftrightarrow>
     \<not> plPanic s
     \<and> length (plRoutines s) \<le> length (peProviders E)
     \<and> (plMain s \<noteq> MSubmitting \<longrightarrow> length (plRoutines s) = length (peProviders E))
     \<and> plWaitGroup s = routines_sum (\<lambda>i r. of_bool (running r)) (plRoutines s)
     \<and> (plClosed s \<longrightarrow> plMain s \<noteq> MSubmitting \<and> (\<forall>r \<in> set (plRoutines s). \<not> running r))
     \<and> (plMain s = MReturned \<longrightarrow> plClosed s)
     \<and> mset (plReceived s) = routines_sum (\<lambda>i. delivered) (plRoutines s)"

lemma waitgroup_zero:
  "routines_sum (\<lambda>i r. of_bool (running r) :: int) rs = 0 \<longleftrightarrow> (\<forall>r \<in> set rs. \<not> running r)"
  "0 \<le> (routines_sum (\<lambda>i r. of_bool (running r) :: int) rs)"
proof (induction rs rule: rev_induct)
  case Nil
  { case 1 show ?case by simp }
  { case 2 show ?case by simp }
next
  case (snoc r rs)
  { case 1 show ?case using snoc.IH by (auto simp: add_nonneg_eq_0_iff) }
  { case 2 show ?case using snoc.IH by simp }
qed

lemma inv_update:
  assumes "poller_inv E s" and "i < length (plRoutines s)" and "running (plRoutines s ! i)" and "running r"
    and "delivered r = delivered (plRoutines s ! i)"
  shows "poller_inv E ((set_routine i r s)\<lparr>plWorld := w\<rparr>)"
proof -
  have "\<not> plClosed s" using assms(1-3) by (auto simp: poller_inv_def)
  then show ?thesis
    using assms routines_sum_update [OF assms(2), of "\<lambda>i r. of_bool (running r) :: int" r]
      routines_sum_update [OF assms(2), of "\<lambda>i. delivered" r]
    by (simp add: poller_inv_def)
qed

lemma poller_step_inv:
  assumes "api_never_panics E"
  shows "poller_step E t s s' \<Longrightarrow> poller_inv E s \<Longrightarrow> poller_inv E s'"
proof (induction rule: poller_step.induct)
  case (close s)
  then show ?case by (simp add: poller_inv_def waitgroup_zero)
next
  case (call_ok s i opId w)
  then show ?case by (intro inv_update) simp_all
next
  case (call_err s i e w)
  then show ?case by (intro inv_update) simp_all
next
  case (call_panic s i w)
  then have "peProviders E ! i \<in> set (peProviders E)" by (simp add: poller_inv_def)
  with assms call_panic show ?case unfolding api_never_panics_def by (metis fst_conv)
next
  case (poll_done s i opId n op w)
  then show ?case by (intro inv_update) simp_all
next
  case (poll_again s i opId n w)
  then show ?case by (intro inv_update) simp_all
next
  case (poll_err s i opId n e w)
  then show ?case by (intro inv_update) simp_all
next
  case (poll_panic s i opId n w)
  with assms show ?case unfolding api_never_panics_def by (metis fst_conv)
next
  case (poll_timeout s i opId)
  then show ?case using inv_update [of E s i "RSend opId (Some (poll_timeout opId))" "plWorld s"] by simp
next
  case (send s i opId r)
  then show ?case
    using routines_sum_update [OF send(2), of "\<lambda>i r. of_bool (running r) :: int" "RSent opId r"]
      routines_sum_update [OF send(2), of "\<lambda>i. delivered" "RSent opId r"]
    by (simp add: poller_inv_def)
next
  case (send_closed s i opId r)
  then show ?case by (metis nth_mem poller_inv_def running.simps(3))
next
  case (finish s i opId r)
  have "\<not> plClosed s" using finish by (metis nth_mem poller_inv_def running.simps(4))
  moreover have "plWaitGroup s \<noteq> 0"
    using finish by (metis nth_mem poller_inv_def running.simps(4) waitgroup_zero(1))
  moreover have "0 \<le> plWaitGroup s" using finish.prems by (simp add: poller_inv_def waitgroup_zero(2))
  ultimately show ?case
    using finish routines_sum_update [OF finish(2), of "\<lambda>i r. of_bool (running r) :: int" "RExit opId r"]
      routines_sum_update [OF finish(2), of "\<lambda>i. delivered" "RExit opId r"]
    by (simp add: poller_inv_def)
qed (simp_all add: poller_inv_def)

section \<open>Runs\<close>

inductive poller_run :: "'w poller_env \<Rightarrow> 'w \<Rightarrow> thread list \<Rightarrow> 'w poller \<Rightarrow> bool" for E w where
  start: "poller_run E w [] (poller_init w)"
| step: "\<lbrakk>poller_run E w ts s; poller_step E t s s'\<rbrakk> \<Longrightarrow> poller_run E w (ts @ [t]) s'"

inductive_cases poller_run_snocE: "poller_run E w (ts @ [t]) s"

lemma init_inv: "poller_inv E (poller_init w)"
  by (simp add: poller_inv_def poller_init_def)

lemma poller_run_inv:
  assumes "api_never_panics E"
  shows "poller_run E w ts s \<Longrightarrow> poller_inv E s"
  by (induction rule: poller_run.induct) (simp_all add: init_inv poller_step_inv [OF assms])

lemma poller_progress:
  assumes inv: "poller_inv E s" and "plMain s \<noteq> MReturned"
  shows "\<exists>t. pstep E t s \<noteq> None"
proof (cases "plMain s")
  case MSubmitting
  then have "pstep E Main s \<noteq> None" using inv by (simp add: poller_inv_def)
  then show ?thesis ..
next
  case MReturned
  with assms show ?thesis by simp
next
  case MReceiving
  consider "plClosed s" | "\<not> plClosed s" "plWaitGroup s = 0" | "\<not> plClosed s" "plWaitGroup s \<noteq> 0"
    by blast
  then show ?thesis
  proof cases
    case 1
    then have "pstep E Main s \<noteq> None" using inv MReceiving by (simp add: poller_inv_def)
    then show ?thesis ..
  next
    case 2
    then have "pstep E Closer s \<noteq> None" using inv MReceiving by (simp add: poller_inv_def)
    then show ?thesis ..
  next
    case 3
    with inv obtain r where r: "r \<in> set (plRoutines s)" "running r"
      by (auto simp: poller_inv_def waitgroup_zero)
    then obtain i where i: "i < length (plRoutines s)" "plRoutines s ! i = r"
      by (auto simp: in_set_conv_nth)
    have "routine_step E i s \<noteq> None"
      using r(2) i 3 MReceiving
      by (cases r) (auto simp: routine_step_def split: nat.splits prod.splits outcome.splits option.splits)
    with inv have "pstep E (Routine i) s \<noteq> None" by (simp add: poller_inv_def)
    then show ?thesis ..
  qed
qed

lemma poller_run_weight:
  "poller_run E w ts s \<Longrightarrow> length ts + poller_weight E s \<le> poller_weight E (poller_init w)"
proof (induction rule: poller_run.induct)
  case start
  show ?case by simp
next
  case (step ts s t s')
  then show ?case using poller_step_decreases [OF step.hyps(2)] by simp
qed

lemma poller_weight_init:
  "poller_weight E (poller_init w) = (\<Sum>i < length (peProviders E). pePolls E i + 5) + 4"
  by (simp add: poller_weight_def poller_init_def main_weight_def interv_sum_list_conv_sum_set_nat
      atLeast0LessThan)

definition poller_threads :: "'w poller_env \<Rightarrow> thread list" where
  "poller_threads E = Main # Closer # map Routine [0..<length (peProviders E)]"

text \<open>
  \<open>run_poller\<close> follows a schedule, skipping threads that cannot step, and when the schedule is used up
  lets the first thread that can step go on, until none can.
\<close>

function run_poller :: "'w poller_env \<Rightarrow> thread list \<Rightarrow> 'w poller \<Rightarrow> 'w poller" where
  "run_poller E (t # ts) s =
     (case pstep E t s of Some s' \<Rightarrow> run_poller E ts s' | None \<Rightarrow> run_poller E ts s)"
| "run_poller E [] s =
     (case List.map_filter (\<lambda>t. pstep E t s) (poller_threads E) of
        s' # _ \<Rightarrow> run_poller E [] s' | [] \<Rightarrow> s)"
  by pat_completeness auto

lemma map_filter_step:
  assumes "List.map_filter (\<lambda>t. pstep E t s) ts = s' # rest"
  obtains t where "pstep E t s = Some s'"
  using assms by (induction ts) (auto simp: List.map_filter_simps split: option.splits)

termination run_poller
proof (relation "measure (\<lambda>(E, ts, s). poller_weight E s + length ts)")
  show "wf (measure (\<lambda>(E :: 'a poller_env, ts :: thread list, s). poller_weight E s + length ts))"
    by simp
next
  fix E :: "'a poller_env" and t ts and s s' :: "'a poller"
  assume "pstep E t s = Some s'"
  then have "poller_weight E s' < poller_weight E s"
    by (intro poller_step_decreases pstep_sound)
  then show "((E, ts, s'), E, t # ts, s) \<in> measure (\<lambda>(E, ts, s). poller_weight E s + length ts)"
    by simp
next
  fix E :: "'a poller_env" and t ts and s :: "'a poller"
  show "((E, ts, s), E, t # ts, s) \<in> measure (\<lambda>(E, ts, s). poller_weight E s + length ts)"
    by simp
next
  fix E :: "'a poller_env" and s s' :: "'a poller" and rest
  assume "List.map_filter (\<lambda>t. pstep E t s) (poller_threads E) = s' # rest"
  then obtain t where "pstep E t s = Some s'" by (rule map_filter_step)
  then have "poller_weight E s' < poller_weight E s"
    by (intro poller_step_decreases pstep_sound)
  then show "((E, [], s'), E, [], s) \<in> measure (\<lambda>(E, ts, s). poller_weight E s + length ts)"
    by simp
qed

lemma run_poller_is_run:
  assumes "poller_run E w ts0 s"
  shows "\<exists>ts'. poller_run E w ts' (run_poller E ts s)"
  using assms
proof (induction E ts s arbitrary: ts0 rule: run_poller.induct)
  case (1 E t ts s)
  show ?case
  proof (cases "pstep E t s")
    case None
    with 1(1,3) show ?thesis by simp
  next
    case (Some s')
    with 1(3) have "poller_run E w (ts0 @ [t]) s'" by (intro poller_run.step pstep_sound)
    from 1(2) [OF Some this] Some show ?thesis by simp
  qed
next
  case (2 E s)
  show ?case
  proof (cases "List.map_filter (\<lambda>t. pstep E t s) (poller_threads E)")
    case Nil
    with 2(2) show ?thesis by auto
  next
    case (Cons s' rest)
    then obtain t where "pstep E t s = Some s'" by (rule map_filter_step)
    then have "poller_run E w (ts0 @ [t]) s'" by (intro poller_run.step [OF 2(2)] pstep_sound)
    from 2(1) [OF Cons this] Cons show ?thesis by simp
  qed
qed

lemma poller_thread_listed:
  assumes "poller_inv E s" and "pstep E t s = Some s'"
  shows "t \<in> set (poller_threads E)"
proof (cases t)
  case (Routine i)
  with assms have "i < length (plRoutines s)"
    by (auto simp: routine_step_def split: if_splits)
  with assms(1) Routine show ?thesis by (simp add: poller_threads_def poller_inv_def)
qed (simp_all add: poller_threads_def)

lemma run_poller_returns:
  assumes "api_never_panics E" and "poller_inv E s"
  shows "poller_inv E (run_poller E ts s) \<and> plMain (run_poller E ts s) = MReturned"
  using assms
proof (induction E ts s rule: run_poller.induct)
  case (1 E t ts s)
  show ?case
  proof (cases "pstep E t s")
    case None
    with 1 show ?thesis by simp
  next
    case (Some s')
    with 1(3,4) have "poller_inv E s'" by (blast intro: poller_step_inv pstep_sound)
    from 1(2) [OF Some 1(3) this] Some show ?thesis by simp
  qed
next
  case (2 E s)
  show ?case
  proof (cases "List.map_filter (\<lambda>t. pstep E t s) (poller_threads E)")
    case Nil
    have "plMain s = MReturned"
    proof (rule ccontr)
      assume "plMain s \<noteq> MReturned"
      then obtain t s' where t: "pstep E t s = Some s'" using poller_progress [OF 2(3)] by blast
      then have "s' \<in> set (List.map_filter (\<lambda>t. pstep E t s) (poller_threads E))"
        using poller_thread_listed [OF 2(3) t] by (force simp: List.map_filter_def)
      with Nil show False by simp
    qed
    with Nil 2(3) show ?thesis by simp
  next
    case (Cons s' rest)
    then obtain t where "pstep E t s = Some s'" by (rule map_filter_step)
    with 2(2,3) have "poller_inv E s'" by (blast intro: poller_step_inv pstep_sound)
    from 2(1) [OF Cons 2(2) this] Cons show ?thesis by simp
  qed
qed

lemma run_poller_follows:
  assumes api: "api_never_panics E"
  shows "poller_run E w ts s \<Longrightarrow> run_poller E (ts @ ts') (poller_init w) = run_poller E ts' s"
proof (induction arbitrary: ts' rule: poller_run.induct)
  case start
  show ?case by simp
next
  case (step ts s t s')
  from step.IH [of "t # ts'"] pstep_complete [OF step.hyps(2)] show ?case by simp
qed

lemma run_poller_at_end:
  assumes "poller_inv E s" and "plMain s = MReturned"
  shows "run_poller E [] s = s"
proof -
  have "pstep E t s = None" for t
  proof (cases t)
    case (Routine i)
    then show ?thesis
      using assms by (auto simp: poller_inv_def routine_step_def split: routine.splits)
        (metis nth_mem running.simps not_le)+
  qed (use assms in \<open>auto simp: poller_inv_def\<close>)
  then have "List.map_filter (\<lambda>t. pstep E t s) ts = []" for ts
    by (induction ts) (simp_all add: List.map_filter_simps)
  then show ?thesis by simp
qed

section \<open>What the client relies on\<close>

text \<open>\<open>Submit\<close> for every provider, then \<open>Await\<close>, under the schedule \<open>sched\<close>.\<close>

definition SubmitAndAwait :: "'w poller_env \<Rightarrow> thread list \<Rightarrow> 'w \<Rightarrow> unit outcome \<times> 'w" where
  "SubmitAndAwait E sched w =
     (let s = run_poller E sched (poller_init w) in (await_result s, plWorld s))"

lemma Poll_Ok:
  assumes "Poll get_op n opId w = (Ok op, w')"
  shows "opStatus op = OperationStatusSuccess \<and> (\<exists>w1. get_op opId w1 = (Ok (Some op), w'))"
  using assms
  by (induction n arbitrary: w)
    (auto simp: poll_condition_def split: prod.splits outcome.splits option.splits if_splits)

text \<open>
  How operations act on the world: \<open>pending i opId w\<close> says that operation \<open>i\<close> has been accepted with
  this id, \<open>applied i w\<close> that its effect is there. A provider that succeeds leaves its operation
  pending, a status of success means the effect is there, and neither is ever undone by a call.
\<close>

definition operation_effects ::
  "'w poller_env \<Rightarrow> (nat \<Rightarrow> string \<Rightarrow> 'w \<Rightarrow> bool) \<Rightarrow> (nat \<Rightarrow> 'w \<Rightarrow> bool) \<Rightarrow> bool" where
  "operation_effects E pending applied \<longleftrightarrow>
     (\<forall>i < length (peProviders E). \<forall>w opId w'. (peProviders E ! i) w = (Ok opId, w') \<longrightarrow> pending i opId w')
     \<and> (\<forall>i opId w op w'. pending i opId w
          \<longrightarrow> poll_condition (peGetOperation E) opId w = (Ok (Some op), w') \<longrightarrow> applied i w')
     \<and> (\<forall>p \<in> set (peProviders E). \<forall>w i opId. (pending i opId w \<longrightarrow> pending i opId (snd (p w)))
          \<and> (applied i w \<longrightarrow> applied i (snd (p w))))
     \<and> (\<forall>opId' w i opId. (pending i opId w \<longrightarrow> pending i opId (snd (poll_condition (peGetOperation E) opId' w)))
          \<and> (applied i w \<longrightarrow> applied i (snd (poll_condition (peGetOperation E) opId' w))))"

primrec routine_effect ::
  "(nat \<Rightarrow> string \<Rightarrow> 'w \<Rightarrow> bool) \<Rightarrow> (nat \<Rightarrow> 'w \<Rightarrow> bool) \<Rightarrow> nat \<Rightarrow> 'w \<Rightarrow> routine \<Rightarrow> bool" where
  "routine_effect pending applied i w RStart = True"
| "routine_effect pending applied i w (RPoll opId n) = pending i opId w"
| "routine_effect pending applied i w (RSend opId r) = (r = None \<longrightarrow> applied i w)"
| "routine_effect pending applied i w (RSent opId r) = (r = None \<longrightarrow> applied i w)"
| "routine_effect pending applied i w (RExit opId r) = (r = None \<longrightarrow> applied i w)"

definition effects_inv ::
  "(nat \<Rightarrow> string \<Rightarrow> 'w \<Rightarrow> bool) \<Rightarrow> (nat \<Rightarrow> 'w \<Rightarrow> bool) \<Rightarrow> 'w poller \<Rightarrow> bool" where
  "effects_inv pending applied s \<longleftrightarrow>
     (\<forall>i < length (plRoutines s). routine_effect pending applied i (plWorld s) (plRoutines s ! i))"

lemma effects_update:
  assumes "effects_inv pending applied s" and "i < length (plRoutines s)"
    and "\<And>j opId. pending j opId (plWorld s) \<Longrightarrow> pending j opId w"
    and "\<And>j. applied j (plWorld s) \<Longrightarrow> applied j w"
    and "routine_effect pending applied i w r"
  shows "effects_inv pending applied ((set_routine i r s)\<lparr>plWorld := w\<rparr>)"
  unfolding effects_inv_def
proof (intro allI impI)
  fix j
  assume j: "j < length (plRoutines ((set_routine i r s)\<lparr>plWorld := w\<rparr>))"
  have "routine_effect pending applied j w (plRoutines s ! j)"
    using assms(1,3,4) j by (cases "plRoutines s ! j") (auto simp: effects_inv_def)
  then show "routine_effect pending applied j (plWorld ((set_routine i r s)\<lparr>plWorld := w\<rparr>))
      (plRoutines ((set_routine i r s)\<lparr>plWorld := w\<rparr>) ! j)"
    using assms(2,5) by (cases "j = i") simp_all
qed

lemma effects_same_world:
  assumes "effects_inv pending applied s" and "i < length (plRoutines s)"
    and "routine_effect pending applied i (plWorld s) r"
    and "plRoutines s' = (plRoutines s)[i := r]" and "plWorld s' = plWorld s"
  shows "effects_inv pending applied s'"
  using effects_update [OF assms(1,2) _ _ assms(3)] assms(4,5) by (simp add: effects_inv_def)

lemma operation_effectsD:
  assumes "operation_effects E pending applied"
  shows "i < length (peProviders E) \<Longrightarrow> (peProviders E ! i) w = (Ok opId, w') \<Longrightarrow> pending i opId w'"
    and "pending i opId w \<Longrightarrow> poll_condition (peGetOperation E) opId w = (Ok (Some op), w') \<Longrightarrow> applied i w'"
    and "i < length (peProviders E) \<Longrightarrow> (peProviders E ! i) w = (r, w') \<Longrightarrow> pending j opId w \<Longrightarrow> pending j opId w'"
    and "i < length (peProviders E) \<Longrightarrow> (peProviders E ! i) w = (r, w') \<Longrightarrow> applied j w \<Longrightarrow> applied j w'"
    and "poll_condition (peGetOperation E) opId' w = (r', w') \<Longrightarrow> pending j opId w \<Longrightarrow> pending j opId w'"
    and "poll_condition (peGetOperation E) opId' w = (r', w') \<Longrightarrow> applied j w \<Longrightarrow> applied j w'"
  using assms nth_mem unfolding operation_effects_def by (blast | metis nth_mem snd_conv)+

lemma poller_step_effects:
  assumes E: "operation_effects E pending applied"
  shows "poller_step E t s s' \<Longrightarrow> length (plRoutines s) \<le> length (peProviders E)
    \<Longrightarrow> effects_inv pending applied s \<Longrightarrow> \<not> plPanic s' \<Longrightarrow> effects_inv pending applied s'"
proof (induction rule: poller_step.induct)
  case (submit s)
  then show ?case by (auto simp: effects_inv_def nth_append less_Suc_eq)
next
  case (call_ok s i opId w)
  then have i: "i < length (peProviders E)" by simp
  note eff = operation_effectsD(1,3,4) [OF E i call_ok(4)]
  show ?case
    by (rule effects_update [OF call_ok(6,2) eff(2,3)]) (simp_all add: eff(1))
next
  case (call_err s i e w)
  then have i: "i < length (peProviders E)" by simp
  show ?case
    by (rule effects_update [OF call_err(6,2) operation_effectsD(3,4) [OF E i call_err(4)]]) simp_all
next
  case (poll_done s i opId n op w)
  then have p: "pending i opId (plWorld s)" by (force simp: effects_inv_def)
  show ?case
    by (rule effects_update [OF poll_done(6,2) operation_effectsD(5,6) [OF E poll_done(4)]])
      (simp_all add: operation_effectsD(2) [OF E p poll_done(4)])
next
  case (poll_again s i opId n w)
  then have p: "pending i opId (plWorld s)" by (force simp: effects_inv_def)
  show ?case
    by (rule effects_update [OF poll_again(6,2) operation_effectsD(5,6) [OF E poll_again(4)]])
      (simp_all add: operation_effectsD(5) [OF E poll_again(4) p])
next
  case (poll_err s i opId n e w)
  show ?case
    by (rule effects_update [OF poll_err(6,2) operation_effectsD(5,6) [OF E poll_err(4)]]) simp_all
next
  case (poll_timeout s i opId)
  show ?case
    by (rule effects_same_world [OF poll_timeout(5,2), of "RSend opId (Some (poll_timeout opId))"]) simp_all
next
  case (send s i opId r)
  then have "routine_effect pending applied i (plWorld s) (RSent opId r)" by (force simp: effects_inv_def)
  from effects_same_world [OF send(7,2) this] show ?case by simp
next
  case (finish s i opId r)
  then have "routine_effect pending applied i (plWorld s) (RExit opId r)" by (force simp: effects_inv_def)
  from effects_same_world [OF finish(5,2) this] show ?case by simp
qed (simp_all add: effects_inv_def)


lemma poller_run_effects:
  assumes E: "operation_effects E pending applied" and api: "api_never_panics E"
  shows "poller_run E w ts s \<Longrightarrow> effects_inv pending applied s"
proof (induction rule: poller_run.induct)
  case start
  show ?case by (simp add: effects_inv_def poller_init_def)
next
  case (step ts s t s')
  have "poller_inv E s" "poller_inv E s'"
    using step.hyps poller_run_inv [OF api] poller_step_inv [OF api] by blast+
  then show ?case
    using poller_step_effects [OF E step.hyps(2)] step.IH by (simp add: poller_inv_def)
qed

lemma returned_results:
  assumes inv: "poller_inv E s" and ret: "plMain s = MReturned"
  shows "length (plReceived s) = length (peProviders E)"
    and "(\<forall>r \<in> set (plReceived s). snd r = None)
      \<longleftrightarrow> (\<forall>i < length (peProviders E). \<exists>opId. plRoutines s ! i = RExit opId None)"
proof -
  have len: "length (plRoutines s) = length (peProviders E)"
    and exited: "\<forall>r \<in> set (plRoutines s). \<not> running r"
    and recv: "mset (plReceived s) = routines_sum (\<lambda>i. delivered) (plRoutines s)"
    using inv ret by (auto simp: poller_inv_def)
  have "size (routines_sum (\<lambda>i. delivered) rs) = length rs
      \<and> ((\<forall>r \<in># routines_sum (\<lambda>i. delivered) rs. snd r = None)
        \<longleftrightarrow> (\<forall>r \<in> set rs. \<exists>opId. r = RExit opId None))" if "\<forall>r \<in> set rs. \<not> running r" for rs
    using that
  proof (induction rs rule: rev_induct)
    case Nil
    show ?case by simp
  next
    case (snoc r rs)
    then show ?case by (cases r) auto
  qed
  from this [OF exited] have sz: "size (mset (plReceived s)) = length (plRoutines s)"
    and all: "(\<forall>r \<in># mset (plReceived s). snd r = None) \<longleftrightarrow> (\<forall>r \<in> set (plRoutines s). \<exists>opId. r = RExit opId None)"
    by (simp_all add: recv)
  from sz len show "length (plReceived s) = length (peProviders E)" by simp
  from all len show "(\<forall>r \<in> set (plReceived s). snd r = None)
      \<longleftrightarrow> (\<forall>i < length (peProviders E). \<exists>opId. plRoutines s ! i = RExit opId None)"
    by (simp add: all_set_conv_all_nth)
qed

lemma await_result_Ok:
  assumes "poller_inv E s" and "plMain s = MReturned"
  shows "await_result s = Ok () \<longleftrightarrow>
    (\<forall>i < length (peProviders E). \<exists>opId. plRoutines s ! i = RExit opId None)"
proof -
  have "await_result s = Ok () \<longleftrightarrow> (\<forall>r \<in> set (plReceived s). snd r = None)"
    using assms(1) wrap_all_eq_None [of None "map snd (plReceived s)"]
    by (auto simp: poller_inv_def await_result_def split: option.split)
  then show ?thesis using returned_results(2) [OF assms] by simp
qed

lemma SubmitAndAwait_run:
  assumes "api_never_panics E"
  obtains ts s where "poller_run E w ts s" and "plMain s = MReturned" and "poller_inv E s"
    and "SubmitAndAwait E sched w = (await_result s, plWorld s)"
  using run_poller_is_run [OF poller_run.start, of E w sched]
    run_poller_returns [OF assms init_inv [of E w], of sched] by (auto simp: SubmitAndAwait_def Let_def)

lemma SubmitAndAwait_applied:
  assumes E: "operation_effects E pending applied" and api: "api_never_panics E"
    and ok: "SubmitAndAwait E sched w = (Ok (), w')" and i: "i < length (peProviders E)"
  shows "applied i w'"
proof -
  obtain ts s where s: "poller_run E w ts s" "plMain s = MReturned" "poller_inv E s"
    "SubmitAndAwait E sched w = (await_result s, plWorld s)"
    by (rule SubmitAndAwait_run [OF api])
  with ok have "await_result s = Ok ()" "w' = plWorld s" by simp_all
  with await_result_Ok [OF s(3,2)] i obtain opId where "plRoutines s ! i = RExit opId None" by blast
  moreover have "i < length (plRoutines s)" using s(2,3) i by (simp add: poller_inv_def)
  ultimately show ?thesis
    using poller_run_effects [OF E api s(1)] \<open>w' = plWorld s\<close> by (force simp: effects_inv_def)
qed

lemma poller_step_keeps:
  assumes "\<forall>p \<in> set (peProviders E). keeps P p" and "\<forall>opId. keeps P (poll_condition (peGetOperation E) opId)"
  shows "poller_step E t s s' \<Longrightarrow> length (plRoutines s) \<le> length (peProviders E) \<Longrightarrow> P (plWorld s) \<Longrightarrow> P (plWorld s')"
proof (induction rule: poller_step.induct)
  case (call_ok s i opId w)
  with assms(1) have "keeps P (peProviders E ! i)" by simp
  from keepsD [OF this _ call_ok(4)] call_ok show ?case by simp
next
  case (call_err s i e w)
  with assms(1) have "keeps P (peProviders E ! i)" by simp
  from keepsD [OF this _ call_err(4)] call_err show ?case by simp
next
  case (call_panic s i w)
  with assms(1) have "keeps P (peProviders E ! i)" by simp
  from keepsD [OF this _ call_panic(4)] call_panic show ?case by simp
next
  case (poll_done s i opId n op w)
  then show ?case using keepsD [OF assms(2) [rule_format] _ poll_done(4)] by simp
next
  case (poll_again s i opId n w)
  then show ?case using keepsD [OF assms(2) [rule_format] _ poll_again(4)] by simp
next
  case (poll_err s i opId n e w)
  then show ?case using keepsD [OF assms(2) [rule_format] _ poll_err(4)] by simp
next
  case (poll_panic s i opId n w)
  then show ?case using keepsD [OF assms(2) [rule_format] _ poll_panic(4)] by simp
qed simp_all

lemma keeps_SubmitAndAwait [keeps_rules]:
  assumes "api_never_panics E" and "\<forall>p \<in> set (peProviders E). keeps P p"
    and "\<forall>opId. keeps P (poll_condition (peGetOperation E) opId)"
  shows "keeps P (SubmitAndAwait E sched)"
proof (rule keepsI)
  fix w r w'
  assume "P w" and r: "SubmitAndAwait E sched w = (r, w')"
  obtain ts s where s: "poller_run E w ts s" "plMain s = MReturned" "poller_inv E s"
    "SubmitAndAwait E sched w = (await_result s, plWorld s)"
    by (rule SubmitAndAwait_run [OF assms(1)])
  have "poller_run E w ts s \<Longrightarrow> P (plWorld s)" for ts s
  proof (induction rule: poller_run.induct)
    case start
    then show ?case using \<open>P w\<close> by (simp add: poller_init_def)
  next
    case (step ts s t s')
    then show ?case
      using poller_step_keeps [OF assms(2,3) step.hyps(2)] poller_run_inv [OF assms(1) step.hyps(1)]
      by (simp add: poller_inv_def)
  qed
  with s r show "P w'" by simp
qed

section \<open>Properties\<close>

text \<open>
  C13: no interleaving of the goroutines of a poller closes the channel early, sends on it after it is
  closed or takes the WaitGroup below zero, and none is stuck before \<open>Await\<close> has returned; a run has
  at most a fixed number of steps, given by the number of polls that the timeout allows.
\<close>

theorem poller_safe_and_live:
  assumes "api_never_panics E" and "poller_run E w ts s"
  shows "\<not> plPanic s
    \<and> (plClosed s \<longrightarrow> (\<forall>i < length (plRoutines s). \<exists>opId r. plRoutines s ! i = RExit opId r))
    \<and> (plMain s = MReturned \<or> (\<exists>t s'. poller_step E t s s'))
    \<and> length ts \<le> (\<Sum>i < length (peProviders E). pePolls E i + 5) + 4"
proof -
  have inv: "poller_inv E s" using poller_run_inv [OF assms] .
  have "\<exists>opId r. x = RExit opId r" if "\<not> running x" for x using that by (cases x) auto
  then have "plClosed s \<longrightarrow> (\<forall>i < length (plRoutines s). \<exists>opId r. plRoutines s ! i = RExit opId r)"
    using inv by (simp add: poller_inv_def)
  moreover have "plMain s = MReturned \<or> (\<exists>t s'. poller_step E t s s')"
    using poller_progress [OF inv] pstep_sound by blast
  moreover have "length ts \<le> (\<Sum>i < length (peProviders E). pePolls E i + 5) + 4"
    using poller_run_weight [OF assms(2)] by (simp add: poller_weight_init)
  ultimately show ?thesis using inv by (simp add: poller_inv_def)
qed

text \<open>
  When \<open>Await\<close> returns it has received one result for every submitted operation, and it returns
  nil exactly when every operation was accepted and polled to success.
\<close>

theorem await_collects_every_result:
  assumes "api_never_panics E" and "poller_run E w ts s" and "plMain s = MReturned"
  shows "length (plReceived s) = length (peProviders E)
    \<and> (await_result s = Ok () \<longleftrightarrow>
        (\<forall>i < length (peProviders E). \<exists>opId. plRoutines s ! i = RExit opId None))"
proof -
  have inv: "poller_inv E s" using poller_run_inv [OF assms(1,2)] .
  then show ?thesis using returned_results(1) await_result_Ok assms(3) by blast
qed



section \<open>An example\<close>

text \<open>
  Two operations on a registry of names: the provider enters the name and answers it as the id, and
  every operation is reported successful.
\<close>

definition example_poller_env :: "string list poller_env" where
  "example_poller_env =
     \<lparr>peProviders = map (\<lambda>name w. (Ok name, name # w)) [''op-a'', ''op-b''],
      peGetOperation = (\<lambda>opId w. (Ok (Some \<lparr>opStatus = ''SUCCESS'', opErrorMessage = None, opTargets = fmempty\<rparr>), w)),
      pePolls = (\<lambda>i. 30)\<rparr>"

definition example_applied :: "nat \<Rightarrow> string list \<Rightarrow> bool" where
  "example_applied i w \<longleftrightarrow> i < 2 \<longrightarrow> [''op-a'', ''op-b''] ! i \<in> set w"

lemma example_never_panics: "api_never_panics example_poller_env"
  by (auto simp: api_never_panics_def example_poller_env_def poll_condition_def OperationStatusSuccess_def)

lemma example_effects: "operation_effects example_poller_env (\<lambda>i opId. example_applied i) example_applied"
  by (auto simp: operation_effects_def example_poller_env_def poll_condition_def
      OperationStatusSuccess_def example_applied_def less_Suc_eq numeral_2_eq_2)

lemma example_run:
  "SubmitAndAwait example_poller_env [Main, Routine 0, Main, Routine 1] [] = (Ok (), [''op-b'', ''op-a''])"
  by (simp add: SubmitAndAwait_def example_poller_env_def poller_init_def routine_step_def
      poll_condition_def OperationStatusSuccess_def poller_threads_def List.map_filter_simps await_result_def numeral_nat)


lemma example_complete_run:
  obtains ts s where "poller_run example_poller_env [] ts s" and "plMain s = MReturned"
    and "await_result s = Ok ()" and "plWorld s = [''op-b'', ''op-a'']"
    and "run_poller example_poller_env [Main, Routine 0, Main, Routine 1] (poller_init []) = s"
proof -
  let ?s = "run_poller example_poller_env [Main, Routine 0, Main, Routine 1] (poller_init [])"
  have "\<exists>ts. poller_run example_poller_env [] ts ?s"
    by (rule run_poller_is_run [OF poller_run.start])
  moreover have "plMain ?s = MReturned"
    using run_poller_returns [OF example_never_panics init_inv] by blast
  moreover have "await_result ?s = Ok ()" "plWorld ?s = [''op-b'', ''op-a'']"
    using example_run by (simp_all only: SubmitAndAwait_def Let_def prod.inject)
  ultimately show thesis using that by blast
qed

lemma poller_safe_and_live_witness:
  "\<exists>ts s. poller_run example_poller_env [] ts s \<and> plMain s = MReturned \<and> \<not> plPanic s \<and> length ts \<le> 74"
proof -
  obtain ts s where s: "poller_run example_poller_env [] ts s" "plMain s = MReturned"
    by (rule example_complete_run)
  have "(\<Sum>i < length (peProviders example_poller_env). pePolls example_poller_env i + 5) + 4 = 74"
    by (simp add: example_poller_env_def)
  with poller_safe_and_live [OF example_never_panics s(1)] s show ?thesis by auto
qed

lemma await_collects_every_result_witness:
  "\<exists>ts s. poller_run example_poller_env [] ts s \<and> length (plReceived s) = 2
     \<and> (\<forall>i < 2. \<exists>opId. plRoutines s ! i = RExit opId None)"
proof -
  obtain ts s where s: "poller_run example_poller_env [] ts s" "plMain s = MReturned" "await_result s = Ok ()"
    by (rule example_complete_run)
  have "length (peProviders example_poller_env) = 2" by (simp add: example_poller_env_def)
  with await_collects_every_result [OF example_never_panics s(1,2)] s show ?thesis by auto
qed



end
