(* ===== verification/SdApi.thy ===== *)
theory SdApi
  imports OperationPoller ModelTypes
begin

text \<open>
  \<open>pkg/cloudmap/api.go\<close>: the calls of the AWS Cloud Map API. The SDK behind the interface \<open>AwsFacade\<close>
  (\<open>aws_facade.go\<close>) is the record \<open>aws_facade\<close> of functions on the outside world; a paginator is
  the list of results of its \<open>NextPage\<close> calls, up to the last page or the first that fails.
\<close>

section \<open>The AWS facade\<close>

record aws_namespace =
  anId :: "string option"
  anName :: "string option"
  anType :: string

record aws_service =
  asId :: "string option"
  asName :: "string option"

record discover_input =
  diNamespaceName :: string
  diServiceName :: string
  diHealthStatus :: string
  diMaxResults :: int32
  diQueryParameters :: "(string, string) fmap option"

record dns_record =
  drTTL :: int64
  drType :: string

record create_service_input =
  ciNamespaceId :: string
  ciName :: string
  ciDnsConfig :: "dns_record list option"

record register_input =
  riServiceId :: string
  riInstanceId :: string
  riAttributes :: "(string, string) fmap"

record 'w aws_facade =
  awsListNamespaces :: "'w \<Rightarrow> aws_namespace list outcome list \<times> 'w"
  awsListServices :: "string \<Rightarrow> 'w \<Rightarrow> aws_service list outcome list \<times> 'w"
  awsDiscoverInstances :: "discover_input \<Rightarrow> 'w \<Rightarrow> http_instance list outcome \<times> 'w"
  awsGetOperation :: "'w get_operation"
  awsCreateHttpNamespace :: "string \<Rightarrow> 'w \<Rightarrow> string option outcome \<times> 'w"
  awsCreateService :: "create_service_input \<Rightarrow> 'w \<Rightarrow> aws_service option outcome \<times> 'w"
  awsRegisterInstance :: "register_input \<Rightarrow> 'w \<Rightarrow> string option outcome \<times> 'w"
  awsDeregisterInstance :: "string \<Rightarrow> string \<Rightarrow> 'w \<Rightarrow> string option outcome \<times> 'w"
  awsLimiterWait :: "limiter \<Rightarrow> 'w \<Rightarrow> unit outcome \<times> 'w"

record 'w sd_api =
  apiFacade :: "'w aws_facade"
  apiRateLimiter :: rate_limiter

text \<open>
  The facade is a client of the SDK, made of a configuration: \<open>awsNewClient\<close> is \<open>sd.NewFromConfig\<close> at this configuration, and
  calls its argument on the options of the new client. The one that the code passes adds a user agent to all requests.
\<close>

datatype api_option = AddUserAgentKeyValue string string | OtherApiOption string

record sd_options =
  APIOptions :: "api_option list"

record 'w aws_config =
  awsRegion :: string
  awsNewClient :: "(sd_options \<Rightarrow> sd_options) \<Rightarrow> 'w aws_facade"

definition NewAwsFacadeFromConfig :: "build_info \<Rightarrow> 'w aws_config \<Rightarrow> 'w aws_facade" where
  "NewAwsFacadeFromConfig b cfg =
     awsNewClient cfg (\<lambda>options.
       options\<lparr>APIOptions := APIOptions options @ [AddUserAgentKeyValue (GetUserAgentKey b) (GetUserAgentValue b)]\<rparr>)"

text \<open>The facade is the argument here: the tests, and the examples below, pass one that is not made of a configuration.\<close>

definition NewServiceDiscoveryApiFromConfig :: "'w aws_facade \<Rightarrow> 'w sd_api" where
  "NewServiceDiscoveryApiFromConfig facade =
     \<lparr>apiFacade = facade, apiRateLimiter = NewDefaultRateLimiter\<rparr>"

definition api_wait :: "'w sd_api \<Rightarrow> event \<Rightarrow> 'w \<Rightarrow> unit outcome \<times> 'w" where
  "api_wait A ev = rate_limiter_wait (awsLimiterWait (apiFacade A)) (apiRateLimiter A) ev"

section \<open>Listing\<close>

definition add_namespace :: "(string, namespace) fmap \<Rightarrow> aws_namespace \<Rightarrow> (string, namespace) fmap" where
  "add_namespace m ns =
     (let namespaceType = ConvertNamespaceType (anType ns) in
      if IsUnsupported namespaceType then m
      else fmupd (aws_ToString (anName ns))
        \<lparr>nsId = aws_ToString (anId ns), nsName = aws_ToString (anName ns), nsType = namespaceType\<rparr> m)"

definition add_service :: "(string, string) fmap \<Rightarrow> aws_service \<Rightarrow> (string, string) fmap" where
  "add_service m svc = fmupd (aws_ToString (asName svc)) (aws_ToString (asId svc)) m"

text \<open>The loop over the pages, which gives up at the first page that fails.\<close>

fun collect_pages :: "('m \<Rightarrow> 'a \<Rightarrow> 'm) \<Rightarrow> 'a list outcome list \<Rightarrow> 'm \<Rightarrow> 'm outcome" where
  "collect_pages add [] m = Ok m"
| "collect_pages add (Ok items # pages) m = collect_pages add pages (foldl add m items)"
| "collect_pages add (Err e # pages) m = Err e"
| "collect_pages add (Panic # pages) m = Panic"

definition api_GetNamespaceMap :: "'w sd_api \<Rightarrow> 'w \<Rightarrow> (string, namespace) fmap outcome \<times> 'w" where
  "api_GetNamespaceMap A =
     bind_ok (api_wait A ListNamespaces) (\<lambda>_ w.
       case awsListNamespaces (apiFacade A) w of
         (pages, w') \<Rightarrow> (collect_pages add_namespace pages fmempty, w'))"

definition api_GetServiceIdMap :: "'w sd_api \<Rightarrow> string \<Rightarrow> 'w \<Rightarrow> (string, string) fmap outcome \<times> 'w" where
  "api_GetServiceIdMap A nsid =
     bind_ok (api_wait A ListServices) (\<lambda>_ w.
       case awsListServices (apiFacade A) nsid w of
         (pages, w') \<Rightarrow> (collect_pages add_service pages fmempty, w'))"

section \<open>Other calls\<close>

definition api_DiscoverInstances ::
  "'w sd_api \<Rightarrow> string \<Rightarrow> string \<Rightarrow> (string, string) fmap option \<Rightarrow> 'w \<Rightarrow> http_instance list outcome \<times> 'w" where
  "api_DiscoverInstances A ns svc queryParameters =
     bind_ok (api_wait A DiscoverInstances) (\<lambda>_.
       awsDiscoverInstances (apiFacade A)
         \<lparr>diNamespaceName = ns, diServiceName = svc, diHealthStatus = ''ALL'', diMaxResults = 1000,
          diQueryParameters = queryParameters\<rparr>)"

definition api_GetOperation :: "'w sd_api \<Rightarrow> 'w get_operation" where
  "api_GetOperation A opId = bind_ok (api_wait A GetOperation) (\<lambda>_. awsGetOperation (apiFacade A) opId)"

definition id_result :: "string option \<Rightarrow> 'w \<Rightarrow> string outcome \<times> 'w" where
  "id_result v w = (Ok (aws_ToString v), w)"

definition api_CreateHttpNamespace :: "'w sd_api \<Rightarrow> string \<Rightarrow> 'w \<Rightarrow> string outcome \<times> 'w" where
  "api_CreateHttpNamespace A ns =
     bind_ok (api_wait A CreateHttpNamespace) (\<lambda>_.
       bind_ok (awsCreateHttpNamespace (apiFacade A) ns) id_result)"

definition defaultServiceTTLInSeconds :: int64 where "defaultServiceTTLInSeconds = 60"

definition getDnsConfig :: "dns_record list" where
  "getDnsConfig = [\<lparr>drTTL = defaultServiceTTLInSeconds, drType = ''SRV''\<rparr>]"

definition api_CreateService :: "'w sd_api \<Rightarrow> namespace \<Rightarrow> string \<Rightarrow> 'w \<Rightarrow> string outcome \<times> 'w" where
  "api_CreateService A namespace svc =
     bind_ok (api_wait A CreateService) (\<lambda>_.
       bind_ok
         (if nsType namespace = DnsPrivateNamespaceType
          then awsCreateService (apiFacade A)
                 \<lparr>ciNamespaceId = nsId namespace, ciName = svc, ciDnsConfig = Some getDnsConfig\<rparr>
          else awsCreateService (apiFacade A)
                 \<lparr>ciNamespaceId = nsId namespace, ciName = svc, ciDnsConfig = None\<rparr>)
         (\<lambda>output w. case output of None \<Rightarrow> (Panic, w) | Some s \<Rightarrow> (Ok (aws_ToString (asId s)), w)))"

definition api_RegisterInstance ::
  "'w sd_api \<Rightarrow> string \<Rightarrow> string \<Rightarrow> (string, string) fmap \<Rightarrow> 'w \<Rightarrow> string outcome \<times> 'w" where
  "api_RegisterInstance A svcId instId instAttrs =
     bind_ok (api_wait A RegisterInstance) (\<lambda>_.
       bind_ok (awsRegisterInstance (apiFacade A)
           \<lparr>riServiceId = svcId, riInstanceId = instId, riAttributes = instAttrs\<rparr>) id_result)"

definition api_DeregisterInstance :: "'w sd_api \<Rightarrow> string \<Rightarrow> string \<Rightarrow> 'w \<Rightarrow> string outcome \<times> 'w" where
  "api_DeregisterInstance A svcId instId =
     bind_ok (api_wait A DeregisterInstance) (\<lambda>_.
       bind_ok (awsDeregisterInstance (apiFacade A) svcId instId) id_result)"

lemmas api_call_defs =
  api_GetNamespaceMap_def api_GetServiceIdMap_def api_DiscoverInstances_def api_GetOperation_def
  api_CreateHttpNamespace_def api_CreateService_def api_RegisterInstance_def api_DeregisterInstance_def

section \<open>Properties\<close>

lemma collect_pages_Ok:
  "collect_pages add pages m = Ok m' \<longleftrightarrow> (\<exists>lists. pages = map Ok lists \<and> m' = foldl add m (concat lists))"
proof (induction add pages m rule: collect_pages.induct)
  case (2 add items pages m)
  show ?case
  proof
    assume "collect_pages add (Ok items # pages) m = Ok m'"
    with 2 obtain lists where "pages = map Ok lists" "m' = foldl add (foldl add m items) (concat lists)" by auto
    then show "\<exists>lists. Ok items # pages = map Ok lists \<and> m' = foldl add m (concat lists)"
      by (intro exI [of _ "items # lists"]) simp
  next
    assume "\<exists>lists. Ok items # pages = map Ok lists \<and> m' = foldl add m (concat lists)"
    then obtain rest where "pages = map Ok rest" "m' = foldl add m (items @ concat rest)"
      by (auto simp: Cons_eq_map_conv)
    with 2 show "collect_pages add (Ok items # pages) m = Ok m'" by auto
  qed
qed auto

text \<open>What a listed namespace stands for, if its type is supported.\<close>

definition namespace_of :: "aws_namespace \<Rightarrow> namespace" where
  "namespace_of ns = \<lparr>nsId = aws_ToString (anId ns), nsName = aws_ToString (anName ns),
     nsType = ConvertNamespaceType (anType ns)\<rparr>"

definition listed_as :: "string \<Rightarrow> aws_namespace \<Rightarrow> bool" where
  "listed_as k ns \<longleftrightarrow> aws_ToString (anName ns) = k \<and> (anType ns = ''HTTP'' \<or> anType ns = ''DNS_PRIVATE'')"

lemma lookup_add_namespaces:
  "fmlookup (foldl add_namespace fmempty nss) k = map_option namespace_of (find (listed_as k) (rev nss))"
  by (induction nss rule: rev_induct)
    (auto simp: add_namespace_def namespace_of_def listed_as_def IsUnsupported_def ConvertNamespaceType_def
      UnsupportedNamespaceType_def HttpNamespaceType_def DnsPrivateNamespaceType_def Let_def)

lemma lookup_add_services:
  "fmlookup (foldl add_service fmempty svcs) k =
     map_option (\<lambda>s. aws_ToString (asId s)) (find (\<lambda>s. aws_ToString (asName s) = k) (rev svcs))"
  by (induction svcs rule: rev_induct) (auto simp: add_service_def)

text \<open>
  When \<open>GetNamespaceMap\<close> succeeds, every page was read without an error, and each name is mapped to
  the last listed HTTP or private DNS namespace of that name; namespaces of another type are left out.
\<close>

theorem namespace_map_is_what_was_listed:
  assumes "api_GetNamespaceMap A w = (Ok m, w')"
  shows "\<exists>w1 lists. api_wait A ListNamespaces w = (Ok (), w1)
    \<and> awsListNamespaces (apiFacade A) w1 = (map Ok lists, w')
    \<and> (\<forall>k. fmlookup m k = map_option namespace_of (find (listed_as k) (rev (concat lists))))"
proof -
  from assms obtain w1 where w1: "api_wait A ListNamespaces w = (Ok (), w1)"
    and "(case awsListNamespaces (apiFacade A) w1 of
         (pages, w') \<Rightarrow> (collect_pages add_namespace pages fmempty, w')) = (Ok m, w')"
    by (auto simp: api_GetNamespaceMap_def bind_ok_eq_Ok)
  then obtain pages where "awsListNamespaces (apiFacade A) w1 = (pages, w')"
    "collect_pages add_namespace pages fmempty = Ok m" by (auto split: prod.splits)
  with w1 show ?thesis by (auto simp: collect_pages_Ok lookup_add_namespaces)
qed

lemma refused:
  assumes "apiRateLimiter A = NewDefaultRateLimiter" and "NewDefaultRateLimiter ev = Some l"
    and "awsLimiterWait (apiFacade A) l w = (Err e, w')"
  shows "api_wait A ev w = (Err e, w')"
  using assms by (simp add: api_wait_def rate_limiter_wait_def)

text \<open>
  The rate limiter comes first: when the limiter of an operation refuses, with the default limits,
  the operation returns that error and nothing is sent to Cloud Map.
\<close>

theorem refused_calls_are_not_sent:
  assumes "apiRateLimiter A = NewDefaultRateLimiter" and "\<And>l. awsLimiterWait (apiFacade A) l w = (Err e, w')"
  shows "api_GetNamespaceMap A w = (Err e, w') \<and> api_GetServiceIdMap A nsid w = (Err e, w')
    \<and> api_DiscoverInstances A ns svc q w = (Err e, w') \<and> api_GetOperation A opId w = (Err e, w')
    \<and> api_CreateHttpNamespace A ns w = (Err e, w') \<and> api_CreateService A nsp svc w = (Err e, w')
    \<and> api_RegisterInstance A svcId instId attrs w = (Err e, w')
    \<and> api_DeregisterInstance A svcId instId w = (Err e, w')"
  using refused [OF assms(1) _ assms(2)]
  by (simp add: api_call_defs NewDefaultRateLimiter_def)

section \<open>An example\<close>

text \<open>
  A small registry for the examples: namespaces, services with the id of their namespace, instances
  with the id of their service. Every operation is reported successful at once; the limiters refuse
  when the registry is closed.
\<close>

record cloud =
  cloudOpen :: bool
  cloudNamespaces :: "aws_namespace list"
  cloudServices :: "(string \<times> aws_service) list"
  cloudInstances :: "(string \<times> http_instance) list"

definition cloud_service_id :: "cloud \<Rightarrow> string \<Rightarrow> string \<Rightarrow> string option" where
  "cloud_service_id w ns svc =
     (case find (\<lambda>n. aws_ToString (anName n) = ns) (cloudNamespaces w) of
        None \<Rightarrow> None
      | Some n \<Rightarrow>
          (case find (\<lambda>(i, s). i = aws_ToString (anId n) \<and> aws_ToString (asName s) = svc) (cloudServices w) of
             None \<Rightarrow> None
           | Some (i, s) \<Rightarrow> asId s))"

definition example_facade :: "cloud aws_facade" where
  "example_facade =
     \<lparr>awsListNamespaces = (\<lambda>w. ([Ok (cloudNamespaces w)], w)),
      awsListServices = (\<lambda>i w. ([Ok (map snd (filter (\<lambda>s. fst s = i) (cloudServices w)))], w)),
      awsDiscoverInstances = (\<lambda>d w.
        (case cloud_service_id w (diNamespaceName d) (diServiceName d) of
           None \<Rightarrow> (Err (ErrText ''service not found''), w)
         | Some i \<Rightarrow> (Ok (map snd (filter (\<lambda>s. fst s = i) (cloudInstances w))), w))),
      awsGetOperation = (\<lambda>opId w. (Ok (Some \<lparr>opStatus = ''SUCCESS'', opErrorMessage = None,
        opTargets = fmupd ''NAMESPACE'' opId fmempty\<rparr>), w)),
      awsCreateHttpNamespace = (\<lambda>ns w. (Ok (Some (''ns-'' @ ns)),
        w\<lparr>cloudNamespaces := cloudNamespaces w @ [\<lparr>anId = Some (''ns-'' @ ns), anName = Some ns, anType = ''HTTP''\<rparr>]\<rparr>)),
      awsCreateService = (\<lambda>i w. let s = \<lparr>asId = Some (''srv-'' @ ciName i), asName = Some (ciName i)\<rparr> in
        (Ok (Some s), w\<lparr>cloudServices := cloudServices w @ [(ciNamespaceId i, s)]\<rparr>)),
      awsRegisterInstance = (\<lambda>r w. (Ok (Some (''op-'' @ riInstanceId r)),
        w\<lparr>cloudInstances := (riServiceId r, \<lparr>instInstanceId = Some (riInstanceId r), instAttributes = riAttributes r\<rparr>)
            # filter (\<lambda>(i, x). \<not> (i = riServiceId r \<and> instInstanceId x = Some (riInstanceId r))) (cloudInstances w)\<rparr>)),
      awsDeregisterInstance = (\<lambda>svcId instId w. (Ok (Some (''op-'' @ instId)),
        w\<lparr>cloudInstances := filter (\<lambda>(i, x). \<not> (i = svcId \<and> instInstanceId x = Some instId)) (cloudInstances w)\<rparr>)),
      awsLimiterWait = (\<lambda>l w. (if cloudOpen w then Ok () else Err (ErrText ''rate: Wait would exceed deadline''), w))\<rparr>"

definition example_cloud :: cloud where
  "example_cloud =
     \<lparr>cloudOpen = True,
      cloudNamespaces = [\<lparr>anId = Some ''ns-1'', anName = Some ''default'', anType = ''HTTP''\<rparr>,
        \<lparr>anId = Some ''ns-2'', anName = Some ''vpc'', anType = ''DNS_PUBLIC''\<rparr>],
      cloudServices = [(''ns-1'', \<lparr>asId = Some ''srv-1'', asName = Some ''web''\<rparr>)],
      cloudInstances = []\<rparr>"

definition example_api :: "cloud sd_api" where
  "example_api = NewServiceDiscoveryApiFromConfig example_facade"

lemma example_wait:
  assumes "\<forall>s. ev \<noteq> OtherEvent s"
  shows "api_wait example_api ev w =
    (if cloudOpen w then Ok () else Err (ErrText ''rate: Wait would exceed deadline''), w)"
  using default_limiter_defined [OF assms]
  by (auto simp: api_wait_def rate_limiter_wait_def example_api_def NewServiceDiscoveryApiFromConfig_def example_facade_def)

lemma namespace_map_is_what_was_listed_witness:
  "\<exists>m. api_GetNamespaceMap example_api example_cloud = (Ok m, example_cloud)
    \<and> fmlookup m ''default'' = Some \<lparr>nsId = ''ns-1'', nsName = ''default'', nsType = ''HTTP''\<rparr>
    \<and> fmlookup m ''vpc'' = None"
proof -
  have "api_GetNamespaceMap example_api example_cloud
      = (Ok (foldl add_namespace fmempty (cloudNamespaces example_cloud)), example_cloud)"
    by (simp add: api_GetNamespaceMap_def bind_ok_def example_wait)
      (simp add: example_api_def NewServiceDiscoveryApiFromConfig_def example_facade_def example_cloud_def)
  from namespace_map_is_what_was_listed [OF this] this show ?thesis
    by (auto simp: example_wait example_api_def NewServiceDiscoveryApiFromConfig_def example_facade_def
        example_cloud_def listed_as_def namespace_of_def aws_ToString_def ConvertNamespaceType_def HttpNamespaceType_def)
qed

lemma refused_calls_are_not_sent_witness:
  "api_RegisterInstance example_api ''srv-1'' ''i-1'' fmempty (example_cloud\<lparr>cloudOpen := False\<rparr>)
     = (Err (ErrText ''rate: Wait would exceed deadline''), example_cloud\<lparr>cloudOpen := False\<rparr>)"
  using refused_calls_are_not_sent [of example_api "example_cloud\<lparr>cloudOpen := False\<rparr>"
      "ErrText ''rate: Wait would exceed deadline''" "example_cloud\<lparr>cloudOpen := False\<rparr>"]
  by (simp add: example_api_def NewServiceDiscoveryApiFromConfig_def example_facade_def)

end
