(* ===== verification/SdCache.thy ===== *)
theory SdCache
  imports ModelTypes
begin

text \<open>
  \<open>pkg/cloudmap/cache.go\<close>: the client's caches of namespaces, service ids and endpoints, on top of
  the LRU cache with expiry of \<open>k8s.io/apimachinery/pkg/util/cache\<close>. That cache is not in the
  repository: it is the record \<open>lru_ops\<close> of parameters, and \<open>lru_laws\<close> is what its documentation
  promises. Times and durations are nanoseconds; an operation that reads the clock gets the time.
\<close>

section \<open>The expiring LRU cache\<close>

datatype cache_entry =
    NamespaceMapEntry "(string, namespace) fmap"
  | ServiceIdMapEntry "(string, string) fmap"
  | EndpointsEntry "endpoint list"

text \<open>
  \<open>lruAdd key value ttl now\<close> and \<open>lruGet key now\<close>. \<open>lruEntries\<close> is not an operation of the code: it
  gives the entries of a cache with the time each expires, which the laws are stated with.
\<close>

record 'c lru_ops =
  lruNew :: "nat \<Rightarrow> 'c"
  lruAdd :: "string \<Rightarrow> cache_entry \<Rightarrow> int \<Rightarrow> int \<Rightarrow> 'c \<Rightarrow> 'c"
  lruGet :: "string \<Rightarrow> int \<Rightarrow> 'c \<Rightarrow> cache_entry option \<times> 'c"
  lruRemove :: "string \<Rightarrow> 'c \<Rightarrow> 'c"
  lruEntries :: "'c \<Rightarrow> string \<Rightarrow> (cache_entry \<times> int) option"

text \<open>
  \<open>fewer m m'\<close>: \<open>m'\<close> has only entries of \<open>m\<close>. The cache may drop any entry to make room, \<open>Get\<close> drops an
  expired one; it never makes one up.
\<close>

definition fewer :: "('k \<Rightarrow> 'v option) \<Rightarrow> ('k \<Rightarrow> 'v option) \<Rightarrow> bool" where
  "fewer m m' \<longleftrightarrow> (\<forall>k. m' k = None \<or> m' k = m k)"

definition unexpired :: "int \<Rightarrow> ('v \<times> int) option \<Rightarrow> 'v option" where
  "unexpired now e = (case e of Some (v, expiry) \<Rightarrow> if now \<le> expiry then Some v else None | None \<Rightarrow> None)"

definition lru_laws :: "'c lru_ops \<Rightarrow> bool" where
  "lru_laws L \<longleftrightarrow>
     (\<forall>n k. lruEntries L (lruNew L n) k = None)
     \<and> (\<forall>k v ttl now c. lruEntries L (lruAdd L k v ttl now c) k = Some (v, now + ttl)
          \<and> fewer ((lruEntries L c)(k \<mapsto> (v, now + ttl))) (lruEntries L (lruAdd L k v ttl now c)))
     \<and> (\<forall>k now c. fst (lruGet L k now c) = unexpired now (lruEntries L c k)
          \<and> fewer (lruEntries L c) (lruEntries L (snd (lruGet L k now c))))
     \<and> (\<forall>k c. lruEntries L (lruRemove L k c) k = None \<and> fewer (lruEntries L c) (lruEntries L (lruRemove L k c)))"

lemma lru_lawsD:
  assumes "lru_laws L"
  shows "lruEntries L (lruNew L n) k = None"
    and "lruEntries L (lruAdd L k v ttl now c) k = Some (v, now + ttl)"
    and "k' \<noteq> k \<Longrightarrow> lruEntries L (lruAdd L k v ttl now c) k' = None
      \<or> lruEntries L (lruAdd L k v ttl now c) k' = lruEntries L c k'"
    and "fst (lruGet L k now c) = unexpired now (lruEntries L c k)"
    and "lruEntries L (snd (lruGet L k now c)) k' = None
      \<or> lruEntries L (snd (lruGet L k now c)) k' = lruEntries L c k'"
    and "lruEntries L (lruRemove L k c) k = None"
    and "lruEntries L (lruRemove L k c) k' = None
      \<or> lruEntries L (lruRemove L k c) k' = lruEntries L c k'"
  using assms by (fastforce simp: lru_laws_def fewer_def)+

section \<open>The cache of the client\<close>

definition nsKey :: string where "nsKey = ''ns-map''"
definition svcKeyPrefix :: string where "svcKeyPrefix = ''svc-map''"
definition defaultCacheSize :: nat where "defaultCacheSize = 2048"

definition second :: int where "second = 1000000000"

record cache_config =
  NsTTL :: int
  SvcTTL :: int
  EndptTTL :: int

record 'c sd_cache =
  scLru :: "'c lru_ops"
  scDefault :: 'c
  scEndpoints :: 'c
  scConfig :: cache_config

definition NewServiceDiscoveryClientCache :: "'c lru_ops \<Rightarrow> cache_config \<Rightarrow> 'c sd_cache" where
  "NewServiceDiscoveryClientCache L config =
     \<lparr>scLru = L, scDefault = lruNew L defaultCacheSize, scEndpoints = lruNew L defaultCacheSize,
      scConfig = config\<rparr>"

definition NewDefaultServiceDiscoveryClientCache :: "'c lru_ops \<Rightarrow> 'c sd_cache" where
  "NewDefaultServiceDiscoveryClientCache L =
     NewServiceDiscoveryClientCache L
       \<lparr>NsTTL = 10 * second, SvcTTL = 10 * second, EndptTTL = 5 * second\<rparr>"

definition buildSvcKey :: "string \<Rightarrow> string" where
  "buildSvcKey ns = svcKeyPrefix @ '':'' @ ns"

definition buildEndptsKey :: "string \<Rightarrow> string \<Rightarrow> string" where
  "buildEndptsKey ns svc = ns @ '':'' @ svc"

text \<open>An entry of an unexpected type is removed and reported as not found.\<close>

definition GetNamespaceMap :: "int \<Rightarrow> 'c sd_cache \<Rightarrow> (string, namespace) fmap option \<times> 'c sd_cache" where
  "GetNamespaceMap now s =
     (case lruGet (scLru s) nsKey now (scDefault s) of
        (None, c) \<Rightarrow> (None, s\<lparr>scDefault := c\<rparr>)
      | (Some (NamespaceMapEntry m), c) \<Rightarrow> (Some m, s\<lparr>scDefault := c\<rparr>)
      | (Some _, c) \<Rightarrow> (None, s\<lparr>scDefault := lruRemove (scLru s) nsKey c\<rparr>))"

definition CacheNamespaceMap :: "(string, namespace) fmap \<Rightarrow> int \<Rightarrow> 'c sd_cache \<Rightarrow> 'c sd_cache" where
  "CacheNamespaceMap namespaces now s =
     s\<lparr>scDefault := lruAdd (scLru s) nsKey (NamespaceMapEntry namespaces) (NsTTL (scConfig s)) now (scDefault s)\<rparr>"

definition EvictNamespaceMap :: "'c sd_cache \<Rightarrow> 'c sd_cache" where
  "EvictNamespaceMap s = s\<lparr>scDefault := lruRemove (scLru s) nsKey (scDefault s)\<rparr>"

definition GetServiceIdMap ::
  "string \<Rightarrow> int \<Rightarrow> 'c sd_cache \<Rightarrow> (string, string) fmap option \<times> 'c sd_cache" where
  "GetServiceIdMap ns now s =
     (let key = buildSvcKey ns in
      case lruGet (scLru s) key now (scDefault s) of
        (None, c) \<Rightarrow> (None, s\<lparr>scDefault := c\<rparr>)
      | (Some (ServiceIdMapEntry m), c) \<Rightarrow> (Some m, s\<lparr>scDefault := c\<rparr>)
      | (Some _, c) \<Rightarrow> (None, s\<lparr>scDefault := lruRemove (scLru s) key c\<rparr>))"

definition CacheServiceIdMap :: "string \<Rightarrow> (string, string) fmap \<Rightarrow> int \<Rightarrow> 'c sd_cache \<Rightarrow> 'c sd_cache" where
  "CacheServiceIdMap ns serviceIdMap now s =
     s\<lparr>scDefault := lruAdd (scLru s) (buildSvcKey ns) (ServiceIdMapEntry serviceIdMap)
         (SvcTTL (scConfig s)) now (scDefault s)\<rparr>"

definition EvictServiceIdMap :: "string \<Rightarrow> 'c sd_cache \<Rightarrow> 'c sd_cache" where
  "EvictServiceIdMap ns s = s\<lparr>scDefault := lruRemove (scLru s) (buildSvcKey ns) (scDefault s)\<rparr>"

definition GetCachedEndpoints ::
  "string \<Rightarrow> string \<Rightarrow> int \<Rightarrow> 'c sd_cache \<Rightarrow> endpoint list option \<times> 'c sd_cache" where
  "GetCachedEndpoints ns svc now s =
     (let key = buildEndptsKey ns svc in
      case lruGet (scLru s) key now (scEndpoints s) of
        (None, c) \<Rightarrow> (None, s\<lparr>scEndpoints := c\<rparr>)
      | (Some (EndpointsEntry es), c) \<Rightarrow> (Some es, s\<lparr>scEndpoints := c\<rparr>)
      | (Some _, c) \<Rightarrow> (None, s\<lparr>scEndpoints := lruRemove (scLru s) key c\<rparr>))"

definition CacheEndpoints ::
  "string \<Rightarrow> string \<Rightarrow> endpoint list \<Rightarrow> int \<Rightarrow> 'c sd_cache \<Rightarrow> 'c sd_cache" where
  "CacheEndpoints ns svc endpts now s =
     s\<lparr>scEndpoints := lruAdd (scLru s) (buildEndptsKey ns svc) (EndpointsEntry endpts)
         (EndptTTL (scConfig s)) now (scEndpoints s)\<rparr>"

definition EvictEndpoints :: "string \<Rightarrow> string \<Rightarrow> 'c sd_cache \<Rightarrow> 'c sd_cache" where
  "EvictEndpoints ns svc s =
     s\<lparr>scEndpoints := lruRemove (scLru s) (buildEndptsKey ns svc) (scEndpoints s)\<rparr>"

section \<open>The contract of an expiring cache\<close>

text \<open>
  A store that may lose entries but not invent them. \<open>view s k\<close> is the entry of \<open>k\<close> with its expiry,
  \<open>key k\<close> the keys the contract covers.
\<close>

locale lossy_store =
  fixes put :: "'k \<Rightarrow> 'v \<Rightarrow> int \<Rightarrow> 's \<Rightarrow> 's"
    and evict :: "'k \<Rightarrow> 's \<Rightarrow> 's"
    and view :: "'s \<Rightarrow> 'k \<Rightarrow> ('v \<times> int) option"
    and key :: "'k \<Rightarrow> bool"
    and valid :: "'s \<Rightarrow> bool"
    and ttl :: "'s \<Rightarrow> int"
  assumes put_same: "\<lbrakk>valid s; key k\<rbrakk> \<Longrightarrow> view (put k v now s) k = Some (v, now + ttl s)"
    and put_other: "\<lbrakk>valid s; key k; key k'; k' \<noteq> k\<rbrakk>
      \<Longrightarrow> view (put k v now s) k' = None \<or> view (put k v now s) k' = view s k'"
    and evict_same: "\<lbrakk>valid s; key k\<rbrakk> \<Longrightarrow> view (evict k s) k = None"
    and evict_other: "\<lbrakk>valid s; key k; key k'\<rbrakk>
      \<Longrightarrow> view (evict k s) k' = None \<or> view (evict k s) k' = view s k'"
    and store_valid: "valid s \<Longrightarrow> valid (put k v now s)" "valid s \<Longrightarrow> valid (evict k s)"
    and store_ttl: "ttl (put k v now s) = ttl s" "ttl (evict k s) = ttl s"

datatype ('k, 'v) cache_call = CallGet 'k int | CallPut 'k 'v int | CallEvict 'k

text \<open>The value a key was last given and when, unless it was evicted since.\<close>

fun last_put :: "('k, 'v) cache_call list \<Rightarrow> 'k \<Rightarrow> ('v \<times> int) option" where
  "last_put [] k = None"
| "last_put (CallGet k' now # calls) k = last_put calls k"
| "last_put (CallPut k' v now # calls) k = (if k' = k then Some (v, now) else last_put calls k)"
| "last_put (CallEvict k' # calls) k = (if k' = k then None else last_put calls k)"

primrec call_key :: "('k, 'v) cache_call \<Rightarrow> 'k" where
  "call_key (CallGet k now) = k"
| "call_key (CallPut k v now) = k"
| "call_key (CallEvict k) = k"

text \<open>Calls made, the latest first.\<close>

fun run_calls ::
  "('k \<Rightarrow> int \<Rightarrow> 's \<Rightarrow> 'v option \<times> 's) \<Rightarrow> ('k \<Rightarrow> 'v \<Rightarrow> int \<Rightarrow> 's \<Rightarrow> 's) \<Rightarrow> ('k \<Rightarrow> 's \<Rightarrow> 's)
    \<Rightarrow> ('k, 'v) cache_call list \<Rightarrow> 's \<Rightarrow> 's" where
  "run_calls get put evict [] s = s"
| "run_calls get put evict (CallGet k now # calls) s = snd (get k now (run_calls get put evict calls s))"
| "run_calls get put evict (CallPut k v now # calls) s = put k v now (run_calls get put evict calls s)"
| "run_calls get put evict (CallEvict k # calls) s = evict k (run_calls get put evict calls s)"

locale expiring_cache = lossy_store put evict view key valid ttl
  for put :: "'k \<Rightarrow> 'v \<Rightarrow> int \<Rightarrow> 's \<Rightarrow> 's" and evict and view and key and valid and ttl +
  fixes get :: "'k \<Rightarrow> int \<Rightarrow> 's \<Rightarrow> 'v option \<times> 's"
  assumes get_value: "\<lbrakk>valid s; key k\<rbrakk> \<Longrightarrow> fst (get k now s) = unexpired now (view s k)"
    and get_view: "\<lbrakk>valid s; key k; key k'\<rbrakk>
      \<Longrightarrow> view (snd (get k now s)) k' = None \<or> view (snd (get k now s)) k' = view s k'"
    and get_valid: "valid s \<Longrightarrow> valid (snd (get k now s))"
    and get_ttl: "ttl (snd (get k now s)) = ttl s"
begin

lemma get_put:
  "\<lbrakk>valid s; key k; later \<le> now + ttl s\<rbrakk> \<Longrightarrow> fst (get k later (put k v now s)) = Some v"
  by (simp add: get_value put_same store_valid unexpired_def)

lemma get_evict: "\<lbrakk>valid s; key k\<rbrakk> \<Longrightarrow> fst (get k now (evict k s)) = None"
  by (simp add: get_value evict_same store_valid unexpired_def)

lemma run_valid: "valid s \<Longrightarrow> valid (run_calls get put evict calls s) \<and> ttl (run_calls get put evict calls s) = ttl s"
proof (induction calls)
  case Nil
  then show ?case by simp
next
  case (Cons c calls)
  then show ?case by (cases c) (simp_all add: store_valid store_ttl get_valid get_ttl)
qed

lemma run_view:
  assumes "valid s" and "\<forall>k. key k \<longrightarrow> view s k = None" and "\<forall>c \<in> set calls. key (call_key c)"
    and "key k"
  shows "view (run_calls get put evict calls s) k = None
    \<or> (\<exists>v t. last_put calls k = Some (v, t) \<and> view (run_calls get put evict calls s) k = Some (v, t + ttl s))"
  using assms
proof (induction calls k rule: last_put.induct)
  case (1 k)
  then show ?case by simp
next
  case (2 k' now calls k)
  then show ?case
    using get_view [of "run_calls get put evict calls s" k' k now] run_valid [of s calls] by auto
next
  case (3 k' v now calls k)
  then show ?case
    using put_other [of "run_calls get put evict calls s" k' k v now]
      put_same [of "run_calls get put evict calls s" k' v now] run_valid [of s calls] by auto
next
  case (4 k' calls k)
  then show ?case
    using evict_other [of "run_calls get put evict calls s" k' k]
      evict_same [of "run_calls get put evict calls s" k'] run_valid [of s calls] by auto
qed

lemma bounded_staleness:
  assumes "valid s" and "\<forall>k. key k \<longrightarrow> view s k = None" and "\<forall>c \<in> set calls. key (call_key c)"
    and "key k" and "fst (get k now (run_calls get put evict calls s)) = Some v"
  shows "\<exists>t. last_put calls k = Some (v, t) \<and> now \<le> t + ttl s"
  using run_view [OF assms(1-4)] assms(4,5) run_valid [OF assms(1), of calls]
  by (auto simp: get_value unexpired_def split: if_splits)

end


section \<open>The three tables of the cache\<close>

definition cache_valid :: "'c sd_cache \<Rightarrow> bool" where
  "cache_valid s \<longleftrightarrow> lru_laws (scLru s)"

definition ns_view :: "'c sd_cache \<Rightarrow> unit \<Rightarrow> ((string, namespace) fmap \<times> int) option" where
  "ns_view s k =
     (case lruEntries (scLru s) (scDefault s) nsKey of
        Some (NamespaceMapEntry m, t) \<Rightarrow> Some (m, t) | _ \<Rightarrow> None)"

definition svc_view :: "'c sd_cache \<Rightarrow> string \<Rightarrow> ((string, string) fmap \<times> int) option" where
  "svc_view s ns =
     (case lruEntries (scLru s) (scDefault s) (buildSvcKey ns) of
        Some (ServiceIdMapEntry m, t) \<Rightarrow> Some (m, t) | _ \<Rightarrow> None)"

definition endpts_view :: "'c sd_cache \<Rightarrow> string \<times> string \<Rightarrow> (endpoint list \<times> int) option" where
  "endpts_view s k =
     (case lruEntries (scLru s) (scEndpoints s) (buildEndptsKey (fst k) (snd k)) of
        Some (EndpointsEntry es, t) \<Rightarrow> Some (es, t) | _ \<Rightarrow> None)"

text \<open>Keys of different services differ when no namespace name has a colon in it.\<close>

definition plain_namespace :: "string \<times> string \<Rightarrow> bool" where
  "plain_namespace k \<longleftrightarrow> CHR '':'' \<notin> set (fst k)"

lemma buildSvcKey_inj [simp]: "buildSvcKey a = buildSvcKey b \<longleftrightarrow> a = b"
  by (simp add: buildSvcKey_def)

lemma nsKey_not_svcKey [simp]: "buildSvcKey a \<noteq> nsKey" "nsKey \<noteq> buildSvcKey a"
  by (simp_all add: buildSvcKey_def nsKey_def svcKeyPrefix_def)

lemma buildEndptsKey_inj:
  assumes "plain_namespace k" and "plain_namespace k'"
  shows "buildEndptsKey (fst k) (snd k) = buildEndptsKey (fst k') (snd k') \<longleftrightarrow> k = k'"
  using assms
  by (auto simp: buildEndptsKey_def plain_namespace_def prod_eq_iff append_eq_append_conv2 append_eq_Cons_conv
      Cons_eq_append_conv) (metis in_set_conv_decomp)+

lemmas cache_op_defs =
  GetNamespaceMap_def CacheNamespaceMap_def EvictNamespaceMap_def
  GetServiceIdMap_def CacheServiceIdMap_def EvictServiceIdMap_def
  GetCachedEndpoints_def CacheEndpoints_def EvictEndpoints_def

lemmas cache_views = ns_view_def svc_view_def endpts_view_def

lemma cache_ops_keep_implementation [simp]:
  "scLru (snd (GetNamespaceMap now s)) = scLru s" "scLru (CacheNamespaceMap m now s) = scLru s"
  "scLru (EvictNamespaceMap s) = scLru s" "scLru (snd (GetServiceIdMap ns now s)) = scLru s"
  "scLru (CacheServiceIdMap ns m' now s) = scLru s" "scLru (EvictServiceIdMap ns s) = scLru s"
  "scLru (snd (GetCachedEndpoints ns svc now s)) = scLru s" "scLru (CacheEndpoints ns svc es now s) = scLru s"
  "scLru (EvictEndpoints ns svc s) = scLru s"
  "scConfig (snd (GetNamespaceMap now s)) = scConfig s" "scConfig (CacheNamespaceMap m now s) = scConfig s"
  "scConfig (EvictNamespaceMap s) = scConfig s" "scConfig (snd (GetServiceIdMap ns now s)) = scConfig s"
  "scConfig (CacheServiceIdMap ns m' now s) = scConfig s" "scConfig (EvictServiceIdMap ns s) = scConfig s"
  "scConfig (snd (GetCachedEndpoints ns svc now s)) = scConfig s" "scConfig (CacheEndpoints ns svc es now s) = scConfig s"
  "scConfig (EvictEndpoints ns svc s) = scConfig s"
  by (simp_all add: cache_op_defs Let_def split: prod.splits option.splits cache_entry.splits)


interpretation ns_cache: expiring_cache
  "\<lambda>(k :: unit) m now. CacheNamespaceMap m now" "\<lambda>k. EvictNamespaceMap" ns_view "\<lambda>k. True" cache_valid
  "\<lambda>s. NsTTL (scConfig s)" "\<lambda>k. GetNamespaceMap"
proof unfold_locales
  fix s :: "'c sd_cache" and k now
  assume "cache_valid s" then have L: "lru_laws (scLru s)" by (simp add: cache_valid_def)
  note laws = lru_lawsD [OF L]
  show "fst (GetNamespaceMap now s) = unexpired now (ns_view s k)"
    using laws(4) [of nsKey now "scDefault s"]
    by (auto simp: GetNamespaceMap_def ns_view_def unexpired_def split: prod.splits option.splits cache_entry.splits if_splits)
  fix k'
  show "ns_view (snd (GetNamespaceMap now s)) k' = None \<or> ns_view (snd (GetNamespaceMap now s)) k' = ns_view s k'"
    using laws(5) [of nsKey now "scDefault s" nsKey] laws(6) [of nsKey]
    by (auto simp: GetNamespaceMap_def ns_view_def split: prod.splits option.splits cache_entry.splits if_splits)
qed (auto simp: cache_valid_def ns_view_def CacheNamespaceMap_def EvictNamespaceMap_def lru_lawsD)

interpretation svc_cache: expiring_cache
  CacheServiceIdMap EvictServiceIdMap svc_view "\<lambda>k. True" cache_valid
  "\<lambda>s. SvcTTL (scConfig s)" GetServiceIdMap
proof unfold_locales
  fix s :: "'c sd_cache" and k now
  assume "cache_valid s" then have L: "lru_laws (scLru s)" by (simp add: cache_valid_def)
  note laws = lru_lawsD [OF L]
  show "fst (GetServiceIdMap k now s) = unexpired now (svc_view s k)"
    using laws(4) [of "buildSvcKey k" now "scDefault s"]
    by (auto simp: GetServiceIdMap_def svc_view_def Let_def unexpired_def split: prod.splits option.splits cache_entry.splits if_splits)
  fix k'
  show "svc_view (snd (GetServiceIdMap k now s)) k' = None \<or> svc_view (snd (GetServiceIdMap k now s)) k' = svc_view s k'"
    using laws(5) [of "buildSvcKey k" now "scDefault s" "buildSvcKey k'"]
      laws(7) [of "buildSvcKey k" "snd (lruGet (scLru s) (buildSvcKey k) now (scDefault s))" "buildSvcKey k'"]
    by (auto simp: GetServiceIdMap_def svc_view_def Let_def split: prod.splits option.splits cache_entry.splits if_splits)
  fix v
  show "k' \<noteq> k \<Longrightarrow> svc_view (CacheServiceIdMap k v now s) k' = None
      \<or> svc_view (CacheServiceIdMap k v now s) k' = svc_view s k'"
    using laws(3) [of "buildSvcKey k'" "buildSvcKey k" "ServiceIdMapEntry v" "SvcTTL (scConfig s)" now "scDefault s"]
    by (auto simp: CacheServiceIdMap_def svc_view_def)
  show "svc_view (EvictServiceIdMap k s) k' = None \<or> svc_view (EvictServiceIdMap k s) k' = svc_view s k'"
    using laws(7) [of "buildSvcKey k" "scDefault s" "buildSvcKey k'"]
    by (auto simp: EvictServiceIdMap_def svc_view_def)
qed (auto simp: cache_valid_def svc_view_def CacheServiceIdMap_def EvictServiceIdMap_def lru_lawsD)


interpretation endpts_cache: expiring_cache
  "\<lambda>k. CacheEndpoints (fst k) (snd k)" "\<lambda>k. EvictEndpoints (fst k) (snd k)" endpts_view plain_namespace
  cache_valid "\<lambda>s. EndptTTL (scConfig s)" "\<lambda>k. GetCachedEndpoints (fst k) (snd k)"
proof unfold_locales
  fix s :: "'c sd_cache" and k now
  assume "cache_valid s" then have L: "lru_laws (scLru s)" by (simp add: cache_valid_def)
  note laws = lru_lawsD [OF L]
  let ?key = "\<lambda>k :: string \<times> string. buildEndptsKey (fst k) (snd k)"
  show "fst (GetCachedEndpoints (fst k) (snd k) now s) = unexpired now (endpts_view s k)"
    using laws(4) [of "?key k" now "scEndpoints s"]
    by (auto simp: GetCachedEndpoints_def endpts_view_def Let_def unexpired_def split: prod.splits option.splits cache_entry.splits if_splits)
  fix k'
  show "endpts_view (snd (GetCachedEndpoints (fst k) (snd k) now s)) k' = None
      \<or> endpts_view (snd (GetCachedEndpoints (fst k) (snd k) now s)) k' = endpts_view s k'"
    using laws(5) [of "?key k" now "scEndpoints s" "?key k'"]
      laws(7) [of "?key k" "snd (lruGet (scLru s) (?key k) now (scEndpoints s))" "?key k'"]
    by (auto simp: GetCachedEndpoints_def endpts_view_def Let_def split: prod.splits option.splits cache_entry.splits if_splits)
  fix v
  show "plain_namespace k \<Longrightarrow> plain_namespace k' \<Longrightarrow> k' \<noteq> k
      \<Longrightarrow> endpts_view (CacheEndpoints (fst k) (snd k) v now s) k' = None
      \<or> endpts_view (CacheEndpoints (fst k) (snd k) v now s) k' = endpts_view s k'"
    using laws(3) [of "?key k'" "?key k" "EndpointsEntry v" "EndptTTL (scConfig s)" now "scEndpoints s"]
      buildEndptsKey_inj [of k' k]
    by (auto simp: CacheEndpoints_def endpts_view_def)
  show "endpts_view (EvictEndpoints (fst k) (snd k) s) k' = None
      \<or> endpts_view (EvictEndpoints (fst k) (snd k) s) k' = endpts_view s k'"
    using laws(7) [of "?key k" "scEndpoints s" "?key k'"]
    by (auto simp: EvictEndpoints_def endpts_view_def)
qed (auto simp: cache_valid_def endpts_view_def CacheEndpoints_def EvictEndpoints_def lru_lawsD)

lemma new_cache_empty:
  assumes "lru_laws L"
  shows "cache_valid (NewServiceDiscoveryClientCache L cfg)"
    and "svc_view (NewServiceDiscoveryClientCache L cfg) ns = None"
    and "endpts_view (NewServiceDiscoveryClientCache L cfg) k = None"
    and "EndptTTL (scConfig (NewServiceDiscoveryClientCache L cfg)) = EndptTTL cfg"
    and "SvcTTL (scConfig (NewServiceDiscoveryClientCache L cfg)) = SvcTTL cfg"
  using assms by (simp_all add: cache_valid_def svc_view_def endpts_view_def
      NewServiceDiscoveryClientCache_def lru_lawsD)

section \<open>The types of the entries\<close>

text \<open>Any call of the cache by its client.\<close>

inductive cache_step :: "'c sd_cache \<Rightarrow> 'c sd_cache \<Rightarrow> bool" where
  get_namespaces: "cache_step s (snd (GetNamespaceMap now s))"
| put_namespaces: "cache_step s (CacheNamespaceMap m now s)"
| evict_namespaces: "cache_step s (EvictNamespaceMap s)"
| get_services: "cache_step s (snd (GetServiceIdMap ns now s))"
| put_services: "cache_step s (CacheServiceIdMap ns ids now s)"
| evict_services: "cache_step s (EvictServiceIdMap ns s)"
| get_endpoints: "cache_step s (snd (GetCachedEndpoints ns svc now s))"
| put_endpoints: "cache_step s (CacheEndpoints ns svc es now s)"
| evict_endpoints: "cache_step s (EvictEndpoints ns svc s)"

primrec default_typed :: "string \<Rightarrow> cache_entry \<Rightarrow> bool" where
  "default_typed k (NamespaceMapEntry m) \<longleftrightarrow> k = nsKey"
| "default_typed k (ServiceIdMapEntry m) \<longleftrightarrow> (\<exists>ns. k = buildSvcKey ns)"
| "default_typed k (EndpointsEntry es) \<longleftrightarrow> False"

primrec is_endpoints :: "cache_entry \<Rightarrow> bool" where
  "is_endpoints (NamespaceMapEntry m) \<longleftrightarrow> False"
| "is_endpoints (ServiceIdMapEntry m) \<longleftrightarrow> False"
| "is_endpoints (EndpointsEntry es) \<longleftrightarrow> True"

definition well_typed :: "'c lru_ops \<Rightarrow> (string \<Rightarrow> cache_entry \<Rightarrow> bool) \<Rightarrow> 'c \<Rightarrow> bool" where
  "well_typed L typed c \<longleftrightarrow> (\<forall>k v t. lruEntries L c k = Some (v, t) \<longrightarrow> typed k v)"

lemma well_typed_ops:
  assumes "lru_laws L" and "well_typed L typed c"
  shows "typed k v \<Longrightarrow> well_typed L typed (lruAdd L k v ttl now c)" and "well_typed L typed (lruRemove L k c)"
    and "lruGet L k now c = (r, c') \<Longrightarrow> well_typed L typed c' \<and> (\<forall>v. r = Some v \<longrightarrow> typed k v)"
proof -
  note laws = lru_lawsD [OF assms(1)] and c = assms(2) [unfolded well_typed_def, rule_format]
  have keep: "well_typed L typed c'" if "\<And>k'. lruEntries L c' k' = None \<or> lruEntries L c' k' = lruEntries L c k'" for c'
    unfolding well_typed_def
  proof (intro allI impI)
    fix k' v t assume "lruEntries L c' k' = Some (v, t)"
    with that [of k'] show "typed k' v" by (intro c [of k' v t]) simp
  qed
  show "well_typed L typed (lruRemove L k c)" using laws(7) by (rule keep)
  show "well_typed L typed c' \<and> (\<forall>v. r = Some v \<longrightarrow> typed k v)" if "lruGet L k now c = (r, c')"
    using keep [of c'] laws(4,5) [of k now c] c [of k] that
    by (auto simp: unexpired_def split: option.splits if_splits)
  show "well_typed L typed (lruAdd L k v ttl now c)" if "typed k v"
    unfolding well_typed_def
  proof (intro allI impI)
    fix k' v' t assume e: "lruEntries L (lruAdd L k v ttl now c) k' = Some (v', t)"
    show "typed k' v'"
    proof (cases "k' = k")
      case True
      then show ?thesis using e laws(2) [of k v ttl now c] that by simp
    next
      case False
      then show ?thesis using e laws(3) [of k' k v ttl now c] c [of k' v' t] by simp
    qed
  qed
qed

definition cache_typed :: "'c sd_cache \<Rightarrow> bool" where
  "cache_typed s \<longleftrightarrow> lru_laws (scLru s) \<and> well_typed (scLru s) default_typed (scDefault s)
     \<and> well_typed (scLru s) (\<lambda>k. is_endpoints) (scEndpoints s)"

lemma cache_step_typed:
  assumes "cache_step s s'" and "cache_typed s"
  shows "cache_typed s' \<and> scLru s' = scLru s"
proof -
  have l: "lru_laws (scLru s)" and d: "well_typed (scLru s) default_typed (scDefault s)"
    and e: "well_typed (scLru s) (\<lambda>k. is_endpoints) (scEndpoints s)"
    using assms(2) by (auto simp: cache_typed_def)
  note ops = well_typed_ops [OF l d] well_typed_ops [OF l e]
  from assms(1) show ?thesis
    by cases (auto simp: cache_typed_def l d e ops GetNamespaceMap_def CacheNamespaceMap_def EvictNamespaceMap_def
        GetServiceIdMap_def CacheServiceIdMap_def EvictServiceIdMap_def GetCachedEndpoints_def CacheEndpoints_def
        EvictEndpoints_def Let_def intro: well_typed_ops [OF l]
        split: prod.splits option.splits cache_entry.splits)
qed

section \<open>Properties\<close>

text \<open>
  C37: whatever was called on a new cache before, when \<open>GetEndpoints\<close> finds the endpoints of a service
  they are those of the last \<open>CacheEndpoints\<close> for that service, not evicted since, and at most
  \<open>EndptTTL\<close> old. Namespace names are taken to have no colon.
\<close>

theorem cached_endpoints_are_recent:
  assumes "lru_laws L" and "\<forall>c \<in> set calls. plain_namespace (call_key c)" and "plain_namespace (ns, svc)"
    and "fst (GetCachedEndpoints ns svc now
          (run_calls (\<lambda>k. GetCachedEndpoints (fst k) (snd k)) (\<lambda>k. CacheEndpoints (fst k) (snd k))
             (\<lambda>k. EvictEndpoints (fst k) (snd k)) calls (NewServiceDiscoveryClientCache L cfg))) = Some es"
  shows "\<exists>t. last_put calls (ns, svc) = Some (es, t) \<and> now \<le> t + EndptTTL cfg"
  using endpts_cache.bounded_staleness
      [of "NewServiceDiscoveryClientCache L cfg" calls "(ns, svc)" now es] assms
  by (simp add: new_cache_empty)

text \<open>
  The same for the service ids of a namespace, with \<open>SvcTTL\<close>.
\<close>

theorem cached_service_ids_are_recent:
  assumes "lru_laws L"
    and "fst (GetServiceIdMap ns now
          (run_calls GetServiceIdMap CacheServiceIdMap EvictServiceIdMap calls
             (NewServiceDiscoveryClientCache L cfg))) = Some m"
  shows "\<exists>t. last_put calls ns = Some (m, t) \<and> now \<le> t + SvcTTL cfg"
  using svc_cache.bounded_staleness [of "NewServiceDiscoveryClientCache L cfg" calls ns now m] assms
  by (simp add: new_cache_empty)

text \<open>
  The tables do not disturb each other: an operation on one table leaves what can be read from
  another as it is, or drops it; after an eviction, a read finds nothing.
\<close>

theorem cache_tables_independent:
  assumes "cache_valid s"
  shows "svc_view (CacheNamespaceMap m now s) ns \<in> {None, svc_view s ns}
    \<and> svc_view (EvictNamespaceMap s) ns \<in> {None, svc_view s ns}
    \<and> ns_view (CacheServiceIdMap ns ids now s) () \<in> {None, ns_view s ()}
    \<and> ns_view (EvictServiceIdMap ns s) () \<in> {None, ns_view s ()}
    \<and> endpts_view (CacheNamespaceMap m now s) k = endpts_view s k
    \<and> endpts_view (CacheServiceIdMap ns ids now s) k = endpts_view s k
    \<and> fst (GetNamespaceMap now (EvictNamespaceMap s)) = None
    \<and> fst (GetServiceIdMap ns now (EvictServiceIdMap ns s)) = None"
proof -
  have L: "lru_laws (scLru s)" using assms by (simp add: cache_valid_def)
  note laws = lru_lawsD [OF L]
  have "svc_view (CacheNamespaceMap m now s) ns \<in> {None, svc_view s ns}"
    using laws(3) [of "buildSvcKey ns" nsKey "NamespaceMapEntry m" "NsTTL (scConfig s)" now "scDefault s"]
    by (auto simp: CacheNamespaceMap_def svc_view_def)
  moreover have "svc_view (EvictNamespaceMap s) ns \<in> {None, svc_view s ns}"
    using laws(7) [of nsKey "scDefault s" "buildSvcKey ns"] by (auto simp: EvictNamespaceMap_def svc_view_def)
  moreover have "ns_view (CacheServiceIdMap ns ids now s) () \<in> {None, ns_view s ()}"
    using laws(3) [of nsKey "buildSvcKey ns" "ServiceIdMapEntry ids" "SvcTTL (scConfig s)" now "scDefault s"]
    by (auto simp: CacheServiceIdMap_def ns_view_def)
  moreover have "ns_view (EvictServiceIdMap ns s) () \<in> {None, ns_view s ()}"
    using laws(7) [of "buildSvcKey ns" "scDefault s" nsKey] by (auto simp: EvictServiceIdMap_def ns_view_def)
  moreover have "endpts_view (CacheNamespaceMap m now s) k = endpts_view s k"
    "endpts_view (CacheServiceIdMap ns ids now s) k = endpts_view s k"
    by (simp_all add: endpts_view_def CacheNamespaceMap_def CacheServiceIdMap_def)
  moreover have "fst (GetNamespaceMap now (EvictNamespaceMap s)) = None"
    using ns_cache.get_evict [OF assms] by simp
  moreover have "fst (GetServiceIdMap ns now (EvictServiceIdMap ns s)) = None"
    using svc_cache.get_evict [OF assms] by simp
  ultimately show ?thesis by blast
qed

text \<open>
  C21: type safety of the cache. The tables hold untyped values, and each read casts what it finds. Whatever
  calls were made on a new cache before, no cast fails: a read of any table gives exactly the value that the
  LRU cache holds for the key, and the branches that report and remove an entry of another type never run.
\<close>

theorem cache_casts_never_fail:
  assumes "lru_laws L" and "cache_step\<^sup>*\<^sup>* (NewServiceDiscoveryClientCache L cfg) s"
  shows "fst (lruGet L nsKey now (scDefault s)) = map_option NamespaceMapEntry (fst (GetNamespaceMap now s))
    \<and> fst (lruGet L (buildSvcKey ns) now (scDefault s)) = map_option ServiceIdMapEntry (fst (GetServiceIdMap ns now s))
    \<and> fst (lruGet L (buildEndptsKey ns svc) now (scEndpoints s))
      = map_option EndpointsEntry (fst (GetCachedEndpoints ns svc now s))"
proof -
  have "cache_typed s \<and> scLru s = L"
    using assms(2)
  proof (induction rule: rtranclp_induct)
    case base
    then show ?case
      using lru_lawsD(1) [OF assms(1)] assms(1)
      by (simp add: cache_typed_def well_typed_def NewServiceDiscoveryClientCache_def)
  next
    case (step s s')
    then show ?case using cache_step_typed by auto
  qed
  then have L: "scLru s = L" and d: "well_typed L default_typed (scDefault s)" and e: "well_typed L (\<lambda>k. is_endpoints) (scEndpoints s)"
    by (auto simp: cache_typed_def)
  have keys: "nsKey \<noteq> buildSvcKey n" for n by (simp add: nsKey_def buildSvcKey_def svcKeyPrefix_def)
  have "fst (lruGet L nsKey now (scDefault s)) = map_option NamespaceMapEntry (fst (GetNamespaceMap now s))"
    using well_typed_ops(3) [OF assms(1) d surjective_pairing, of nsKey now] keys
    by (auto simp: GetNamespaceMap_def L split: prod.splits option.splits cache_entry.splits)
  moreover have "fst (lruGet L (buildSvcKey ns) now (scDefault s)) = map_option ServiceIdMapEntry (fst (GetServiceIdMap ns now s))"
    using well_typed_ops(3) [OF assms(1) d surjective_pairing, of "buildSvcKey ns" now] keys [of ns]
    by (auto simp: GetServiceIdMap_def L Let_def split: prod.splits option.splits cache_entry.splits)
  moreover have "fst (lruGet L (buildEndptsKey ns svc) now (scEndpoints s))
      = map_option EndpointsEntry (fst (GetCachedEndpoints ns svc now s))"
    using well_typed_ops(3) [OF assms(1) e surjective_pairing, of "buildEndptsKey ns svc" now]
    by (auto simp: GetCachedEndpoints_def L Let_def split: prod.splits option.splits cache_entry.splits)
  ultimately show ?thesis by blast
qed

section \<open>An example\<close>

text \<open>A cache without a size limit.\<close>

definition example_lru :: "(string \<Rightarrow> (cache_entry \<times> int) option) lru_ops" where
  "example_lru =
     \<lparr>lruNew = (\<lambda>n k. None),
      lruAdd = (\<lambda>k v ttl now c. c(k \<mapsto> (v, now + ttl))),
      lruGet = (\<lambda>k now c. (unexpired now (c k), c)),
      lruRemove = (\<lambda>k c. c(k := None)),
      lruEntries = (\<lambda>c. c)\<rparr>"

definition example_cache_config :: cache_config where
  "example_cache_config = \<lparr>NsTTL = 10 * second, SvcTTL = 10 * second, EndptTTL = 5 * second\<rparr>"

lemma example_lru_laws: "lru_laws example_lru"
  by (simp add: lru_laws_def example_lru_def fewer_def)

lemma cached_endpoints_are_recent_witness:
  "\<exists>t. last_put [CallEvict (''ns'', ''b''), CallPut (''ns'', ''a'') [example_endpoint ''10.0.0.1'' ''c1''] 0] (''ns'', ''a'')
       = Some ([example_endpoint ''10.0.0.1'' ''c1''], t) \<and> 4 * second \<le> t + 5 * second"
  using cached_endpoints_are_recent [OF example_lru_laws,
      of "[CallEvict (''ns'', ''b''), CallPut (''ns'', ''a'') [example_endpoint ''10.0.0.1'' ''c1''] 0]" "''ns''" "''a''"
        "4 * second" example_cache_config "[example_endpoint ''10.0.0.1'' ''c1'']"]
  by (simp add: plain_namespace_def GetCachedEndpoints_def EvictEndpoints_def CacheEndpoints_def buildEndptsKey_def
      NewServiceDiscoveryClientCache_def example_lru_def example_cache_config_def unexpired_def second_def)

lemma cached_service_ids_are_recent_witness:
  "\<exists>t. last_put [CallPut ''ns'' (fmupd ''a'' ''srv-1'' fmempty) 0] ''ns'' = Some (fmupd ''a'' ''srv-1'' fmempty, t)
     \<and> 10 * second \<le> t + 10 * second"
  using cached_service_ids_are_recent [OF example_lru_laws,
      of "''ns''" "10 * second" "[CallPut ''ns'' (fmupd ''a'' ''srv-1'' fmempty) 0]" example_cache_config
        "fmupd ''a'' ''srv-1'' fmempty"]
  by (simp add: GetServiceIdMap_def CacheServiceIdMap_def buildSvcKey_def
      NewServiceDiscoveryClientCache_def example_lru_def example_cache_config_def unexpired_def second_def)

lemma cache_tables_independent_witness:
  "fst (GetServiceIdMap ''ns'' 0 (EvictServiceIdMap ''ns''
      (CacheServiceIdMap ''ns'' fmempty 0 (NewServiceDiscoveryClientCache example_lru example_cache_config)))) = None"
  using cache_tables_independent
      [of "CacheServiceIdMap ''ns'' fmempty 0 (NewServiceDiscoveryClientCache example_lru example_cache_config)"]
  by (simp add: cache_valid_def NewServiceDiscoveryClientCache_def example_lru_laws)


lemma cache_casts_never_fail_witness:
  "fst (lruGet example_lru (buildSvcKey ''ns'') 5 (scDefault
      (CacheServiceIdMap ''ns'' fmempty 0 (NewServiceDiscoveryClientCache example_lru example_cache_config))))
    = map_option ServiceIdMapEntry (Some fmempty)"
proof -
  let ?new = "NewServiceDiscoveryClientCache example_lru example_cache_config"
  let ?s = "CacheServiceIdMap ''ns'' fmempty 0 ?new"
  have "fst (GetServiceIdMap ''ns'' 5 ?s) = Some fmempty"
    by (simp add: GetServiceIdMap_def CacheServiceIdMap_def buildSvcKey_def NewServiceDiscoveryClientCache_def
        example_lru_def example_cache_config_def unexpired_def second_def)
  moreover have "cache_step\<^sup>*\<^sup>* ?new ?s" by (rule r_into_rtranclp) (rule cache_step.put_services)
  ultimately show ?thesis
    using cache_casts_never_fail [OF example_lru_laws, of example_cache_config ?s 5 "''ns''"] by simp
qed

end
