(* ===== verification/SdClient.thy ===== *)
theory SdClient
  imports SdApi SdCache ModelCluster
begin

text \<open>
  \<open>pkg/cloudmap/client.go\<close>: the service discovery client, which reads namespaces, services and
  endpoints through the cache and writes endpoints with an operation poller.

  The state of a client is its cache, its copy of the cluster properties, and the outside world. What
  the program does not determine is asked of the world: the clock, the iteration order of a map, the
  schedule of the goroutines of a poller and how often it polls before the timeout.
\<close>

section \<open>State\<close>

record 'w client_env =
  ceApi :: "'w sd_api"
  ceListProps :: "'w list_props"
  ceNow :: "'w \<Rightarrow> int \<times> 'w"
  ceOrder :: "'w \<Rightarrow> range_order"
  ceSchedule :: "'w \<Rightarrow> thread list"
  cePolls :: "'w \<Rightarrow> nat \<Rightarrow> nat"

record ('c, 'w) client =
  clCache :: "'c sd_cache"
  clProps :: cluster_properties
  clWorld :: 'w

definition NewDefaultServiceDiscoveryClient :: "'c lru_ops \<Rightarrow> cluster_properties \<Rightarrow> 'w \<Rightarrow> ('c, 'w) client" where
  "NewDefaultServiceDiscoveryClient L clusterUtils w =
     \<lparr>clCache = NewDefaultServiceDiscoveryClientCache L, clProps = clusterUtils, clWorld = w\<rparr>"

definition NewServiceDiscoveryClientWithCustomCache ::
  "'c lru_ops \<Rightarrow> cache_config \<Rightarrow> cluster_properties \<Rightarrow> 'w \<Rightarrow> ('c, 'w) client" where
  "NewServiceDiscoveryClientWithCustomCache L cacheConfig clusterUtils w =
     \<lparr>clCache = NewServiceDiscoveryClientCache L cacheConfig, clProps = clusterUtils, clWorld = w\<rparr>"

text \<open>A call on the world, a read of the cache at the time of the clock, a write and an eviction.\<close>

definition in_world :: "('w \<Rightarrow> 'a outcome \<times> 'w) \<Rightarrow> ('c, 'w) client \<Rightarrow> 'a outcome \<times> ('c, 'w) client" where
  "in_world f s = (case f (clWorld s) of (r, w) \<Rightarrow> (r, s\<lparr>clWorld := w\<rparr>))"

definition cache_read ::
  "'w client_env \<Rightarrow> (int \<Rightarrow> 'c sd_cache \<Rightarrow> 'v option \<times> 'c sd_cache) \<Rightarrow> ('c, 'w) client
    \<Rightarrow> 'v option outcome \<times> ('c, 'w) client" where
  "cache_read E get s =
     (case ceNow E (clWorld s) of
        (now, w) \<Rightarrow> (case get now (clCache s) of (v, c) \<Rightarrow> (Ok v, s\<lparr>clCache := c, clWorld := w\<rparr>)))"

definition cache_write ::
  "'w client_env \<Rightarrow> (int \<Rightarrow> 'c sd_cache \<Rightarrow> 'c sd_cache) \<Rightarrow> ('c, 'w) client \<Rightarrow> unit outcome \<times> ('c, 'w) client" where
  "cache_write E put s =
     (case ceNow E (clWorld s) of (now, w) \<Rightarrow> (Ok (), s\<lparr>clCache := put now (clCache s), clWorld := w\<rparr>))"

definition cache_evict ::
  "('c sd_cache \<Rightarrow> 'c sd_cache) \<Rightarrow> ('c, 'w) client \<Rightarrow> unit outcome \<times> ('c, 'w) client" where
  "cache_evict evict s = (Ok (), s\<lparr>clCache := evict (clCache s)\<rparr>)"

section \<open>Reading\<close>

definition getNamespaces :: "'w client_env \<Rightarrow> ('c, 'w) client \<Rightarrow> (string, namespace) fmap outcome \<times> ('c, 'w) client" where
  "getNamespaces E =
     bind_ok (cache_read E GetNamespaceMap) (\<lambda>found.
       case found of
         Some namespaces \<Rightarrow> return_value namespaces
       | None \<Rightarrow>
           bind_ok (in_world (api_GetNamespaceMap (ceApi E))) (\<lambda>namespaces.
             bind_ok (cache_write E (CacheNamespaceMap namespaces)) (\<lambda>_. return_value namespaces)))"

definition getNamespace :: "'w client_env \<Rightarrow> string \<Rightarrow> ('c, 'w) client \<Rightarrow> namespace outcome \<times> ('c, 'w) client" where
  "getNamespace E ns =
     bind_ok (getNamespaces E) (\<lambda>namespaces.
       case fmlookup namespaces ns of
         Some namespace \<Rightarrow> return_value namespace
       | None \<Rightarrow> fail_with (NotFoundError (''namespace: '' @ ns)))"

definition getServiceIds ::
  "'w client_env \<Rightarrow> string \<Rightarrow> ('c, 'w) client \<Rightarrow> (string, string) fmap outcome \<times> ('c, 'w) client" where
  "getServiceIds E ns =
     bind_ok (cache_read E (GetServiceIdMap ns)) (\<lambda>found.
       case found of
         Some serviceIdMap \<Rightarrow> return_value serviceIdMap
       | None \<Rightarrow>
           bind_ok (getNamespace E ns) (\<lambda>namespace.
             bind_ok (in_world (api_GetServiceIdMap (ceApi E) (nsId namespace))) (\<lambda>serviceIdMap.
               bind_ok (cache_write E (CacheServiceIdMap ns serviceIdMap)) (\<lambda>_.
                 return_value serviceIdMap))))"

definition getServiceId :: "'w client_env \<Rightarrow> string \<Rightarrow> string \<Rightarrow> ('c, 'w) client \<Rightarrow> string outcome \<times> ('c, 'w) client" where
  "getServiceId E ns svc =
     bind_ok (getServiceIds E ns) (\<lambda>svcIdMap.
       case fmlookup svcIdMap svc of
         Some svcId \<Rightarrow> return_value svcId
       | None \<Rightarrow> fail_with (NotFoundError (''service: '' @ svc)))"

definition client_properties :: "'w client_env \<Rightarrow> ('c, 'w) client \<Rightarrow> cluster_properties outcome \<times> ('c, 'w) client" where
  "client_properties E s =
     (case GetClusterProperties (ceListProps E) (clProps s, clWorld s) of
        (r, p, w) \<Rightarrow> (r, s\<lparr>clProps := p, clWorld := w\<rparr>))"

text \<open>The loop over the discovered instances: one that cannot be decoded is logged and skipped.\<close>

fun decode_instances :: "http_instance list \<Rightarrow> endpoint list outcome" where
  "decode_instances [] = Ok []"
| "decode_instances (inst # insts) =
     (case NewEndpointFromInstance inst of
        Panic \<Rightarrow> Panic
      | Err e \<Rightarrow> decode_instances insts
      | Ok endpt \<Rightarrow>
          (case decode_instances insts of Ok endpts \<Rightarrow> Ok (endpt # endpts) | Err e \<Rightarrow> Err e | Panic \<Rightarrow> Panic))"

definition getEndpoints ::
  "'w client_env \<Rightarrow> string \<Rightarrow> string \<Rightarrow> ('c, 'w) client \<Rightarrow> endpoint list outcome \<times> ('c, 'w) client" where
  "getEndpoints E ns svc =
     bind_ok (cache_read E (GetCachedEndpoints ns svc)) (\<lambda>found.
       case found of
         Some endpts \<Rightarrow> return_value endpts
       | None \<Rightarrow>
           bind_ok (client_properties E) (\<lambda>props.
             bind_ok (in_world (api_DiscoverInstances (ceApi E) ns svc
                 (Some (fmupd ClusterSetIdAttr (cpClusterSetId props) fmempty)))) (\<lambda>insts.
               bind_ok (Pair (decode_instances insts)) (\<lambda>endpts.
                 bind_ok (cache_write E (CacheEndpoints ns svc endpts)) (\<lambda>_. return_value endpts)))))"

definition make_service :: "string \<Rightarrow> string \<Rightarrow> endpoint list \<Rightarrow> service" where
  "make_service ns svc endpts = \<lparr>svcNamespace = ns, svcName = svc, svcEndpoints = endpts\<rparr>"

fun list_loop ::
  "'w client_env \<Rightarrow> string \<Rightarrow> string list \<Rightarrow> ('c, 'w) client \<Rightarrow> service list outcome \<times> ('c, 'w) client" where
  "list_loop E ns [] s = (Ok [], s)"
| "list_loop E ns (svc # rest) s =
     bind_ok (getEndpoints E ns svc) (\<lambda>endpts.
       bind_ok (list_loop E ns rest) (\<lambda>svcs. return_value (make_service ns svc endpts # svcs))) s"

definition ListServices :: "'w client_env \<Rightarrow> string \<Rightarrow> ('c, 'w) client \<Rightarrow> service list outcome \<times> ('c, 'w) client" where
  "ListServices E ns s =
     (case getServiceIds E ns s of
        (Ok svcIdMap, s') \<Rightarrow> list_loop E ns (ceOrder E (clWorld s') (fmdom svcIdMap)) s'
      | (Err e, s') \<Rightarrow> (if IsNotFound (Some e) then (Ok [], s') else (Err e, s'))
      | (Panic, s') \<Rightarrow> (Panic, s'))"

definition GetService :: "'w client_env \<Rightarrow> string \<Rightarrow> string \<Rightarrow> ('c, 'w) client \<Rightarrow> service outcome \<times> ('c, 'w) client" where
  "GetService E ns svc =
     bind_ok (cache_read E (GetCachedEndpoints ns svc)) (\<lambda>found.
       case found of
         Some endpts \<Rightarrow> return_value (make_service ns svc endpts)
       | None \<Rightarrow>
           bind_ok (getServiceId E ns svc) (\<lambda>_.
             bind_ok (getEndpoints E ns svc) (\<lambda>endpts. return_value (make_service ns svc endpts))))"

section \<open>Writing\<close>

definition OperationTargetTypeNamespace :: string where
  "OperationTargetTypeNamespace = ''NAMESPACE''"

definition createNamespace :: "'w client_env \<Rightarrow> string \<Rightarrow> ('c, 'w) client \<Rightarrow> namespace outcome \<times> ('c, 'w) client" where
  "createNamespace E ns =
     bind_ok (in_world (api_CreateHttpNamespace (ceApi E) ns)) (\<lambda>opId s.
       bind_ok (in_world (Poll (api_GetOperation (ceApi E)) (cePolls E (clWorld s) 0) opId)) (\<lambda>op.
         bind_ok (cache_evict EvictNamespaceMap) (\<lambda>_.
           return_value \<lparr>nsId = aws_ToString (fmlookup (opTargets op) OperationTargetTypeNamespace),
             nsName = ns, nsType = HttpNamespaceType\<rparr>)) s)"

definition client_CreateService :: "'w client_env \<Rightarrow> string \<Rightarrow> string \<Rightarrow> ('c, 'w) client \<Rightarrow> unit outcome \<times> ('c, 'w) client" where
  "client_CreateService E ns svc =
     bind_ok
       (\<lambda>s. case getNamespace E ns s of
          (Ok namespace, s') \<Rightarrow> (Ok namespace, s')
        | (Err e, s') \<Rightarrow> (if IsUnknown (Some e) then (Err e, s') else createNamespace E ns s')
        | (Panic, s') \<Rightarrow> (Panic, s'))
       (\<lambda>namespace.
          bind_ok (in_world (api_CreateService (ceApi E) namespace svc)) (\<lambda>_.
            cache_evict (EvictServiceIdMap ns)))"

text \<open>
  Submitting one provider for each endpoint, evicting the cache entry, awaiting the results. The
  goroutines do not touch the cache, so the eviction, which the code does while they run, is placed
  before them.
\<close>

definition poller_of :: "'w client_env \<Rightarrow> ('w \<Rightarrow> string outcome \<times> 'w) list \<Rightarrow> 'w \<Rightarrow> 'w poller_env" where
  "poller_of E providers w =
     \<lparr>peProviders = providers, peGetOperation = api_GetOperation (ceApi E), pePolls = cePolls E w\<rparr>"

definition run_operations ::
  "'w client_env \<Rightarrow> string \<Rightarrow> string \<Rightarrow> string \<Rightarrow> ('w \<Rightarrow> string outcome \<times> 'w) list \<Rightarrow> ('c, 'w) client
    \<Rightarrow> unit outcome \<times> ('c, 'w) client" where
  "run_operations E ns svc message providers s =
     (case in_world (\<lambda>w. SubmitAndAwait (poller_of E providers w) (ceSchedule E w) w)
             (s\<lparr>clCache := EvictEndpoints ns svc (clCache s)\<rparr>) of
        (Ok _, s') \<Rightarrow> (Ok (), s')
      | (Err e, s') \<Rightarrow> (Err (the (Wrap (Some e) (Some (ErrText message)))), s')
      | (Panic, s') \<Rightarrow> (Panic, s'))"

definition RegisterEndpoints ::
  "'w client_env \<Rightarrow> string \<Rightarrow> string \<Rightarrow> endpoint list \<Rightarrow> ('c, 'w) client \<Rightarrow> unit outcome \<times> ('c, 'w) client" where
  "RegisterEndpoints E ns svc endpts s =
     (if length endpts = 0 then (Ok (), s)
      else bind_ok (getServiceId E ns svc) (\<lambda>svcId.
        run_operations E ns svc ''failure while registering endpoints''
          (map (\<lambda>endpt. api_RegisterInstance (ceApi E) svcId (epId endpt) (GetCloudMapAttributes endpt)) endpts)) s)"

definition DeleteEndpoints ::
  "'w client_env \<Rightarrow> string \<Rightarrow> string \<Rightarrow> endpoint list \<Rightarrow> ('c, 'w) client \<Rightarrow> unit outcome \<times> ('c, 'w) client" where
  "DeleteEndpoints E ns svc endpts s =
     (if length endpts = 0 then (Ok (), s)
      else bind_ok (getServiceId E ns svc) (\<lambda>svcId.
        run_operations E ns svc ''failure while de-registering endpoints''
          (map (\<lambda>endpt. api_DeregisterInstance (ceApi E) svcId (epId endpt)) endpts)) s)"

section \<open>What calls leave alone\<close>

text \<open>
  An invariant of the client's state that speaks of the world through \<open>P\<close>, of the cluster properties,
  and says that nothing is cached for one service. Reads of namespaces and services keep it when the
  calls behind them keep \<open>P\<close>.
\<close>

definition reads_keep :: "'w client_env \<Rightarrow> ('w \<Rightarrow> bool) \<Rightarrow> bool" where
  "reads_keep E P \<longleftrightarrow>
     (\<forall>w. P w \<longrightarrow> P (snd (ceNow E w)))
     \<and> keeps P (api_GetNamespaceMap (ceApi E))
     \<and> (\<forall>nsid. keeps P (api_GetServiceIdMap (ceApi E) nsid))"

definition client_inv ::
  "('w \<Rightarrow> bool) \<Rightarrow> cluster_properties \<Rightarrow> (string \<times> string) set \<Rightarrow> ('c, 'w) client \<Rightarrow> bool" where
  "client_inv P props K s \<longleftrightarrow>
     P (clWorld s) \<and> clProps s = props \<and> cache_valid (clCache s)
     \<and> (\<forall>k \<in> K. endpts_view (clCache s) k = None)"

lemma keeps_in_world [keeps_rules]:
  assumes "keeps P f"
  shows "keeps (client_inv P props K) (in_world f)"
  using assms by (force simp: keeps_def client_inv_def in_world_def split: prod.splits)

lemma keeps_cache_read:
  assumes "reads_keep E P"
    and "\<And>now c. scLru (snd (get now c)) = scLru c"
    and "\<And>now c k. cache_valid c \<Longrightarrow> k \<in> K \<Longrightarrow> endpts_view c k = None \<Longrightarrow> endpts_view (snd (get now c)) k = None"
  shows "keeps (client_inv P props K) (cache_read E get)"
  using assms
  by (auto simp: keeps_def client_inv_def cache_read_def reads_keep_def cache_valid_def case_prod_beta)

lemma keeps_cache_write:
  assumes "reads_keep E P"
    and "\<And>now c. scLru (put now c) = scLru c"
    and "\<And>now c k. cache_valid c \<Longrightarrow> k \<in> K \<Longrightarrow> endpts_view c k = None \<Longrightarrow> endpts_view (put now c) k = None"
  shows "keeps (client_inv P props K) (cache_write E put)"
  using assms
  by (auto simp: keeps_def client_inv_def cache_write_def reads_keep_def cache_valid_def case_prod_beta)

lemma default_table_keeps_endpoints [simp]:
  "endpts_view (snd (GetNamespaceMap now c)) k = endpts_view c k"
  "endpts_view (CacheNamespaceMap m now c) k = endpts_view c k"
  "endpts_view (snd (GetServiceIdMap ns now c)) k = endpts_view c k"
  "endpts_view (CacheServiceIdMap ns ids now c) k = endpts_view c k"
proof -
  have same: "endpts_view c' k = endpts_view c k"
    if "scLru c' = scLru c" "scEndpoints c' = scEndpoints c" for c' :: "'a sd_cache"
    using that by (simp add: endpts_view_def)
  show "endpts_view (snd (GetNamespaceMap now c)) k = endpts_view c k"
    by (rule same) (simp_all add: GetNamespaceMap_def split: prod.splits option.splits cache_entry.splits)
  show "endpts_view (snd (GetServiceIdMap ns now c)) k = endpts_view c k"
    by (rule same) (simp_all add: GetServiceIdMap_def Let_def split: prod.splits option.splits cache_entry.splits)
qed (simp_all add: endpts_view_def CacheNamespaceMap_def CacheServiceIdMap_def)

lemma keeps_getNamespace:
  assumes "reads_keep E P"
  shows "keeps (client_inv P props K) (getNamespace E n)"
  unfolding getNamespace_def getNamespaces_def
  using assms by (intro keeps_rules keeps_cache_read keeps_cache_write) (simp_all add: reads_keep_def)

lemma keeps_getServiceIds:
  assumes "reads_keep E P"
  shows "keeps (client_inv P props K) (getServiceIds E n)"
  unfolding getServiceIds_def
  using assms keeps_getNamespace [OF assms]
  by (intro keeps_rules keeps_cache_read keeps_cache_write) (simp_all add: reads_keep_def)

lemma keeps_getServiceId:
  assumes "reads_keep E P"
  shows "keeps (client_inv P props K) (getServiceId E n v)"
  unfolding getServiceId_def
  by (intro keeps_rules keeps_getServiceIds [OF assms])


section \<open>Endpoints that are registered are found\<close>

text \<open>
  What the client relies on in Cloud Map, for one service. \<open>accepted i a opId w\<close>: the registration of
  instance \<open>i\<close> with attributes \<open>a\<close> is operation \<open>opId\<close>; \<open>registered i a w\<close>: instance \<open>i\<close> has attributes
  \<open>a\<close>; \<open>known w\<close>: the service is there. A registration is only undone by one of the same instance with
  other attributes, and discovery lists the registered instances of the cluster set.
\<close>

definition registry_contract ::
  "'w client_env \<Rightarrow> string \<Rightarrow> string \<Rightarrow> string \<Rightarrow> (string \<Rightarrow> attrs \<Rightarrow> string \<Rightarrow> 'w \<Rightarrow> bool)
    \<Rightarrow> (string \<Rightarrow> attrs \<Rightarrow> 'w \<Rightarrow> bool) \<Rightarrow> ('w \<Rightarrow> bool) \<Rightarrow> bool" where
  "registry_contract E ns svc svcId accepted registered known \<longleftrightarrow>
     (let A = ceApi E in
      (\<forall>i a w opId w'. api_RegisterInstance A svcId i a w = (Ok opId, w') \<longrightarrow> accepted i a opId w')
      \<and> (\<forall>i a opId w op w'. accepted i a opId w
           \<longrightarrow> poll_condition (api_GetOperation A) opId w = (Ok (Some op), w') \<longrightarrow> registered i a w')
      \<and> (\<forall>i a i' a' opId. i' \<noteq> i \<or> a' = a \<longrightarrow> keeps (accepted i a opId) (api_RegisterInstance A svcId i' a')
           \<and> keeps (registered i a) (api_RegisterInstance A svcId i' a'))
      \<and> (\<forall>i a opId opId'. keeps (accepted i a opId) (poll_condition (api_GetOperation A) opId')
           \<and> keeps (registered i a) (poll_condition (api_GetOperation A) opId'))
      \<and> (\<forall>i a opId'. keeps known (api_RegisterInstance A svcId i a)
           \<and> keeps known (poll_condition (api_GetOperation A) opId'))
      \<and> reads_keep E known \<and> (\<forall>i a. reads_keep E (registered i a))
      \<and> (\<forall>i a cs w insts w'. registered i a w \<and> known w \<and> fmlookup a ClusterSetIdAttr = Some cs
           \<longrightarrow> api_DiscoverInstances A ns svc (Some (fmupd ClusterSetIdAttr cs fmempty)) w = (Ok insts, w')
           \<longrightarrow> \<lparr>instInstanceId = Some i, instAttributes = a\<rparr> \<in> set insts))"

lemma registry_contractD:
  assumes "registry_contract E ns svc svcId accepted registered known"
  shows "api_RegisterInstance (ceApi E) svcId i a w = (Ok opId, w') \<Longrightarrow> accepted i a opId w'"
    and "accepted i a opId w \<Longrightarrow> poll_condition (api_GetOperation (ceApi E)) opId w = (Ok (Some op), w')
      \<Longrightarrow> registered i a w'"
    and "i' \<noteq> i \<or> a' = a \<Longrightarrow> keeps (accepted i a opId) (api_RegisterInstance (ceApi E) svcId i' a')"
    and "i' \<noteq> i \<or> a' = a \<Longrightarrow> keeps (registered i a) (api_RegisterInstance (ceApi E) svcId i' a')"
    and "keeps (accepted i a opId) (poll_condition (api_GetOperation (ceApi E)) opId')"
    and "keeps (registered i a) (poll_condition (api_GetOperation (ceApi E)) opId')"
    and "keeps known (api_RegisterInstance (ceApi E) svcId i a)"
    and "keeps known (poll_condition (api_GetOperation (ceApi E)) opId')"
    and "reads_keep E known" and "reads_keep E (registered i a)"
    and "\<lbrakk>registered i a w; known w; fmlookup a ClusterSetIdAttr = Some cs;
      api_DiscoverInstances (ceApi E) ns svc (Some (fmupd ClusterSetIdAttr cs fmempty)) w = (Ok insts, w')\<rbrakk>
      \<Longrightarrow> \<lparr>instInstanceId = Some i, instAttributes = a\<rparr> \<in> set insts"
  using assms unfolding registry_contract_def Let_def by (elim conjE, (simp; fail | meson))+

definition register_never_panics :: "'w sd_api \<Rightarrow> string \<Rightarrow> bool" where
  "register_never_panics A svcId \<longleftrightarrow>
     (\<forall>i a w. fst (api_RegisterInstance A svcId i a w) \<noteq> Panic)
     \<and> (\<forall>opId w. fst (poll_condition (api_GetOperation A) opId w) \<noteq> Panic)"

abbreviation register_providers :: "'w client_env \<Rightarrow> string \<Rightarrow> endpoint list \<Rightarrow> ('w \<Rightarrow> string outcome \<times> 'w) list" where
  "register_providers E svcId es \<equiv>
     map (\<lambda>e. api_RegisterInstance (ceApi E) svcId (epId e) (GetCloudMapAttributes e)) es"

lemma register_effects:
  assumes con: "registry_contract E ns svc svcId accepted registered known" and d: "distinct (map epId es)"
  shows "operation_effects (poller_of E (register_providers E svcId es) w)
    (\<lambda>i opId w. i < length es \<longrightarrow> accepted (epId (es ! i)) (GetCloudMapAttributes (es ! i)) opId w)
    (\<lambda>i w. i < length es \<longrightarrow> registered (epId (es ! i)) (GetCloudMapAttributes (es ! i)) w)"
proof -
  let ?A = "ceApi E" and ?at = GetCloudMapAttributes
  note con' = registry_contractD [OF con]
  have other: "epId (es ! j) \<noteq> epId (es ! i) \<or> ?at (es ! j) = ?at (es ! i)" if "i < length es" "j < length es" for i j
    using d that by (metis distinct_conv_nth length_map nth_map)
  have k: "keeps (accepted (epId (es ! i)) (?at (es ! i)) opId) p
      \<and> keeps (registered (epId (es ! i)) (?at (es ! i))) p"
    if i: "i < length es" and p: "p \<in> set (register_providers E svcId es)" for i p opId
  proof -
    from p obtain j where "j < length es" "p = api_RegisterInstance ?A svcId (epId (es ! j)) (?at (es ! j))"
      by (auto simp: in_set_conv_nth)
    then show ?thesis using con'(3,4) [OF other [OF i]] by simp
  qed
  show ?thesis
    unfolding operation_effects_def poller_of_def poller_env.simps
  proof (intro conjI allI impI ballI)
    fix i w opId w'
    assume "i < length (register_providers E svcId es)" "(register_providers E svcId es ! i) w = (Ok opId, w')" "i < length es"
    then show "accepted (epId (es ! i)) (?at (es ! i)) opId w'" using con'(1) by simp
  next
    fix i opId w op w'
    assume "i < length es \<longrightarrow> accepted (epId (es ! i)) (?at (es ! i)) opId w" "i < length es"
      "poll_condition (api_GetOperation ?A) opId w = (Ok (Some op), w')"
    then show "registered (epId (es ! i)) (?at (es ! i)) w'" using con'(2) by simp
  next
    fix p w i opId
    assume p: "p \<in> set (register_providers E svcId es)" and i: "i < length es"
    { assume "i < length es \<longrightarrow> accepted (epId (es ! i)) (?at (es ! i)) opId w"
      then show "accepted (epId (es ! i)) (?at (es ! i)) opId (snd (p w))"
        using k [OF i p] i by (simp add: keeps_def) }
    { assume "i < length es \<longrightarrow> registered (epId (es ! i)) (?at (es ! i)) w"
      then show "registered (epId (es ! i)) (?at (es ! i)) (snd (p w))"
        using k [OF i p] i by (simp add: keeps_def) }
  next
    fix opId' w i opId
    assume i: "i < length es"
    { assume "i < length es \<longrightarrow> accepted (epId (es ! i)) (?at (es ! i)) opId w"
      then show "accepted (epId (es ! i)) (?at (es ! i)) opId (snd (poll_condition (api_GetOperation ?A) opId' w))"
        using con'(5) i by (simp add: keeps_def) }
    { assume "i < length es \<longrightarrow> registered (epId (es ! i)) (?at (es ! i)) w"
      then show "registered (epId (es ! i)) (?at (es ! i)) (snd (poll_condition (api_GetOperation ?A) opId' w))"
        using con'(6) i by (simp add: keeps_def) }
  qed
qed

lemma poller_never_panics:
  assumes "register_never_panics (ceApi E) svcId"
  shows "api_never_panics (poller_of E (register_providers E svcId es) w)"
  using assms by (auto simp: register_never_panics_def api_never_panics_def poller_of_def)

lemma run_operations_Ok:
  assumes "run_operations E ns svc msg providers s = (Ok (), s')"
  obtains w' where "SubmitAndAwait (poller_of E providers (clWorld s)) (ceSchedule E (clWorld s)) (clWorld s) = (Ok (), w')"
    and "s' = s\<lparr>clCache := EvictEndpoints ns svc (clCache s), clWorld := w'\<rparr>"
  using assms
  by (auto simp: run_operations_def in_world_def split: prod.splits outcome.splits)

lemma RegisterEndpoints_Ok:
  assumes con: "registry_contract E ns svc svcId accepted registered known"
    and np: "register_never_panics (ceApi E) svcId" and d: "distinct (map epId es)" and "es \<noteq> []"
    and id: "getServiceId E ns svc s = (Ok svcId, s0)" and known: "known (clWorld s0)"
    and ok: "RegisterEndpoints E ns svc es s = (Ok (), s')"
  shows "\<forall>e \<in> set es. registered (epId e) (GetCloudMapAttributes e) (clWorld s')"
    and "known (clWorld s')" and "clCache s' = EvictEndpoints ns svc (clCache s0)" and "clProps s' = clProps s0"
proof -
  let ?E = "poller_of E (register_providers E svcId es) (clWorld s0)"
  from ok id \<open>es \<noteq> []\<close> have "run_operations E ns svc ''failure while registering endpoints''
      (register_providers E svcId es) s0 = (Ok (), s')"
    by (auto simp: RegisterEndpoints_def bind_ok_eq_Ok)
  then obtain w' where run: "SubmitAndAwait ?E (ceSchedule E (clWorld s0)) (clWorld s0) = (Ok (), w')"
    and s': "s' = s0\<lparr>clCache := EvictEndpoints ns svc (clCache s0), clWorld := w'\<rparr>"
    by (rule run_operations_Ok)
  have np': "api_never_panics ?E" using np by (rule poller_never_panics)
  have "i < length es \<longrightarrow> registered (epId (es ! i)) (GetCloudMapAttributes (es ! i)) w'"
    if "i < length (peProviders ?E)" for i
    using SubmitAndAwait_applied [OF register_effects [OF con d] np' run that] .
  then show "\<forall>e \<in> set es. registered (epId e) (GetCloudMapAttributes e) (clWorld s')"
    by (auto simp: s' poller_of_def in_set_conv_nth)
  have "keeps known (SubmitAndAwait ?E (ceSchedule E (clWorld s0)))"
    using registry_contractD(7,8) [OF con] np' by (intro keeps_SubmitAndAwait) (auto simp: poller_of_def)
  from keepsD [OF this known run] show "known (clWorld s')" by (simp add: s')
qed (use ok id \<open>es \<noteq> []\<close> in \<open>auto simp: RegisterEndpoints_def bind_ok_eq_Ok elim!: run_operations_Ok\<close>)


lemma decode_instances_mem:
  assumes "decode_instances insts = Ok endpts" and "inst \<in> set insts" and "NewEndpointFromInstance inst = Ok e"
  shows "e \<in> set endpts"
  using assms
  by (induction insts arbitrary: endpts) (auto split: outcome.splits)

lemma endpoints_miss:
  assumes "reads_keep E P" and "plain_namespace (ns, svc)" and inv: "client_inv P props {(ns, svc)} s"
    and read: "cache_read E (GetCachedEndpoints ns svc) s = (r, s')"
  shows "r = Ok None" and "client_inv P props {(ns, svc)} s'"
proof -
  obtain now w v c where "ceNow E (clWorld s) = (now, w)" and g: "GetCachedEndpoints ns svc now (clCache s) = (v, c)"
    by fastforce
  with read have r: "r = Ok v" "s' = s\<lparr>clCache := c, clWorld := w\<rparr>" by (simp_all add: cache_read_def)
  have valid: "cache_valid (clCache s)" "endpts_view (clCache s) (ns, svc) = None"
    using inv by (simp_all add: client_inv_def)
  have "v = None"
    using endpts_cache.get_value [OF valid(1) assms(2), of now] valid(2) g by (simp add: unexpired_def)
  then show "r = Ok None" by (simp add: r)
  have "keeps (client_inv P props {(ns, svc)}) (cache_read E (GetCachedEndpoints ns svc))"
  proof (rule keeps_cache_read [OF assms(1)])
    fix now c k
    assume "cache_valid c" "k \<in> {(ns, svc)}" "endpts_view c k = None"
    then show "endpts_view (snd (GetCachedEndpoints ns svc now c)) k = None"
      using endpts_cache.get_view [OF _ assms(2) assms(2), of c now] by simp
  qed simp
  then show "client_inv P props {(ns, svc)} s'" using inv read by (rule keepsD)
qed

lemma client_properties_valid:
  "props_IsValid (clProps s) \<Longrightarrow> client_properties E s = (Ok (clProps s), s)"
  by (simp add: client_properties_def GetClusterProperties_def)

lemma GetService_uncached:
  assumes rk: "reads_keep E P" and plain: "plain_namespace (ns, svc)" and pv: "props_IsValid props"
    and inv: "client_inv P props {(ns, svc)} s" and ok: "GetService E ns svc s = (Ok service, s')"
  obtains w insts w' where "P w"
    and "api_DiscoverInstances (ceApi E) ns svc (Some (fmupd ClusterSetIdAttr (cpClusterSetId props) fmempty)) w
      = (Ok insts, w')"
    and "decode_instances insts = Ok (svcEndpoints service)"
proof -
  from ok obtain s1 found where s1: "cache_read E (GetCachedEndpoints ns svc) s = (Ok found, s1)"
    and rest1: "(case found of Some endpts \<Rightarrow> return_value (make_service ns svc endpts) | None \<Rightarrow>
      bind_ok (getServiceId E ns svc) (\<lambda>_. bind_ok (getEndpoints E ns svc)
        (\<lambda>endpts. return_value (make_service ns svc endpts)))) s1 = (Ok service, s')"
    unfolding GetService_def by (rule bind_ok_OkE)
  note m1 = endpoints_miss [OF rk plain inv s1]
  from m1(1) rest1 obtain i s2 endpts where s2: "getServiceId E ns svc s1 = (Ok i, s2)"
    and e: "getEndpoints E ns svc s2 = (Ok endpts, s')" and sv: "service = make_service ns svc endpts"
    by (auto simp: bind_ok_eq_Ok)
  have inv2: "client_inv P props {(ns, svc)} s2" using keeps_getServiceId [OF rk] m1(2) s2 by (rule keepsD)
  from e obtain s3 found3 where s3: "cache_read E (GetCachedEndpoints ns svc) s2 = (Ok found3, s3)"
    and rest3: "(case found3 of Some endpts \<Rightarrow> return_value endpts | None \<Rightarrow>
      bind_ok (client_properties E) (\<lambda>props. bind_ok (in_world (api_DiscoverInstances (ceApi E) ns svc
        (Some (fmupd ClusterSetIdAttr (cpClusterSetId props) fmempty)))) (\<lambda>insts.
          bind_ok (Pair (decode_instances insts)) (\<lambda>endpts.
            bind_ok (cache_write E (CacheEndpoints ns svc endpts)) (\<lambda>_. return_value endpts))))) s3 = (Ok endpts, s')"
    unfolding getEndpoints_def by (rule bind_ok_OkE)
  note m3 = endpoints_miss [OF rk plain inv2 s3]
  have props: "client_properties E s3 = (Ok props, s3)" and "P (clWorld s3)"
    using m3(2) pv client_properties_valid [of s3 E] by (simp_all add: client_inv_def)
  from rest3 m3(1) props obtain insts s4 where
    "in_world (api_DiscoverInstances (ceApi E) ns svc (Some (fmupd ClusterSetIdAttr (cpClusterSetId props) fmempty))) s3
      = (Ok insts, s4)" and "decode_instances insts = Ok endpts"
    by (auto simp: bind_ok_eq_Ok)
  then show thesis
    using that [OF \<open>P (clWorld s3)\<close>] sv by (auto simp: in_world_def make_service_def split: prod.splits)
qed

lemma keeps_conj_reads: "\<lbrakk>reads_keep E P; \<And>e. reads_keep E (Q e)\<rbrakk> \<Longrightarrow> reads_keep E (\<lambda>w. P w \<and> (\<forall>e \<in> S. Q e w))"
  by (simp add: reads_keep_def keeps_def)

lemma register_then_get_lemma:
  assumes con: "registry_contract E ns svc svcId accepted registered known"
    and np: "register_never_panics (ceApi E) svcId" and d: "distinct (map epId es)" and ne: "es \<noteq> []"
    and plain: "CHR '':'' \<notin> set ns" and valid: "cache_valid (clCache s)"
    and pv: "props_IsValid (clProps s)" and known: "known (clWorld s)"
    and reg: "\<forall>e \<in> set es. registrable e \<and> epClusterSetId e = cpClusterSetId (clProps s)"
    and id: "fst (getServiceId E ns svc s) = Ok svcId"
    and ok: "RegisterEndpoints E ns svc es s = (Ok (), s1)"
    and get: "GetService E ns svc s1 = (Ok service, s2)"
  shows "set es \<subseteq> set (svcEndpoints service)"
proof -
  let ?P = "\<lambda>w. known w \<and> (\<forall>e \<in> set es. registered (epId e) (GetCloudMapAttributes e) w)"
  obtain s0 where s0: "getServiceId E ns svc s = (Ok svcId, s0)" using id by (metis prod.collapse)
  have "client_inv known (clProps s) {} s" using valid known by (simp add: client_inv_def)
  with keeps_getServiceId [OF registry_contractD(9) [OF con]] have inv0: "client_inv known (clProps s) {} s0"
    using s0 by (rule keepsD)
  note done' = RegisterEndpoints_Ok [OF con np d ne s0 _ ok]
  have kn0: "known (clWorld s0)" using inv0 by (simp add: client_inv_def)
  have plain': "plain_namespace (ns, svc)" using plain by (simp add: plain_namespace_def)
  have valid0: "cache_valid (clCache s0)" using inv0 by (simp add: client_inv_def)
  have "client_inv ?P (clProps s) {(ns, svc)} s1"
    using done' kn0 inv0 endpts_cache.evict_same [OF valid0 plain'] endpts_cache.store_valid(2) [OF valid0, of "(ns, svc)"]
    by (simp add: client_inv_def)
  moreover have "reads_keep E ?P"
    by (rule keeps_conj_reads) (rule registry_contractD(9,10) [OF con])+
  ultimately obtain w insts w' where w: "?P w"
    and dis: "api_DiscoverInstances (ceApi E) ns svc (Some (fmupd ClusterSetIdAttr (cpClusterSetId (clProps s)) fmempty)) w
      = (Ok insts, w')" and dec: "decode_instances insts = Ok (svcEndpoints service)"
    using GetService_uncached [OF _ plain' pv _ get] by blast
  show ?thesis
  proof
    fix e assume e: "e \<in> set es"
    then have "as_instance e \<in> set insts"
      unfolding as_instance_def using w reg dis
      by (intro registry_contractD(11) [OF con _ _ registered_cluster_set]) auto
    with dec show "e \<in> set (svcEndpoints service)"
      by (rule decode_instances_mem) (use e reg decode_registered in blast)
  qed
qed


section \<open>Properties\<close>

text \<open>
  C22: when \<open>RegisterEndpoints\<close> has returned nil, under any interleaving of its goroutines, the next
  \<open>GetService\<close> that succeeds returns each of the endpoints, with every field as it was registered. The
  hypotheses are the contract with Cloud Map, valid cluster properties, and endpoints with distinct ids
  that the format can carry.
\<close>

theorem register_then_get:
  assumes "registry_contract E ns svc svcId accepted registered known"
    and "register_never_panics (ceApi E) svcId" and "distinct (map epId es)" and "es \<noteq> []"
    and "CHR '':'' \<notin> set ns" and "cache_valid (clCache s)"
    and "props_IsValid (clProps s)" and "known (clWorld s)"
    and "\<forall>e \<in> set es. registrable e \<and> epClusterSetId e = cpClusterSetId (clProps s)"
    and "fst (getServiceId E ns svc s) = Ok svcId"
    and "RegisterEndpoints E ns svc es s = (Ok (), s1)"
    and "GetService E ns svc s1 = (Ok service, s2)"
  shows "set es \<subseteq> set (svcEndpoints service)"
  using assms by (rule register_then_get_lemma)

text \<open>
  An instance that cannot be decoded hides no other: when every instance has an id, the loop
  succeeds and returns the endpoints of those that decode, in order.
\<close>

theorem undecodable_instances_are_skipped:
  assumes "\<forall>inst \<in> set insts. instInstanceId inst \<noteq> None"
  shows "\<exists>endpts. decode_instances insts = Ok endpts
    \<and> map Ok endpts = filter is_ok (map NewEndpointFromInstance insts)"
  using assms
proof (induction insts)
  case Nil
  show ?case by simp
next
  case (Cons inst insts)
  then obtain endpts where e: "decode_instances insts = Ok endpts"
    "map Ok endpts = filter is_ok (map NewEndpointFromInstance insts)" by auto
  have "NewEndpointFromInstance inst \<noteq> Panic"
    using Cons.prems by (simp add: decoder_never_panics)
  with e show ?case by (cases "NewEndpointFromInstance inst") auto
qed

text \<open>
  A namespace that Cloud Map does not have is reported as not found by \<open>GetService\<close> and
  \<open>RegisterEndpoints\<close>, is no error for \<open>ListServices\<close>, which returns no services, and in none of these
  cases is anything written: the world is as the read of the namespaces left it.
\<close>

theorem missing_namespace:
  assumes "getServiceIds E ns s = (Err (NotFoundError msg), s')" and "es \<noteq> []"
  shows "ListServices E ns s = (Ok [], s')
    \<and> RegisterEndpoints E ns svc es s = (Err (NotFoundError msg), s')
    \<and> DeleteEndpoints E ns svc es s = (Err (NotFoundError msg), s')
    \<and> IsNotFound (Some (NotFoundError msg))"
proof -
  have "getServiceId E ns svc s = (Err (NotFoundError msg), s')"
    using assms(1) by (simp add: getServiceId_def)
  then show ?thesis
    using assms by (simp add: ListServices_def RegisterEndpoints_def DeleteEndpoints_def)
qed

text \<open>
  \<open>CreateService\<close> creates a namespace exactly when looking it up says that it does not exist. An
  error of another kind is returned and nothing is created; a namespace that is found is used as it
  is; a missing one is created, and the service goes into the namespace whose id the finished
  operation names.
\<close>

theorem create_service_creates_namespace_only_if_missing:
  assumes "getNamespace E ns s = (r, s1)"
  shows "client_CreateService E ns svc s =
    (case r of
       Ok namespace \<Rightarrow>
         bind_ok (in_world (api_CreateService (ceApi E) namespace svc)) (\<lambda>_. cache_evict (EvictServiceIdMap ns)) s1
     | Err e \<Rightarrow>
         (if IsNotFound (Some e)
          then bind_ok (createNamespace E ns) (\<lambda>namespace.
            bind_ok (in_world (api_CreateService (ceApi E) namespace svc)) (\<lambda>_. cache_evict (EvictServiceIdMap ns))) s1
          else (Err e, s1))
     | Panic \<Rightarrow> (Panic, s1))"
  using assms
  by (cases r) (simp_all add: client_CreateService_def IsUnknown_def IsNotFound_def bind_ok_def)

section \<open>An example\<close>

definition example_client_env :: "cloud client_env" where
  "example_client_env =
     \<lparr>ceApi = example_api, ceListProps = (\<lambda>w. (Ok [], w)), ceNow = (\<lambda>w. (0, w)),
      ceOrder = (\<lambda>w. sorted_order), ceSchedule = (\<lambda>w. []), cePolls = (\<lambda>w i. 30)\<rparr>"

definition example_client :: "(string \<Rightarrow> (cache_entry \<times> int) option, cloud) client" where
  "example_client =
     \<lparr>clCache = CacheServiceIdMap ''default'' (fmupd ''web'' ''srv-1'' fmempty) 0
        (NewDefaultServiceDiscoveryClientCache example_lru),
      clProps = \<lparr>cpClusterId = ''c1'', cpClusterSetId = ''set1''\<rparr>, clWorld = example_cloud\<rparr>"

definition example_registered :: "string \<Rightarrow> attrs \<Rightarrow> cloud \<Rightarrow> bool" where
  "example_registered i a w \<longleftrightarrow>
     (''srv-1'', \<lparr>instInstanceId = Some i, instAttributes = a\<rparr>) \<in> set (cloudInstances w)"

definition example_known :: "cloud \<Rightarrow> bool" where
  "example_known w \<longleftrightarrow> cloud_service_id w ''default'' ''web'' = Some ''srv-1''"

lemma example_register:
  "api_RegisterInstance example_api svcId i a w =
     (if cloudOpen w then
        (Ok (''op-'' @ i), w\<lparr>cloudInstances := (svcId, \<lparr>instInstanceId = Some i, instAttributes = a\<rparr>)
            # filter (\<lambda>(j, x). \<not> (j = svcId \<and> instInstanceId x = Some i)) (cloudInstances w)\<rparr>)
      else (Err (ErrText ''rate: Wait would exceed deadline''), w))"
  by (simp add: api_RegisterInstance_def bind_ok_def example_wait)
    (simp add: example_api_def NewServiceDiscoveryApiFromConfig_def example_facade_def id_result_def aws_ToString_def)

lemma example_poll:
  "poll_condition (api_GetOperation example_api) opId w =
     (if cloudOpen w then
        (Ok (Some \<lparr>opStatus = ''SUCCESS'', opErrorMessage = None, opTargets = fmupd ''NAMESPACE'' opId fmempty\<rparr>), w)
      else (Err (ErrText ''rate: Wait would exceed deadline''), w))"
  by (simp add: poll_condition_def api_GetOperation_def bind_ok_def example_wait)
    (simp add: example_api_def NewServiceDiscoveryApiFromConfig_def example_facade_def OperationStatusSuccess_def)

lemma example_discover:
  "api_DiscoverInstances example_api ns svc q w =
     (if cloudOpen w then
        (case cloud_service_id w ns svc of
           None \<Rightarrow> (Err (ErrText ''service not found''), w)
         | Some i \<Rightarrow> (Ok (map snd (filter (\<lambda>s. fst s = i) (cloudInstances w))), w))
      else (Err (ErrText ''rate: Wait would exceed deadline''), w))"
  by (simp add: api_DiscoverInstances_def bind_ok_def example_wait)
    (simp add: example_api_def NewServiceDiscoveryApiFromConfig_def example_facade_def)

lemma example_reads_keep: "reads_keep example_client_env P"
  by (simp add: reads_keep_def keeps_def example_client_env_def api_GetNamespaceMap_def api_GetServiceIdMap_def
      bind_ok_def example_wait)
    (simp add: example_api_def NewServiceDiscoveryApiFromConfig_def example_facade_def)

lemma example_contract:
  "registry_contract example_client_env ''default'' ''web'' ''srv-1'' (\<lambda>i a opId. example_registered i a)
     example_registered example_known"
proof -
  have E: "ceApi example_client_env = example_api" by (simp add: example_client_env_def)
  have kk: "cloud_service_id (w\<lparr>cloudInstances := x\<rparr>) = cloud_service_id w" for w :: cloud and x
    by (intro ext) (simp add: cloud_service_id_def split: option.splits)
  show ?thesis
    unfolding registry_contract_def Let_def E
    by (auto simp: example_reads_keep keeps_def example_register example_poll example_discover kk
        example_registered_def example_known_def split: if_splits)
      (force simp: example_registered_def)
qed

lemma example_no_panic: "register_never_panics example_api svcId"
  by (simp add: register_never_panics_def example_register example_poll)


lemma example_service_id:
  "getServiceId example_client_env ''default'' ''web'' example_client = (Ok ''srv-1'', example_client)"
  by (simp add: getServiceId_def getServiceIds_def bind_ok_def cache_read_def example_client_env_def example_client_def
      GetServiceIdMap_def CacheServiceIdMap_def NewDefaultServiceDiscoveryClientCache_def
      NewServiceDiscoveryClientCache_def example_lru_def unexpired_def second_def Let_def)

abbreviation example_es :: "endpoint list" where
  "example_es \<equiv> [example_endpoint ''10.0.0.1'' ''c1'']"

lemma example_cloud_open: "cloudOpen example_cloud" "cloudInstances example_cloud = []"
  "example_known example_cloud"
  by (simp_all add: example_cloud_def example_known_def cloud_service_id_def aws_ToString_def)

lemma example_submit:
  "SubmitAndAwait (poller_of example_client_env (register_providers example_client_env ''srv-1'' example_es) example_cloud)
     [] example_cloud
   = (Ok (), example_cloud\<lparr>cloudInstances := [(''srv-1'', as_instance (example_endpoint ''10.0.0.1'' ''c1''))]\<rparr>)"
proof -
  have E: "ceApi example_client_env = example_api" "cePolls example_client_env w i = 30" for w i
    by (simp_all add: example_client_env_def)
  show ?thesis
    by (simp add: SubmitAndAwait_def poller_of_def E poller_init_def routine_step_def poller_threads_def
        await_result_def example_register example_poll example_cloud_open as_instance_def numeral_nat)
qed


definition example_client_after :: "(string \<Rightarrow> (cache_entry \<times> int) option, cloud) client" where
  "example_client_after = example_client
     \<lparr>clCache := EvictEndpoints ''default'' ''web'' (clCache example_client),
      clWorld := example_cloud\<lparr>cloudInstances := [(''srv-1'', as_instance (example_endpoint ''10.0.0.1'' ''c1''))]\<rparr>\<rparr>"

lemma example_register_run:
  "RegisterEndpoints example_client_env ''default'' ''web'' example_es example_client = (Ok (), example_client_after)"
proof -
  have E: "ceSchedule example_client_env w = []" "clWorld example_client = example_cloud" for w
    by (simp_all add: example_client_env_def example_client_def)
  show ?thesis
    using example_submit
    by (simp add: RegisterEndpoints_def example_service_id run_operations_def in_world_def E example_client_after_def)
qed

lemma example_after:
  "cache_read example_client_env (GetCachedEndpoints ''default'' ''web'') example_client_after = (Ok None, example_client_after)"
  "getServiceId example_client_env ''default'' ''web'' example_client_after = (Ok ''srv-1'', example_client_after)"
  "clProps example_client_after = \<lparr>cpClusterId = ''c1'', cpClusterSetId = ''set1''\<rparr>"
  "cloudOpen (clWorld example_client_after)"
  "cloudInstances (clWorld example_client_after) = [(''srv-1'', as_instance (example_endpoint ''10.0.0.1'' ''c1''))]"
  "cloud_service_id (clWorld example_client_after) ''default'' ''web'' = Some ''srv-1''"
proof -
  note defs = example_client_after_def example_client_def cache_read_def example_client_env_def EvictEndpoints_def
    GetCachedEndpoints_def GetServiceIdMap_def CacheServiceIdMap_def NewDefaultServiceDiscoveryClientCache_def
    NewServiceDiscoveryClientCache_def example_lru_def unexpired_def second_def
  show "cache_read example_client_env (GetCachedEndpoints ''default'' ''web'') example_client_after = (Ok None, example_client_after)"
    by (simp add: defs Let_def)
  show "getServiceId example_client_env ''default'' ''web'' example_client_after = (Ok ''srv-1'', example_client_after)"
    by (simp add: getServiceId_def getServiceIds_def bind_ok_def defs Let_def)
  show "clProps example_client_after = \<lparr>cpClusterId = ''c1'', cpClusterSetId = ''set1''\<rparr>"
    by (simp add: defs)
  show "cloudOpen (clWorld example_client_after)" by (simp add: defs example_cloud_def)
  show "cloudInstances (clWorld example_client_after) = [(''srv-1'', as_instance (example_endpoint ''10.0.0.1'' ''c1''))]"
    by (simp add: defs)
  show "cloud_service_id (clWorld example_client_after) ''default'' ''web'' = Some ''srv-1''"
    by (simp add: defs example_cloud_def cloud_service_id_def aws_ToString_def)
qed

lemma example_get_run:
  obtains s2 where "GetService example_client_env ''default'' ''web'' example_client_after
    = (Ok (make_service ''default'' ''web'' example_es), s2)"
proof -
  have E: "ceApi example_client_env = example_api" by (simp add: example_client_env_def)
  have v: "client_properties example_client_env example_client_after
      = (Ok \<lparr>cpClusterId = ''c1'', cpClusterSetId = ''set1''\<rparr>, example_client_after)"
    by (simp add: client_properties_def GetClusterProperties_def example_after props_IsValid_def)
  have d: "in_world (api_DiscoverInstances example_api ''default'' ''web'' q) example_client_after
      = (Ok [as_instance (example_endpoint ''10.0.0.1'' ''c1'')], example_client_after)" for q
    by (simp add: in_world_def example_discover example_after)
  have "\<exists>s2. GetService example_client_env ''default'' ''web'' example_client_after
      = (Ok (make_service ''default'' ''web'' example_es), s2)"
    by (simp add: GetService_def getEndpoints_def bind_ok_def example_after v d E
        decode_registered [OF example_registrable] cache_write_def split: prod.splits)
  then show thesis using that by blast
qed

theorem register_then_get_witness:
  "RegisterEndpoints example_client_env ''default'' ''web'' example_es example_client = (Ok (), example_client_after)
   \<and> (\<exists>service s2. GetService example_client_env ''default'' ''web'' example_client_after = (Ok service, s2)
        \<and> set example_es \<subseteq> set (svcEndpoints service))"
proof -
  obtain s2 where g: "GetService example_client_env ''default'' ''web'' example_client_after
    = (Ok (make_service ''default'' ''web'' example_es), s2)" by (rule example_get_run)
  have c: "cache_valid (clCache example_client)"
    by (simp add: cache_valid_def example_client_def NewDefaultServiceDiscoveryClientCache_def
        NewServiceDiscoveryClientCache_def example_lru_laws)
  have p: "clProps example_client = \<lparr>cpClusterId = ''c1'', cpClusterSetId = ''set1''\<rparr>"
    "clWorld example_client = example_cloud" by (simp_all add: example_client_def)
  have e: "\<forall>e \<in> set example_es. registrable e \<and> epClusterSetId e = cpClusterSetId (clProps example_client)"
    using example_registrable by (simp add: p example_endpoint_def)
  have "set example_es \<subseteq> set (svcEndpoints (make_service ''default'' ''web'' example_es))"
    by (rule register_then_get [OF example_contract _ _ _ _ c _ _ e _ example_register_run g])
      (simp_all add: example_client_env_def [THEN arg_cong [of _ _ ceApi]] example_no_panic p props_IsValid_def
        example_cloud_open example_service_id)
  with g example_register_run show ?thesis by blast
qed

theorem undecodable_instances_are_skipped_witness:
  "\<exists>endpts. decode_instances [\<lparr>instInstanceId = Some ''i-1'', instAttributes = fmempty\<rparr>,
      as_instance (example_endpoint ''10.0.0.1'' ''c1'')] = Ok endpts
    \<and> map Ok endpts = filter is_ok (map NewEndpointFromInstance
        [\<lparr>instInstanceId = Some ''i-1'', instAttributes = fmempty\<rparr>, as_instance (example_endpoint ''10.0.0.1'' ''c1'')])"
  by (rule undecodable_instances_are_skipped) (simp add: as_instance_def)

theorem missing_namespace_witness:
  "\<exists>s'. ListServices example_client_env ''other'' example_client = (Ok [], s')
    \<and> RegisterEndpoints example_client_env ''other'' ''web'' example_es example_client
        = (Err (NotFoundError ''namespace: other''), s')"
proof -
  have w: "api_GetNamespaceMap example_api example_cloud
      = (Ok (foldl add_namespace fmempty (cloudNamespaces example_cloud)), example_cloud)"
    by (simp add: api_GetNamespaceMap_def bind_ok_def example_wait example_cloud_open)
      (simp add: example_api_def NewServiceDiscoveryApiFromConfig_def example_facade_def)
  have none: "fmlookup (foldl add_namespace fmempty (cloudNamespaces example_cloud)) ''other'' = None"
    by (simp only: lookup_add_namespaces) (simp add: example_cloud_def listed_as_def aws_ToString_def)
  have "\<exists>s'. getServiceIds example_client_env ''other'' example_client = (Err (NotFoundError ''namespace: other''), s')"
    using none
    by (simp add: getServiceIds_def getNamespace_def getNamespaces_def bind_ok_def cache_read_def cache_write_def
        in_world_def example_client_env_def example_client_def w GetServiceIdMap_def GetNamespaceMap_def
        CacheServiceIdMap_def NewDefaultServiceDiscoveryClientCache_def NewServiceDiscoveryClientCache_def
        example_lru_def unexpired_def second_def nsKey_def buildSvcKey_def svcKeyPrefix_def Let_def)
  then show ?thesis using missing_namespace by blast
qed


theorem create_service_creates_namespace_only_if_missing_witness:
  "client_CreateService example_client_env ''default'' ''api'' (example_client\<lparr>clWorld := example_cloud\<lparr>cloudOpen := False\<rparr>\<rparr>)
     = (Err (ErrText ''rate: Wait would exceed deadline''), example_client\<lparr>clWorld := example_cloud\<lparr>cloudOpen := False\<rparr>\<rparr>)"
proof -
  let ?s = "example_client\<lparr>clWorld := example_cloud\<lparr>cloudOpen := False\<rparr>\<rparr>"
  have w: "api_GetNamespaceMap example_api (example_cloud\<lparr>cloudOpen := False\<rparr>)
      = (Err (ErrText ''rate: Wait would exceed deadline''), example_cloud\<lparr>cloudOpen := False\<rparr>)"
    by (simp add: api_GetNamespaceMap_def bind_ok_def example_wait)
  have "getNamespace example_client_env ''default'' ?s = (Err (ErrText ''rate: Wait would exceed deadline''), ?s)"
    by (simp add: getNamespace_def getNamespaces_def bind_ok_def cache_read_def in_world_def example_client_env_def
        example_client_def w GetNamespaceMap_def CacheServiceIdMap_def NewDefaultServiceDiscoveryClientCache_def
        NewServiceDiscoveryClientCache_def example_lru_def unexpired_def second_def nsKey_def buildSvcKey_def
        svcKeyPrefix_def Let_def)
  from create_service_creates_namespace_only_if_missing [OF this, of "''api''"]
  show ?thesis by simp
qed

end
