(* ===== verification/K8sClient.thy ===== *)
theory K8sClient
  imports McsUtils ModelCluster CommonPkg
begin

text \<open>
  What the two controllers use: the Kubernetes client of controller-runtime and the interface
  \<open>ServiceDiscoveryClient\<close> of the Cloud Map client, as records of functions on the outside world \<open>'w\<close>.
  A reconciler has its own copy of \<open>ClusterUtils\<close>; its state is the pair of the cached cluster
  properties and the world.
\<close>

section \<open>The Kubernetes client\<close>

text \<open>
  A call that fails returns \<open>Err (ErrApi nf msg)\<close>, where \<open>nf\<close> is what \<open>errors.IsNotFound\<close> says. \<open>Update\<close>
  returns the object that the server answered with, which the code finds in its argument. Lists are
  selected by namespace and by one label; lists of exports are over all namespaces.
\<close>

type_synonym object_key = "string \<times> string"

record 'w k8s_ops =
  kGetServiceExport :: "object_key \<Rightarrow> 'w \<Rightarrow> service_export outcome \<times> 'w"
  kGetService :: "object_key \<Rightarrow> 'w \<Rightarrow> k8s_service outcome \<times> 'w"
  kGetServiceImport :: "object_key \<Rightarrow> 'w \<Rightarrow> service_import outcome \<times> 'w"
  kListNamespaces :: "'w \<Rightarrow> string list outcome \<times> 'w"
  kListServiceExports :: "'w \<Rightarrow> service_export list outcome \<times> 'w"
  kListServiceImports :: "string \<Rightarrow> 'w \<Rightarrow> service_import list outcome \<times> 'w"
  kListServices :: "string \<Rightarrow> string \<times> string \<Rightarrow> 'w \<Rightarrow> k8s_service list outcome \<times> 'w"
  kListEndpointSlices :: "string \<Rightarrow> string \<times> string \<Rightarrow> 'w \<Rightarrow> endpoint_slice list outcome \<times> 'w"
  kListClusterProperties :: "'w list_props"
  kUpdateServiceExport :: "service_export \<Rightarrow> 'w \<Rightarrow> service_export outcome \<times> 'w"
  kUpdateService :: "k8s_service \<Rightarrow> 'w \<Rightarrow> k8s_service outcome \<times> 'w"
  kUpdateServiceImport :: "service_import \<Rightarrow> 'w \<Rightarrow> service_import outcome \<times> 'w"
  kUpdateEndpointSlice :: "endpoint_slice \<Rightarrow> 'w \<Rightarrow> endpoint_slice outcome \<times> 'w"
  kCreateService :: "k8s_service \<Rightarrow> 'w \<Rightarrow> unit outcome \<times> 'w"
  kCreateServiceImport :: "service_import \<Rightarrow> 'w \<Rightarrow> unit outcome \<times> 'w"
  kCreateEndpointSlice :: "endpoint_slice \<Rightarrow> 'w \<Rightarrow> unit outcome \<times> 'w"
  kDeleteService :: "k8s_service \<Rightarrow> 'w \<Rightarrow> unit outcome \<times> 'w"
  kDeleteServiceImport :: "service_import \<Rightarrow> 'w \<Rightarrow> unit outcome \<times> 'w"
  kDeleteEndpointSlice :: "endpoint_slice \<Rightarrow> 'w \<Rightarrow> unit outcome \<times> 'w"
  kDeleteAllOfEndpointSlices :: "string \<Rightarrow> string \<times> string \<Rightarrow> 'w \<Rightarrow> unit outcome \<times> 'w"

section \<open>The Cloud Map client\<close>

record 'w sd_client_ops =
  sdListServices :: "string \<Rightarrow> 'w \<Rightarrow> service list outcome \<times> 'w"
  sdCreateService :: "string \<Rightarrow> string \<Rightarrow> 'w \<Rightarrow> unit outcome \<times> 'w"
  sdGetService :: "string \<Rightarrow> string \<Rightarrow> 'w \<Rightarrow> service outcome \<times> 'w"
  sdRegisterEndpoints :: "string \<Rightarrow> string \<Rightarrow> endpoint list \<Rightarrow> 'w \<Rightarrow> unit outcome \<times> 'w"
  sdDeleteEndpoints :: "string \<Rightarrow> string \<Rightarrow> endpoint list \<Rightarrow> 'w \<Rightarrow> unit outcome \<times> 'w"

section \<open>Reconcilers\<close>

text \<open>
  \<open>reSetControllerReference\<close> is \<open>controllerutil.SetControllerReference\<close>, which may refuse; \<open>reOrder\<close>
  gives the iteration order of maps, which may differ from one state of the world to the next.
\<close>

record 'w reconciler =
  reClient :: "'w k8s_ops"
  reCloudMap :: "'w sd_client_ops"
  reOrder :: "'w \<Rightarrow> range_order"
  reExt :: ext
  reBuild :: build_info
  reSetControllerReference :: "k8s_service \<Rightarrow> service_export \<Rightarrow> service_export outcome"

type_synonym 'w reconciler_state = "cluster_properties \<times> 'w"

definition on_world :: "('w \<Rightarrow> 'a outcome \<times> 'w) \<Rightarrow> 'w reconciler_state \<Rightarrow> 'a outcome \<times> 'w reconciler_state" where
  "on_world f s = (case f (snd s) of (r, w) \<Rightarrow> (r, fst s, w))"

definition reconciler_properties ::
  "'w reconciler \<Rightarrow> 'w reconciler_state \<Rightarrow> cluster_properties outcome \<times> 'w reconciler_state" where
  "reconciler_properties R = GetClusterProperties (kListClusterProperties (reClient R))"

lemma on_world_eq:
  "on_world f s = (r, s') \<longleftrightarrow> f (snd s) = (r, snd s') \<and> fst s' = fst s"
  by (cases s'; cases "f (snd s)") (auto simp: on_world_def)

lemma on_world_simps [simp]:
  "fst (on_world f s) = fst (f (snd s))" "snd (snd (on_world f s)) = snd (f (snd s))"
  "fst (snd (on_world f s)) = fst s"
  by (simp_all add: on_world_def case_prod_beta)

lemma keeps_on_world [keeps_rules]:
  assumes "keeps I f"
  shows "keeps (\<lambda>s. I (snd s)) (on_world f)"
  using assms by (simp add: keeps_def)

lemma keeps_reconciler_properties [keeps_rules]:
  assumes "keeps I (kListClusterProperties (reClient R))"
  shows "keeps (\<lambda>s. I (snd s)) (reconciler_properties R)"
proof (rule keepsI)
  fix s r s'
  assume "I (snd s)" and r: "reconciler_properties R s = (r, s')"
  moreover have "I (snd (kListClusterProperties (reClient R) (snd s)))"
    using assms \<open>I (snd s)\<close> by (simp add: keeps_def)
  ultimately show "I (snd s')"
    by (auto simp: reconciler_properties_def GetClusterProperties_def LoadClusterProperties_def bind_ok_def
        split: if_splits outcome_splits)
      (auto simp: Let_def)
qed

end
