(* ===== verification/ServiceExportController.thy ===== *)
theory ServiceExportController
  imports K8sClient ModelPlan
begin

text \<open>
  \<open>pkg/controllers/multicluster/serviceexport_controller.go\<close>: the controller that registers the
  endpoints of an exported Service in Cloud Map. Reconcile requests are keys (namespace, name); a
  reconcile returns \<open>ctrl.Result{}\<close> in every case, so its result is the error alone.
\<close>

section \<open>Extracting the endpoints of a Service\<close>

text \<open>The lists that nested loops append to; a panic in any iteration is a panic of the loop.\<close>

fun concat_outcomes :: "'a list outcome list \<Rightarrow> 'a list outcome" where
  "concat_outcomes [] = Ok []"
| "concat_outcomes (Ok xs # rest) =
     (case concat_outcomes rest of Ok ys \<Rightarrow> Ok (xs @ ys) | Err e \<Rightarrow> Err e | Panic \<Rightarrow> Panic)"
| "concat_outcomes (Err e # rest) = Err e"
| "concat_outcomes (Panic # rest) = Panic"

record export_context =
  xcProps :: cluster_properties
  xcServicePorts :: "(string, port) fmap"
  xcServiceType :: string
  xcCreated :: int64
  xcAttributes :: "(string, string) fmap"

definition servicePortMap :: "ext \<Rightarrow> service_port list \<Rightarrow> (string, port) fmap" where
  "servicePortMap X ports = foldl (\<lambda>m p. fmupd (spName p) (ServicePortToPort X p) m) fmempty ports"

definition make_endpoint ::
  "export_context \<Rightarrow> endpoint_slice \<Rightarrow> string \<Rightarrow> port \<Rightarrow> slice_endpoint \<Rightarrow> string \<Rightarrow> endpoint" where
  "make_endpoint c sl name p e ip =
     \<lparr>epId = EndpointIdFromIPAddressAndPort ip p, epIP = ip, epAddressType = esAddressType sl,
      epEndpointPort = p,
      epServicePort = (case fmlookup (xcServicePorts c) name of Some q \<Rightarrow> q | None \<Rightarrow> zero_port),
      epClusterId = cpClusterId (xcProps c), epClusterSetId = cpClusterSetId (xcProps c),
      epServiceType = xcServiceType c, epServiceExportCreationTimestamp = xcCreated c,
      epReady = (case seReady e of Some b \<Rightarrow> b | None \<Rightarrow> False),
      epHostname = (case seHostname e of Some h \<Rightarrow> h | None \<Rightarrow> ''''),
      epNodename = (case seNodeName e of Some n \<Rightarrow> n | None \<Rightarrow> ''''),
      epAttributes = xcAttributes c\<rparr>"

definition endpoints_of ::
  "export_context \<Rightarrow> endpoint_slice \<Rightarrow> endpoint_port \<Rightarrow> slice_endpoint \<Rightarrow> endpoint list outcome" where
  "endpoints_of c sl dport e =
     (case EndpointPortToPort dport of
        Ok p \<Rightarrow> Ok (map (make_endpoint c sl (portName p) p e) (seAddresses e))
      | Err err \<Rightarrow> Err err
      | Panic \<Rightarrow> Panic)"

definition endpoints_of_slices :: "export_context \<Rightarrow> endpoint_slice list \<Rightarrow> endpoint list outcome" where
  "endpoints_of_slices c slices =
     concat_outcomes (map (\<lambda>sl.
       concat_outcomes (map (\<lambda>dport.
         concat_outcomes (map (endpoints_of c sl dport) (esEndpoints sl))) (esPorts sl))) slices)"

definition export_context_of ::
  "'w reconciler \<Rightarrow> cluster_properties \<Rightarrow> k8s_service \<Rightarrow> service_export \<Rightarrow> export_context" where
  "export_context_of R props svc svcExport =
     \<lparr>xcProps = props, xcServicePorts = servicePortMap (reExt R) (svPorts svc),
      xcServiceType = ExtractServiceType svc,
      xcCreated = (case omCreationTimestamp (sxMeta svcExport) of None \<Rightarrow> 0 | Some t \<Rightarrow> t),
      xcAttributes = fmupd K8sVersionAttr (GetPackageVersion (reBuild R)) fmempty\<rparr>"

definition extractEndpoints ::
  "'w reconciler \<Rightarrow> k8s_service \<Rightarrow> service_export \<Rightarrow> 'w reconciler_state \<Rightarrow> endpoint list outcome \<times> 'w reconciler_state" where
  "extractEndpoints R svc svcExport =
     bind_ok (reconciler_properties R) (\<lambda>props.
       bind_ok (on_world (kListEndpointSlices (reClient R) (omNamespace (svMeta svc))
                  (LabelServiceName, omName (svMeta svc)))) (\<lambda>slices.
         Pair (endpoints_of_slices (export_context_of R props svc svcExport) slices)))"

section \<open>Reconciling an export\<close>

text \<open>
  \<open>addFinalizerAndOwnerRef\<close> returns the export as the server left it, which the code finds behind the
  pointer it passed.
\<close>

definition addFinalizer ::
  "'w reconciler \<Rightarrow> service_export \<Rightarrow> 'w reconciler_state \<Rightarrow> service_export outcome \<times> 'w reconciler_state" where
  "addFinalizer R ex =
     (if ContainsFinalizer (reExt R) (sxMeta ex) ServiceExportFinalizer then return_value ex
      else on_world (kUpdateServiceExport (reClient R)
             (ex\<lparr>sxMeta := AddFinalizer (reExt R) (sxMeta ex) ServiceExportFinalizer\<rparr>)))"

definition addFinalizerAndOwnerRef ::
  "'w reconciler \<Rightarrow> service_export \<Rightarrow> k8s_service \<Rightarrow> 'w reconciler_state
    \<Rightarrow> service_export outcome \<times> 'w reconciler_state" where
  "addFinalizerAndOwnerRef R ex svc =
     bind_ok (addFinalizer R ex) (\<lambda>ex1.
       if omOwnerReferences (sxMeta ex1) = [] then
         bind_ok (Pair (reSetControllerReference R svc ex1)) (\<lambda>ex2.
           on_world (kUpdateServiceExport (reClient R) ex2))
       else return_value ex1)"

definition createOrGetCloudMapService ::
  "'w reconciler \<Rightarrow> k8s_service \<Rightarrow> 'w reconciler_state \<Rightarrow> service outcome \<times> 'w reconciler_state" where
  "createOrGetCloudMapService R svc s =
     (let ns = omNamespace (svMeta svc); name = omName (svMeta svc); cm = reCloudMap R in
      case on_world (sdGetService cm ns name) s of
        (Ok cmService, s1) \<Rightarrow> (Ok cmService, s1)
      | (Err e, s1) \<Rightarrow>
          (if IsUnknown (Some e) then (Err e, s1)
           else bind_ok (on_world (sdCreateService cm ns name)) (\<lambda>_. on_world (sdGetService cm ns name)) s1)
      | (Panic, s1) \<Rightarrow> (Panic, s1))"

text \<open>Registering and de-registering what a plan says.\<close>

definition execute_changes ::
  "'w reconciler \<Rightarrow> string \<Rightarrow> string \<Rightarrow> changes \<Rightarrow> 'w reconciler_state \<Rightarrow> unit outcome \<times> 'w reconciler_state" where
  "execute_changes R ns name ch =
     bind_ok
       (if HasUpdates ch
        then on_world (sdRegisterEndpoints (reCloudMap R) ns name (chCreate ch @ chUpdate ch))
        else return_value ())
       (\<lambda>_. if HasDeletes ch
             then on_world (sdDeleteEndpoints (reCloudMap R) ns name (chDelete ch))
             else return_value ())"

definition handleUpdate ::
  "'w reconciler \<Rightarrow> string \<Rightarrow> service_export \<Rightarrow> k8s_service \<Rightarrow> 'w reconciler_state
    \<Rightarrow> unit outcome \<times> 'w reconciler_state" where
  "handleUpdate R clusterId ex svc =
     bind_ok (addFinalizerAndOwnerRef R ex svc) (\<lambda>ex'.
       bind_ok (createOrGetCloudMapService R svc) (\<lambda>cmService.
         bind_ok (extractEndpoints R svc ex') (\<lambda>endpoints s.
           execute_changes R (omNamespace (svMeta svc)) (omName (svMeta svc))
             (CalculateChanges (reOrder R (snd s))
                \<lparr>planCurrent = GetEndpoints cmService clusterId, planDesired = endpoints\<rparr>) s)))"

text \<open>Of a service that cannot be read, \<open>handleDelete\<close> deletes the endpoints of this cluster first.\<close>

definition delete_exported ::
  "'w reconciler \<Rightarrow> string \<Rightarrow> service_export \<Rightarrow> 'w reconciler_state \<Rightarrow> unit outcome \<times> 'w reconciler_state" where
  "delete_exported R clusterId ex s =
     (case on_world (sdGetService (reCloudMap R) (omNamespace (sxMeta ex)) (omName (sxMeta ex))) s of
        (Ok cmService, s1) \<Rightarrow>
          on_world (sdDeleteEndpoints (reCloudMap R) (svcNamespace cmService) (svcName cmService)
            (GetEndpoints cmService clusterId)) s1
      | (Err e, s1) \<Rightarrow> (if IsUnknown (Some e) then (Err e, s1) else (Ok (), s1))
      | (Panic, s1) \<Rightarrow> (Panic, s1))"

definition handleDelete ::
  "'w reconciler \<Rightarrow> string \<Rightarrow> service_export \<Rightarrow> 'w reconciler_state \<Rightarrow> unit outcome \<times> 'w reconciler_state" where
  "handleDelete R clusterId ex =
     (if ContainsFinalizer (reExt R) (sxMeta ex) ServiceExportFinalizer then
        bind_ok (delete_exported R clusterId ex) (\<lambda>_.
          bind_ok (on_world (kUpdateServiceExport (reClient R)
              (ex\<lparr>sxMeta := RemoveFinalizer (reExt R) (sxMeta ex) ServiceExportFinalizer\<rparr>))) (\<lambda>_. return_value ()))
      else return_value ())"

definition zero_k8s_service :: k8s_service where
  "zero_k8s_service = \<lparr>svMeta = zero_meta, svApiVersion = '''', svKind = '''', svType = '''',
     svClusterIP = '''', svPorts = []\<rparr>"

definition ReconcileExport ::
  "'w reconciler \<Rightarrow> object_key \<Rightarrow> 'w reconciler_state \<Rightarrow> unit outcome \<times> 'w reconciler_state" where
  "ReconcileExport R key s =
     (case on_world (kGetServiceExport (reClient R) key) s of
        (Err e, s1) \<Rightarrow> (Ok (), s1)
      | (Panic, s1) \<Rightarrow> (Panic, s1)
      | (Ok ex, s1) \<Rightarrow>
          (let marked = (omDeletionTimestamp (sxMeta ex) \<noteq> None);
               continue = (\<lambda>isServiceExportMarkedForDelete svc.
                 bind_ok (reconciler_properties R) (\<lambda>props.
                   if isServiceExportMarkedForDelete then handleDelete R (cpClusterId props) ex
                   else handleUpdate R (cpClusterId props) ex svc))
           in case on_world (kGetService (reClient R) (omNamespace (sxMeta ex), omName (sxMeta ex))) s1 of
                (Ok svc, s2) \<Rightarrow> continue marked svc s2
              | (Err e, s2) \<Rightarrow> (if api_is_not_found e then continue True zero_k8s_service s2 else (Ok (), s2))
              | (Panic, s2) \<Rightarrow> (Panic, s2)))"

section \<open>Watches\<close>

definition endpointSliceMappingFunction :: "obj_meta \<Rightarrow> object_key list" where
  "endpointSliceMappingFunction m =
     [(omNamespace m, case fmlookup (omLabels m) LabelServiceName of Some n \<Rightarrow> n | None \<Rightarrow> '''')]"

definition clusterPropertyMappingFunction ::
  "'w reconciler \<Rightarrow> 'w reconciler_state \<Rightarrow> object_key list outcome \<times> 'w reconciler_state" where
  "clusterPropertyMappingFunction R s =
     (case LoadClusterProperties (kListClusterProperties (reClient R)) s of
        (Err e, s1) \<Rightarrow> (Ok [], s1)
      | (Panic, s1) \<Rightarrow> (Panic, s1)
      | (Ok _, s1) \<Rightarrow>
          (case on_world (kListServiceExports (reClient R)) s1 of
             (Err e, s2) \<Rightarrow> (Ok [], s2)
           | (Panic, s2) \<Rightarrow> (Panic, s2)
           | (Ok exports, s2) \<Rightarrow> (Ok (map (\<lambda>x. (omNamespace (sxMeta x), omName (sxMeta x))) exports), s2)))"

definition doesObjectHaveServiceExport ::
  "'w reconciler \<Rightarrow> obj_meta \<Rightarrow> 'w reconciler_state \<Rightarrow> bool outcome \<times> 'w reconciler_state" where
  "doesObjectHaveServiceExport R m s =
     (let serviceName = (case fmlookup (omLabels m) LabelServiceName of Some n \<Rightarrow> n | None \<Rightarrow> omName m) in
      case on_world (kGetServiceExport (reClient R) (omNamespace m, serviceName)) s of
        (Ok _, s1) \<Rightarrow> (Ok True, s1)
      | (Err e, s1) \<Rightarrow> (Ok False, s1)
      | (Panic, s1) \<Rightarrow> (Panic, s1))"

definition doesClusterPropertyExists ::
  "'w reconciler \<Rightarrow> 'w reconciler_state \<Rightarrow> bool outcome \<times> 'w reconciler_state" where
  "doesClusterPropertyExists R s =
     (case reconciler_properties R s of
        (Ok props, s1) \<Rightarrow> (Ok (props_IsValid props), s1)
      | (Err e, s1) \<Rightarrow> (Ok False, s1)
      | (Panic, s1) \<Rightarrow> (Panic, s1))"

text \<open>
  The events of the watched objects, with the metadata of the object, and the predicates that let
  them through: an update is judged by the new object.
\<close>

datatype watch_event =
    GenericEvent obj_meta
  | CreateEvent obj_meta
  | UpdateEvent obj_meta obj_meta
  | DeleteEvent obj_meta

primrec serviceExportPredicates ::
  "'w reconciler \<Rightarrow> watch_event \<Rightarrow> 'w reconciler_state \<Rightarrow> bool outcome \<times> 'w reconciler_state" where
  "serviceExportPredicates R (GenericEvent object) = doesObjectHaveServiceExport R object"
| "serviceExportPredicates R (CreateEvent object) = doesObjectHaveServiceExport R object"
| "serviceExportPredicates R (UpdateEvent objectOld objectNew) = doesObjectHaveServiceExport R objectNew"
| "serviceExportPredicates R (DeleteEvent object) = doesObjectHaveServiceExport R object"

primrec clusterPropertyFilter ::
  "'w reconciler \<Rightarrow> watch_event \<Rightarrow> 'w reconciler_state \<Rightarrow> bool outcome \<times> 'w reconciler_state" where
  "clusterPropertyFilter R (GenericEvent object) = doesClusterPropertyExists R"
| "clusterPropertyFilter R (CreateEvent object) = doesClusterPropertyExists R"
| "clusterPropertyFilter R (UpdateEvent objectOld objectNew) = doesClusterPropertyExists R"
| "clusterPropertyFilter R (DeleteEvent object) = doesClusterPropertyExists R"

text \<open>
  \<open>SetupWithManager\<close>: what the controller is registered for, as it is handed to the builder of controller-runtime.
  Every event must pass the filter, and then the predicate of its watch; the handler makes the requests. The
  delays, in nanoseconds, are those of the rate limiter for requests that failed.
\<close>

datatype watched_kind = ServiceExports | Services | EndpointSlices | ClusterProperties

datatype 'w event_handler =
    EnqueueRequestForObject
  | EnqueueRequestsFromMapFunc "obj_meta \<Rightarrow> 'w reconciler_state \<Rightarrow> object_key list outcome \<times> 'w reconciler_state"

type_synonym 'w predicate_funcs = "watch_event \<Rightarrow> 'w reconciler_state \<Rightarrow> bool outcome \<times> 'w reconciler_state"

record 'w watch =
  waKind :: watched_kind
  waHandler :: "'w event_handler"
  waPredicates :: "'w predicate_funcs list"

record 'w controller_setup =
  csEventFilter :: "'w predicate_funcs"
  csWatches :: "'w watch list"
  csBaseDelay :: int
  csMaxDelay :: int

definition SetupWithManager :: "'w reconciler \<Rightarrow> 'w controller_setup" where
  "SetupWithManager R =
     \<lparr>csEventFilter = clusterPropertyFilter R,
      csWatches =
        [\<lparr>waKind = ServiceExports, waHandler = EnqueueRequestForObject, waPredicates = []\<rparr>,
         \<lparr>waKind = Services, waHandler = EnqueueRequestForObject, waPredicates = [serviceExportPredicates R]\<rparr>,
         \<lparr>waKind = EndpointSlices,
           waHandler = EnqueueRequestsFromMapFunc (\<lambda>object. return_value (endpointSliceMappingFunction object)),
           waPredicates = [serviceExportPredicates R]\<rparr>,
         \<lparr>waKind = ClusterProperties,
           waHandler = EnqueueRequestsFromMapFunc (\<lambda>object. clusterPropertyMappingFunction R), waPredicates = []\<rparr>],
      csBaseDelay = 500 * 1000000, csMaxDelay = 1000 * 1000000000\<rparr>"

definition event_object :: "watch_event \<Rightarrow> obj_meta" where
  "event_object ev = (case ev of GenericEvent m \<Rightarrow> m | CreateEvent m \<Rightarrow> m | UpdateEvent old m \<Rightarrow> m | DeleteEvent m \<Rightarrow> m)"

text \<open>A slice that belongs to a Service is let through exactly when that Service is exported, and is mapped to that export.\<close>

lemma slice_watch:
  assumes "x \<in> set (csWatches (SetupWithManager R))" and "waKind x = EndpointSlices"
    and "waHandler x = EnqueueRequestsFromMapFunc f" and "pred \<in> set (waPredicates x)"
    and "fmlookup (omLabels (event_object ev)) LabelServiceName = Some name"
  shows "fst (f (event_object ev) s) = Ok [(omNamespace (event_object ev), name)]"
    and "fst (pred ev s) = Ok True \<longleftrightarrow> (\<exists>ex. fst (kGetServiceExport (reClient R) (omNamespace (event_object ev), name) (snd s)) = Ok ex)"
proof -
  have f: "f = (\<lambda>object. return_value (endpointSliceMappingFunction object))" and pred: "pred = serviceExportPredicates R"
    using assms(1-4) by (auto simp: SetupWithManager_def)
  show "fst (f (event_object ev) s) = Ok [(omNamespace (event_object ev), name)]"
    using assms(5) by (simp add: f endpointSliceMappingFunction_def return_value_def)
  have ev: "serviceExportPredicates R ev = doesObjectHaveServiceExport R (event_object ev)"
    by (cases ev) (simp_all add: event_object_def)
  show "fst (pred ev s) = Ok True \<longleftrightarrow> (\<exists>ex. fst (kGetServiceExport (reClient R) (omNamespace (event_object ev), name) (snd s)) = Ok ex)"
    using assms(5)
    by (auto simp: pred ev doesObjectHaveServiceExport_def Let_def on_world_def split: prod.splits outcome.splits)
qed

section \<open>What the extraction yields\<close>

lemma concat_outcomes_mem:
  assumes "concat_outcomes (map f xs) = Ok ys"
  shows "y \<in> set ys \<longleftrightarrow> (\<exists>x \<in> set xs. \<exists>zs. f x = Ok zs \<and> y \<in> set zs)"
  using assms
proof (induction xs arbitrary: ys)
  case Nil
  then show ?case by simp
next
  case (Cons x xs)
  then obtain zs ws where "f x = Ok zs" "concat_outcomes (map f xs) = Ok ws" "ys = zs @ ws"
    by (cases "f x") (auto split: outcome.splits)
  with Cons.IH show ?case by auto
qed

lemma concat_outcomes_total:
  assumes "\<forall>x \<in> set xs. \<exists>zs. f x = Ok zs"
  shows "\<exists>ys. concat_outcomes (map f xs) = Ok ys"
  using assms by (induction xs) (auto split: outcome.splits)

lemma endpoints_of_Ok:
  "endpoints_of c sl dport e = Ok zs \<longleftrightarrow>
     (\<exists>p. EndpointPortToPort dport = Ok p \<and> zs = map (make_endpoint c sl (portName p) p e) (seAddresses e))"
  by (auto simp: endpoints_of_def split: outcome.splits)

lemma concat_outcomes_each:
  assumes "concat_outcomes (map f xs) = Ok ys" and "x \<in> set xs"
  shows "\<exists>zs. f x = Ok zs"
  using assms
  by (induction xs arbitrary: ys) (auto elim: concat_outcomes.elims split: outcome.splits)

definition exported :: "export_context \<Rightarrow> endpoint_slice list \<Rightarrow> endpoint set" where
  "exported c slices =
     {make_endpoint c sl (portName p) p e ip |sl dport e p ip.
        sl \<in> set slices \<and> dport \<in> set (esPorts sl) \<and> e \<in> set (esEndpoints sl)
        \<and> EndpointPortToPort dport = Ok p \<and> ip \<in> set (seAddresses e)}"

lemma endpoints_of_slices_set:
  assumes "endpoints_of_slices c slices = Ok es"
  shows "set es = exported c slices"
proof -
  let ?h = "\<lambda>sl dport. concat_outcomes (map (endpoints_of c sl dport) (esEndpoints sl))"
  let ?g = "\<lambda>sl. concat_outcomes (map (?h sl) (esPorts sl))"
  note slices = assms [unfolded endpoints_of_slices_def]
  have port: "x \<in> set zs \<longleftrightarrow> (\<exists>e \<in> set (esEndpoints sl). \<exists>p. EndpointPortToPort dport = Ok p
      \<and> (\<exists>ip \<in> set (seAddresses e). x = make_endpoint c sl (portName p) p e ip))"
    if "?h sl dport = Ok zs" for x sl dport zs
    unfolding concat_outcomes_mem [OF that, of x] endpoints_of_Ok by fastforce
  have slice: "x \<in> set zs \<longleftrightarrow> (\<exists>dport \<in> set (esPorts sl). \<exists>e \<in> set (esEndpoints sl). \<exists>p.
      EndpointPortToPort dport = Ok p
      \<and> (\<exists>ip \<in> set (seAddresses e). x = make_endpoint c sl (portName p) p e ip))"
    if z: "?g sl = Ok zs" for x sl zs
    unfolding concat_outcomes_mem [OF z, of x]
    using concat_outcomes_each [OF z] port by blast
  have "x \<in> set es \<longleftrightarrow> (\<exists>sl \<in> set slices. \<exists>zs. ?g sl = Ok zs \<and> x \<in> set zs)" for x
    by (rule concat_outcomes_mem [OF slices])
  moreover have "\<exists>zs. ?g sl = Ok zs" if "sl \<in> set slices" for sl
    using slices that by (rule concat_outcomes_each)
  ultimately have "x \<in> set es \<longleftrightarrow> (\<exists>sl \<in> set slices. \<exists>dport \<in> set (esPorts sl). \<exists>e \<in> set (esEndpoints sl).
      \<exists>p. EndpointPortToPort dport = Ok p
      \<and> (\<exists>ip \<in> set (seAddresses e). x = make_endpoint c sl (portName p) p e ip))" for x
    using slice by blast
  then show ?thesis unfolding exported_def by blast
qed

lemma extraction_returns_iff:
  "(\<exists>es. endpoints_of_slices c slices = Ok es) \<longleftrightarrow>
     (\<forall>sl \<in> set slices. \<forall>dport \<in> set (esPorts sl). esEndpoints sl \<noteq> [] \<longrightarrow>
        dpName dport \<noteq> None \<and> dpPort dport \<noteq> None \<and> dpProtocol dport \<noteq> None)"
    (is "?L \<longleftrightarrow> ?R")
proof -
  let ?h = "\<lambda>sl dport. concat_outcomes (map (endpoints_of c sl dport) (esEndpoints sl))"
  let ?g = "\<lambda>sl. concat_outcomes (map (?h sl) (esPorts sl))"
  have port: "(\<exists>p. EndpointPortToPort d = Ok p) \<longleftrightarrow> dpName d \<noteq> None \<and> dpPort d \<noteq> None \<and> dpProtocol d \<noteq> None" for d
    by (auto simp: EndpointPortToPort_def split: option.splits)
  have h: "(\<exists>zs. ?h sl d = Ok zs) \<longleftrightarrow> (esEndpoints sl \<noteq> [] \<longrightarrow> (\<exists>p. EndpointPortToPort d = Ok p))" for sl d
  proof
    assume "\<exists>zs. ?h sl d = Ok zs"
    then obtain zs where "?h sl d = Ok zs" ..
    then have "\<exists>ws. endpoints_of c sl d e = Ok ws" if "e \<in> set (esEndpoints sl)" for e
      using that by (rule concat_outcomes_each)
    then show "esEndpoints sl \<noteq> [] \<longrightarrow> (\<exists>p. EndpointPortToPort d = Ok p)"
      using last_in_set [of "esEndpoints sl"] unfolding endpoints_of_Ok by blast
  next
    assume "esEndpoints sl \<noteq> [] \<longrightarrow> (\<exists>p. EndpointPortToPort d = Ok p)"
    then show "\<exists>zs. ?h sl d = Ok zs"
      by (intro concat_outcomes_total) (auto simp: endpoints_of_Ok)
  qed
  have each: "(\<exists>ys. concat_outcomes (map f xs) = Ok ys) \<longleftrightarrow> (\<forall>x \<in> set xs. \<exists>zs. f x = Ok zs)"
    for f :: "'x \<Rightarrow> endpoint list outcome" and xs
    using concat_outcomes_total [of xs f] concat_outcomes_each [of f xs] by blast
  show ?thesis
    unfolding endpoints_of_slices_def each [of ?g] each [of "?h _"] h port by blast
qed

end
