(* ===== verification/ExportSpec.thy ===== *)
theory ExportSpec
  imports ServiceExportController
begin

text \<open>
  What the export controller achieves in the world around it. An \<open>observer\<close> reads off a world the
  ServiceExport objects of the API server and, for every service, the endpoints that Cloud Map has
  registered by instance id. \<open>export_laws\<close> states what the two clients promise about them: reads
  change nothing; an update stores the object; a failed update may or may not have been stored;
  registering and de-registering act by instance id, and one that fails may have been applied in
  part; \<open>GetService\<close> tells the endpoints of this cluster as they are.
\<close>

section \<open>The world around the controller\<close>

definition meta_key :: "obj_meta \<Rightarrow> object_key" where
  "meta_key m = (omNamespace m, omName m)"

record 'w observer =
  obExports :: "'w \<Rightarrow> object_key \<Rightarrow> service_export option"
  obView :: "'w \<Rightarrow> object_key \<Rightarrow> (string, endpoint) fmap"
  obValid :: "'w \<Rightarrow> bool"
  obKey :: "object_key \<Rightarrow> bool"
  obFits :: "endpoint \<Rightarrow> bool"

definition unobserved :: "'w observer \<Rightarrow> ('w \<Rightarrow> 'a outcome \<times> 'w) \<Rightarrow> bool" where
  "unobserved V f \<longleftrightarrow> (\<forall>w. obValid V w \<longrightarrow> obValid V (snd (f w))
     \<and> obExports V (snd (f w)) = obExports V w \<and> obView V (snd (f w)) = obView V w)"

definition own_endpoints :: "'w observer \<Rightarrow> string \<Rightarrow> 'w \<Rightarrow> object_key \<Rightarrow> endpoint set" where
  "own_endpoints V cid w key = {e. fmlookup (obView V w key) (epId e) = Some e \<and> epClusterId e = cid}"

text \<open>What the API server stores for an update: an object under deletion goes with its last finalizer.\<close>

definition stored :: "service_export \<Rightarrow> service_export option" where
  "stored ex = (if omDeletionTimestamp (sxMeta ex) \<noteq> None \<and> omFinalizers (sxMeta ex) = [] then None else Some ex)"

definition same_object :: "service_export \<Rightarrow> service_export \<Rightarrow> bool" where
  "same_object ex ex' \<longleftrightarrow> meta_key (sxMeta ex') = meta_key (sxMeta ex)
     \<and> omFinalizers (sxMeta ex') = omFinalizers (sxMeta ex)
     \<and> omDeletionTimestamp (sxMeta ex') = omDeletionTimestamp (sxMeta ex)
     \<and> omCreationTimestamp (sxMeta ex') = omCreationTimestamp (sxMeta ex)"

definition read_laws :: "'w reconciler \<Rightarrow> 'w observer \<Rightarrow> bool" where
  "read_laws R V \<longleftrightarrow>
     (\<forall>k. unobserved V (kGetServiceExport (reClient R) k))
     \<and> (\<forall>k. unobserved V (kGetService (reClient R) k))
     \<and> (\<forall>ns l. unobserved V (kListEndpointSlices (reClient R) ns l))
     \<and> unobserved V (kListClusterProperties (reClient R)) \<and> unobserved V (kListServiceExports (reClient R))
     \<and> (\<forall>k w ex. obValid V w \<longrightarrow> fst (kGetServiceExport (reClient R) k w) = Ok ex
          \<longrightarrow> obExports V w k = Some ex \<and> meta_key (sxMeta ex) = k \<and> obKey V k)
     \<and> (\<forall>k w svc. fst (kGetService (reClient R) k w) = Ok svc \<longrightarrow> meta_key (svMeta svc) = k)"

definition update_laws :: "'w reconciler \<Rightarrow> 'w observer \<Rightarrow> bool" where
  "update_laws R V \<longleftrightarrow>
     finalizer_laws (reExt R)
     \<and> (\<forall>svc ex ex'. reSetControllerReference R svc ex = Ok ex' \<longrightarrow> same_object ex ex')
     \<and> (\<forall>ex w r w'. obValid V w \<longrightarrow> kUpdateServiceExport (reClient R) ex w = (r, w') \<longrightarrow>
          obValid V w' \<and> obView V w' = obView V w
          \<and> (\<forall>k. k \<noteq> meta_key (sxMeta ex) \<longrightarrow> obExports V w' k = obExports V w k)
          \<and> (case r of
               Ok ex' \<Rightarrow> same_object ex ex' \<and> obExports V w' (meta_key (sxMeta ex)) = stored ex'
             | _ \<Rightarrow> obExports V w' (meta_key (sxMeta ex)) = obExports V w (meta_key (sxMeta ex))
                 \<or> (\<exists>ex'. same_object ex ex' \<and> obExports V w' (meta_key (sxMeta ex)) = stored ex')))"

definition registry_laws :: "'w reconciler \<Rightarrow> 'w observer \<Rightarrow> bool" where
  "registry_laws R V \<longleftrightarrow>
     (\<forall>ns name es w r w'. obKey V (ns, name) \<longrightarrow> obValid V w \<longrightarrow> sdRegisterEndpoints (reCloudMap R) ns name es w = (r, w') \<longrightarrow>
        obValid V w' \<and> obExports V w' = obExports V w
        \<and> (\<forall>k. k \<noteq> (ns, name) \<longrightarrow> obView V w' k = obView V w k)
        \<and> (is_ok r \<and> (\<forall>e \<in> set es. obFits V e) \<and> distinct (map epId es) \<longrightarrow> obView V w' (ns, name) = registered (obView V w (ns, name)) es))
     \<and> (\<forall>ns name es w r w'. obKey V (ns, name) \<longrightarrow> obValid V w \<longrightarrow> sdDeleteEndpoints (reCloudMap R) ns name es w = (r, w') \<longrightarrow>
        obValid V w' \<and> obExports V w' = obExports V w
        \<and> (\<forall>k. k \<noteq> (ns, name) \<longrightarrow> obView V w' k = obView V w k)
        \<and> (is_ok r \<longrightarrow> obView V w' (ns, name) = deregistered (obView V w (ns, name)) es)
        \<and> (\<forall>i. fmlookup (obView V w' (ns, name)) i = fmlookup (obView V w (ns, name)) i
              \<or> fmlookup (obView V w' (ns, name)) i = None))"

definition service_laws :: "'w reconciler \<Rightarrow> 'w observer \<Rightarrow> string \<Rightarrow> bool" where
  "service_laws R V cid \<longleftrightarrow>
     (\<forall>ns name. obKey V (ns, name) \<longrightarrow> unobserved V (sdGetService (reCloudMap R) ns name))
     \<and> (\<forall>ns name. obKey V (ns, name) \<longrightarrow> unobserved V (sdCreateService (reCloudMap R) ns name))
     \<and> (\<forall>ns name w svc. obKey V (ns, name) \<longrightarrow> obValid V w \<longrightarrow> fst (sdGetService (reCloudMap R) ns name w) = Ok svc \<longrightarrow>
          svcNamespace svc = ns \<and> svcName svc = name
          \<and> set (GetEndpoints svc cid) = own_endpoints V cid w (ns, name))
     \<and> (\<forall>ns name w e. obKey V (ns, name) \<longrightarrow> obValid V w \<longrightarrow> fst (sdGetService (reCloudMap R) ns name w) = Err e
          \<longrightarrow> errors_is_notFound e \<longrightarrow> own_endpoints V cid w (ns, name) = {})"

definition export_laws :: "'w reconciler \<Rightarrow> 'w observer \<Rightarrow> string \<Rightarrow> bool" where
  "export_laws R V cid \<longleftrightarrow> read_laws R V \<and> update_laws R V \<and> registry_laws R V \<and> service_laws R V cid"


lemma export_laws_reads:
  assumes "export_laws R V cid"
  shows "unobserved V (kGetServiceExport (reClient R) k)" "unobserved V (kGetService (reClient R) k)"
    "unobserved V (kListEndpointSlices (reClient R) n l)" "unobserved V (kListClusterProperties (reClient R))"
    "obKey V (n, m) \<Longrightarrow> unobserved V (sdGetService (reCloudMap R) n m)"
    "obKey V (n, m) \<Longrightarrow> unobserved V (sdCreateService (reCloudMap R) n m)"
    "unobserved V (kListServiceExports (reClient R))"
  using assms by (simp_all add: export_laws_def read_laws_def service_laws_def del: split_paired_All)

lemma export_laws_get:
  assumes "export_laws R V cid"
  shows "obValid V w \<Longrightarrow> fst (kGetServiceExport (reClient R) k w) = Ok ex \<Longrightarrow>
      obExports V w k = Some ex \<and> meta_key (sxMeta ex) = k \<and> obKey V k"
    and "fst (kGetService (reClient R) k w) = Ok svc \<Longrightarrow> meta_key (svMeta svc) = k"
    and "obKey V (n, m) \<Longrightarrow> obValid V w \<Longrightarrow> fst (sdGetService (reCloudMap R) n m w) = Ok cm \<Longrightarrow>
      svcNamespace cm = n \<and> svcName cm = m \<and> set (GetEndpoints cm cid) = own_endpoints V cid w (n, m)"
    and "obKey V (n, m) \<Longrightarrow> obValid V w \<Longrightarrow> fst (sdGetService (reCloudMap R) n m w) = Err e \<Longrightarrow> errors_is_notFound e \<Longrightarrow>
      own_endpoints V cid w (n, m) = {}"
  using assms unfolding export_laws_def read_laws_def service_laws_def by blast+

lemma export_laws_update:
  assumes "export_laws R V cid" and "obValid V w" and "kUpdateServiceExport (reClient R) ex w = (r, w')"
  shows "obView V w' = obView V w"
    and "k \<noteq> meta_key (sxMeta ex) \<Longrightarrow> obExports V w' k = obExports V w k"
    and "r = Ok ex' \<Longrightarrow> same_object ex ex' \<and> obExports V w' (meta_key (sxMeta ex)) = stored ex'"
    and "obExports V w' (meta_key (sxMeta ex)) = obExports V w (meta_key (sxMeta ex))
      \<or> (\<exists>ex'. same_object ex ex' \<and> obExports V w' (meta_key (sxMeta ex)) = stored ex')"
    and "obValid V w'"
proof -
  have u: "update_laws R V" using assms(1) by (simp add: export_laws_def)
  note l = u [unfolded update_laws_def, THEN conjunct2, THEN conjunct2, rule_format, OF assms(2,3)]
  show "obView V w' = obView V w" using l by blast
  show "k \<noteq> meta_key (sxMeta ex) \<Longrightarrow> obExports V w' k = obExports V w k" using l by blast
  show "r = Ok ex' \<Longrightarrow> same_object ex ex' \<and> obExports V w' (meta_key (sxMeta ex)) = stored ex'"
    using l by simp
  show "obExports V w' (meta_key (sxMeta ex)) = obExports V w (meta_key (sxMeta ex))
      \<or> (\<exists>ex'. same_object ex ex' \<and> obExports V w' (meta_key (sxMeta ex)) = stored ex')"
    using l by (cases r) auto
  show "obValid V w'" using l by blast
qed

lemma export_laws_owner:
  assumes "export_laws R V cid" and "reSetControllerReference R svc ex = Ok ex'"
  shows "same_object ex ex'"
  using assms by (simp add: export_laws_def update_laws_def)

lemma export_laws_register:
  assumes "export_laws R V cid" and "obKey V (n, m)" and "obValid V w"
    and "sdRegisterEndpoints (reCloudMap R) n m es w = (r, w')"
  shows "obExports V w' = obExports V w" and "k \<noteq> (n, m) \<Longrightarrow> obView V w' k = obView V w k"
    and "is_ok r \<Longrightarrow> \<forall>e \<in> set es. obFits V e \<Longrightarrow> distinct (map epId es) \<Longrightarrow> obView V w' (n, m) = registered (obView V w (n, m)) es"
    and "obValid V w'"
proof -
  have u: "registry_laws R V" using assms(1) by (simp add: export_laws_def)
  note l = u [unfolded registry_laws_def, THEN conjunct1, rule_format, OF assms(2-4)]
  show "obExports V w' = obExports V w" "k \<noteq> (n, m) \<Longrightarrow> obView V w' k = obView V w k"
    "is_ok r \<Longrightarrow> \<forall>e \<in> set es. obFits V e \<Longrightarrow> distinct (map epId es) \<Longrightarrow> obView V w' (n, m) = registered (obView V w (n, m)) es" "obValid V w'"
    using l [THEN conjunct1] l [THEN conjunct2, THEN conjunct1] l [THEN conjunct2, THEN conjunct2, THEN conjunct1]
      l [THEN conjunct2, THEN conjunct2, THEN conjunct2]
    by (simp_all del: split_paired_All)
qed

lemma export_laws_deregister:
  assumes "export_laws R V cid" and "obKey V (n, m)" and "obValid V w"
    and "sdDeleteEndpoints (reCloudMap R) n m es w = (r, w')"
  shows "obExports V w' = obExports V w" and "k \<noteq> (n, m) \<Longrightarrow> obView V w' k = obView V w k"
    and "is_ok r \<Longrightarrow> obView V w' (n, m) = deregistered (obView V w (n, m)) es"
    and "fmlookup (obView V w' (n, m)) i = fmlookup (obView V w (n, m)) i
      \<or> fmlookup (obView V w' (n, m)) i = None"
    and "obValid V w'"
proof -
  have u: "registry_laws R V" using assms(1) by (simp add: export_laws_def)
  note l = u [unfolded registry_laws_def, THEN conjunct2, rule_format, OF assms(2-4)]
  show "obExports V w' = obExports V w" "k \<noteq> (n, m) \<Longrightarrow> obView V w' k = obView V w k"
    "is_ok r \<Longrightarrow> obView V w' (n, m) = deregistered (obView V w (n, m)) es" "obValid V w'"
    using l [THEN conjunct1] l [THEN conjunct2, THEN conjunct1] l [THEN conjunct2, THEN conjunct2, THEN conjunct1]
      l [THEN conjunct2, THEN conjunct2, THEN conjunct2, THEN conjunct1]
    by (simp_all del: split_paired_All)
  show "fmlookup (obView V w' (n, m)) i = fmlookup (obView V w (n, m)) i
      \<or> fmlookup (obView V w' (n, m)) i = None"
    using l [THEN conjunct2, THEN conjunct2, THEN conjunct2, THEN conjunct2] by (rule spec)
qed

lemma unobservedD:
  "unobserved V f \<Longrightarrow> obValid V w \<Longrightarrow> f w = (r, w') \<Longrightarrow>
    obValid V w' \<and> obExports V w' = obExports V w \<and> obView V w' = obView V w"
  unfolding unobserved_def by (metis snd_conv)


section \<open>Endpoints never outlive their export\<close>

text \<open>
  The finalizer keeps an export in the API server until the controller has removed the endpoints.
  \<open>no_leak\<close>: wherever Cloud Map has endpoints of this cluster, an export with the finalizer is there.
\<close>

definition protected :: "'w observer \<Rightarrow> object_key \<Rightarrow> 'w \<Rightarrow> bool" where
  "protected V key w \<longleftrightarrow>
     (\<exists>ex. obExports V w key = Some ex \<and> ServiceExportFinalizer \<in> set (omFinalizers (sxMeta ex)))"

definition no_leak :: "'w observer \<Rightarrow> string \<Rightarrow> 'w \<Rightarrow> bool" where
  "no_leak V cid w \<longleftrightarrow> (\<forall>key. own_endpoints V cid w key \<noteq> {} \<longrightarrow> protected V key w)"

definition safe_world :: "'w observer \<Rightarrow> string \<Rightarrow> 'w \<Rightarrow> bool" where
  "safe_world V cid w \<longleftrightarrow> obValid V w \<and> no_leak V cid w"

definition leak_free_at :: "'w observer \<Rightarrow> string \<Rightarrow> object_key \<Rightarrow> 'w \<Rightarrow> bool" where
  "leak_free_at V cid key w \<longleftrightarrow> safe_world V cid w \<and> protected V key w"

lemma own_endpoints_cong:
  "obView V w' key = obView V w key \<Longrightarrow> own_endpoints V cid w' key = own_endpoints V cid w key"
  by (simp add: own_endpoints_def)

lemma no_leak_step:
  assumes "no_leak V cid w"
    and "\<forall>k. k \<noteq> key \<longrightarrow> obExports V w' k = obExports V w k \<and> obView V w' k = obView V w k"
    and "own_endpoints V cid w' key \<noteq> {} \<Longrightarrow> protected V key w'"
  shows "no_leak V cid w'"
  unfolding no_leak_def
proof (intro allI impI)
  fix k assume own: "own_endpoints V cid w' k \<noteq> {}"
  show "protected V k w'"
  proof (cases "k = key")
    case True
    then show ?thesis using assms(3) own by simp
  next
    case False
    then have k: "obExports V w' k = obExports V w k" "obView V w' k = obView V w k"
      using assms(2) by blast+
    then have "own_endpoints V cid w k \<noteq> {}" using own own_endpoints_cong [OF k(2)] by metis
    then have "protected V k w" using assms(1) by (simp add: no_leak_def del: split_paired_All)
    then show ?thesis using k by (simp add: protected_def)
  qed
qed

lemma safe_world_step:
  assumes "safe_world V cid w" and "obValid V w'"
    and "\<forall>k. k \<noteq> key \<longrightarrow> obExports V w' k = obExports V w k \<and> obView V w' k = obView V w k"
    and "own_endpoints V cid w' key \<noteq> {} \<Longrightarrow> protected V key w'"
  shows "safe_world V cid w'"
  using assms no_leak_step [of V cid w key w'] by (simp add: safe_world_def)

lemma unobserved_keeps:
  assumes "unobserved V f"
  shows "keeps (safe_world V cid) f" and "keeps (leak_free_at V cid key) f"
proof -
  have same: "obValid V (snd (f w)) \<and> obExports V (snd (f w)) = obExports V w \<and> obView V (snd (f w)) = obView V w"
    if "obValid V w" for w
    using assms that unfolding unobserved_def by blast
  then show "keeps (safe_world V cid) f" and "keeps (leak_free_at V cid key) f"
    by (simp_all add: keeps_def safe_world_def no_leak_def leak_free_at_def protected_def own_endpoints_def
        del: split_paired_All)
qed

lemma registry_keeps:
  assumes "export_laws R V cid" and key: "obKey V (n, m)"
  shows "keeps (leak_free_at V cid (n, m)) (sdRegisterEndpoints (reCloudMap R) n m es)"
    and "keeps (leak_free_at V cid (n, m)) (sdDeleteEndpoints (reCloudMap R) n m es)"
proof -
  have step: "leak_free_at V cid (n, m) w'"
    if "leak_free_at V cid (n, m) w" "obValid V w'" "obExports V w' = obExports V w"
      "\<And>k. k \<noteq> (n, m) \<Longrightarrow> obView V w' k = obView V w k" for w w'
    using that safe_world_step [of V cid w w' "(n, m)"] by (simp add: leak_free_at_def protected_def)
  have valid: "leak_free_at V cid (n, m) w \<Longrightarrow> obValid V w" for w
    by (simp add: leak_free_at_def safe_world_def)
  show "keeps (leak_free_at V cid (n, m)) (sdRegisterEndpoints (reCloudMap R) n m es)"
    by (rule keepsI) (rule step [OF _ export_laws_register(4,1,2) [OF assms valid]])
  show "keeps (leak_free_at V cid (n, m)) (sdDeleteEndpoints (reCloudMap R) n m es)"
    by (rule keepsI) (rule step [OF _ export_laws_deregister(5,1,2) [OF assms valid]])
qed

text \<open>An update of an object that carries the finalizer never breaks the invariant.\<close>

lemma finalizer_update_keeps:
  assumes laws: "export_laws R V cid" and fin: "ServiceExportFinalizer \<in> set (omFinalizers (sxMeta ex))"
    and inv: "safe_world V cid w" and u: "kUpdateServiceExport (reClient R) ex w = (r, w')"
  shows "safe_world V cid w'" and "r = Ok ex' \<Longrightarrow> same_object ex ex' \<and> leak_free_at V cid (meta_key (sxMeta ex)) w'"
    and "leak_free_at V cid (meta_key (sxMeta ex)) w \<Longrightarrow> leak_free_at V cid (meta_key (sxMeta ex)) w'"
proof -
  let ?key = "meta_key (sxMeta ex)"
  have "obValid V w" using inv by (simp add: safe_world_def)
  note l = export_laws_update [OF laws this u]
  have st: "stored ex'' = Some ex'' \<and> ServiceExportFinalizer \<in> set (omFinalizers (sxMeta ex''))"
    if "same_object ex ex''" for ex''
    using that fin by (auto simp: stored_def same_object_def)
  then have p: "protected V ?key w' \<or> obExports V w' ?key = obExports V w ?key"
    using l(4) by (auto simp: protected_def)
  note valid = l(5)
  have "protected V ?key w'" if "own_endpoints V cid w' ?key \<noteq> {}"
  proof -
    have "own_endpoints V cid w ?key \<noteq> {}" using that l(1) by (simp add: own_endpoints_def)
    then have "protected V ?key w" using inv by (simp add: safe_world_def no_leak_def del: split_paired_All)
    then show ?thesis using p by (auto simp: protected_def)
  qed
  moreover have "\<forall>k. k \<noteq> ?key \<longrightarrow> obExports V w' k = obExports V w k \<and> obView V w' k = obView V w k"
    by (simp add: l(1,2) del: split_paired_All)
  ultimately show nl: "safe_world V cid w'" by (rule safe_world_step [OF inv valid, rotated])
  show "r = Ok ex' \<Longrightarrow> same_object ex ex' \<and> leak_free_at V cid ?key w'"
    using l(3) nl st by (auto simp: leak_free_at_def protected_def)
  show "leak_free_at V cid ?key w \<Longrightarrow> leak_free_at V cid ?key w'"
    using nl p by (auto simp: leak_free_at_def protected_def)
qed


text \<open>What changes of the finalizers leave.\<close>

lemma export_laws_finalizers:
  assumes "export_laws R V cid"
  shows "ContainsFinalizer (reExt R) m f \<longleftrightarrow> f \<in> set (omFinalizers m)"
    and "set (omFinalizers (AddFinalizer (reExt R) m f)) = insert f (set (omFinalizers m))"
    and "set (omFinalizers (RemoveFinalizer (reExt R) m f)) = set (omFinalizers m) - {f}"
    and "meta_key (AddFinalizer (reExt R) m f) = meta_key m" and "meta_key (RemoveFinalizer (reExt R) m f) = meta_key m"
    and "omCreationTimestamp (AddFinalizer (reExt R) m f) = omCreationTimestamp m"
proof -
  have "finalizer_laws (reExt R)" using assms by (simp add: export_laws_def update_laws_def)
  note l = finalizer_lawsD [OF this, of m f]
  obtain fs gs where add: "AddFinalizer (reExt R) m f = m\<lparr>omFinalizers := fs\<rparr>" "set fs = insert f (set (omFinalizers m))"
    and remove: "RemoveFinalizer (reExt R) m f = m\<lparr>omFinalizers := gs\<rparr>" "set gs = set (omFinalizers m) - {f}"
    using l(2,3) by (elim exE conjE) (rule that)
  show "ContainsFinalizer (reExt R) m f \<longleftrightarrow> f \<in> set (omFinalizers m)" by (rule l(1))
  show "set (omFinalizers (AddFinalizer (reExt R) m f)) = insert f (set (omFinalizers m))"
    "meta_key (AddFinalizer (reExt R) m f) = meta_key m"
    "omCreationTimestamp (AddFinalizer (reExt R) m f) = omCreationTimestamp m"
    by (simp_all add: add meta_key_def)
  show "set (omFinalizers (RemoveFinalizer (reExt R) m f)) = set (omFinalizers m) - {f}"
    "meta_key (RemoveFinalizer (reExt R) m f) = meta_key m"
    by (simp_all add: remove meta_key_def)
qed

text \<open>The state of a reconciler: the cluster properties it has read and an invariant of its world.\<close>

definition reconciler_inv :: "cluster_properties \<Rightarrow> ('w \<Rightarrow> bool) \<Rightarrow> 'w reconciler_state \<Rightarrow> bool" where
  "reconciler_inv props I s \<longleftrightarrow> fst s = props \<and> I (snd s)"

lemma keeps_inv_on_world [keeps_rules]:
  "keeps I f \<Longrightarrow> keeps (reconciler_inv props I) (on_world f)"
  by (simp add: keeps_def reconciler_inv_def)

lemma properties_cached:
  "props_IsValid (fst s) \<Longrightarrow> reconciler_properties R s = (Ok (fst s), s)"
  by (simp add: reconciler_properties_def GetClusterProperties_def)

lemma keeps_inv_properties [keeps_rules]:
  "props_IsValid props \<Longrightarrow> keeps (reconciler_inv props I) (reconciler_properties R)"
  by (simp add: keeps_def reconciler_inv_def properties_cached)

lemma addFinalizer_inv:
  assumes laws: "export_laws R V cid" and s: "reconciler_inv props (safe_world V cid) s"
    and stored: "obExports V (snd s) (meta_key (sxMeta ex)) = Some ex"
    and f: "addFinalizer R ex s = (r, s')"
  shows "reconciler_inv props (safe_world V cid) s'"
    and "r = Ok ex' \<Longrightarrow> reconciler_inv props (leak_free_at V cid (meta_key (sxMeta ex))) s'
      \<and> ServiceExportFinalizer \<in> set (omFinalizers (sxMeta ex')) \<and> meta_key (sxMeta ex') = meta_key (sxMeta ex)"
proof -
  note fins = export_laws_finalizers [OF laws]
  let ?key = "meta_key (sxMeta ex)"
  let ?ex1 = "ex\<lparr>sxMeta := AddFinalizer (reExt R) (sxMeta ex) ServiceExportFinalizer\<rparr>"
  have "reconciler_inv props (safe_world V cid) s' \<and> (r = Ok ex' \<longrightarrow> reconciler_inv props (leak_free_at V cid ?key) s'
    \<and> ServiceExportFinalizer \<in> set (omFinalizers (sxMeta ex')) \<and> meta_key (sxMeta ex') = ?key)"
  proof (cases "ServiceExportFinalizer \<in> set (omFinalizers (sxMeta ex))")
    case True
    then have "s' = s" "r = Ok ex" using f by (simp_all add: addFinalizer_def fins)
    then show ?thesis
      using s stored True by (auto simp: reconciler_inv_def leak_free_at_def protected_def)
  next
    case False
    then have u: "kUpdateServiceExport (reClient R) ?ex1 (snd s) = (r, snd s')" and "fst s' = fst s"
      using f by (simp_all add: addFinalizer_def on_world_eq fins)
    have fin: "ServiceExportFinalizer \<in> set (omFinalizers (sxMeta ?ex1))" by (simp add: fins)
    have inv: "safe_world V cid (snd s)" using s by (simp add: reconciler_inv_def)
    show ?thesis
      using finalizer_update_keeps(1) [OF laws fin inv u] finalizer_update_keeps(2) [OF laws fin inv u, of ex']
        \<open>fst s' = fst s\<close> s
      by (auto simp: reconciler_inv_def same_object_def fins)
  qed
  then show "reconciler_inv props (safe_world V cid) s'"
    and "r = Ok ex' \<Longrightarrow> reconciler_inv props (leak_free_at V cid ?key) s'
      \<and> ServiceExportFinalizer \<in> set (omFinalizers (sxMeta ex')) \<and> meta_key (sxMeta ex') = ?key"
    by blast+
qed

lemma owner_ref_keeps:
  assumes laws: "export_laws R V cid" and fin: "ServiceExportFinalizer \<in> set (omFinalizers (sxMeta ex))"
  shows "keeps (reconciler_inv props (leak_free_at V cid (meta_key (sxMeta ex))))
    (bind_ok (Pair (reSetControllerReference R svc ex)) (\<lambda>ex2. on_world (kUpdateServiceExport (reClient R) ex2)))"
proof (cases "reSetControllerReference R svc ex")
  case (Ok ex2)
  then have "same_object ex ex2" using export_laws_owner [OF laws] by blast
  then have fin2: "ServiceExportFinalizer \<in> set (omFinalizers (sxMeta ex2))"
    and key: "meta_key (sxMeta ex2) = meta_key (sxMeta ex)"
    using fin by (simp_all add: same_object_def)
  have "keeps (leak_free_at V cid (meta_key (sxMeta ex2))) (kUpdateServiceExport (reClient R) ex2)"
  proof (rule keepsI)
    fix w r w'
    assume inv: "leak_free_at V cid (meta_key (sxMeta ex2)) w" and u: "kUpdateServiceExport (reClient R) ex2 w = (r, w')"
    then have "safe_world V cid w" by (simp add: leak_free_at_def)
    from finalizer_update_keeps(3) [OF laws fin2 this u inv]
    show "leak_free_at V cid (meta_key (sxMeta ex2)) w'" .
  qed
  then show ?thesis using Ok key by (auto intro: keeps_rules)
qed (simp_all add: keeps_def bind_ok_def)

lemma addFinalizerAndOwnerRef_inv:
  assumes laws: "export_laws R V cid" and s: "reconciler_inv props (safe_world V cid) s"
    and stored: "obExports V (snd s) (meta_key (sxMeta ex)) = Some ex"
    and r: "addFinalizerAndOwnerRef R ex svc s = (r, s')"
  shows "reconciler_inv props (safe_world V cid) s'"
    and "r = Ok ex' \<Longrightarrow> reconciler_inv props (leak_free_at V cid (meta_key (sxMeta ex))) s'"
proof -
  let ?key = "meta_key (sxMeta ex)"
  obtain r1 s1 where f: "addFinalizer R ex s = (r1, s1)" by (rule prod.exhaust)
  note s1 = addFinalizer_inv [OF laws s stored f]
  have tail: "reconciler_inv props (leak_free_at V cid ?key) s'" if "r1 = Ok ex1" for ex1
  proof -
    note e1 = s1(2) [OF that]
    then have "keeps (reconciler_inv props (leak_free_at V cid ?key))
        (bind_ok (Pair (reSetControllerReference R svc ex1)) (\<lambda>ex2. on_world (kUpdateServiceExport (reClient R) ex2)))"
      using owner_ref_keeps [OF laws, of ex1 props svc] by simp
    then show ?thesis
      using r f that e1 keepsD
      by (fastforce simp: addFinalizerAndOwnerRef_def split: if_splits)
  qed
  have stop: "s' = s1" if "\<nexists>ex1. r1 = Ok ex1"
    using that r f by (cases r1) (simp_all add: addFinalizerAndOwnerRef_def)
  show "reconciler_inv props (safe_world V cid) s'"
    using tail stop s1(1) by (cases "\<exists>ex1. r1 = Ok ex1") (auto simp: reconciler_inv_def leak_free_at_def)
  assume "r = Ok ex'"
  then have "\<exists>ex1. r1 = Ok ex1" using r f by (cases r1) (simp_all add: addFinalizerAndOwnerRef_def)
  then show "reconciler_inv props (leak_free_at V cid ?key) s'" using tail by blast
qed

lemma keeps_execute_changes:
  assumes "export_laws R V cid" and "obKey V (n, m)"
  shows "keeps (reconciler_inv props (leak_free_at V cid (n, m))) (execute_changes R n m ch)"
  unfolding execute_changes_def by (intro keeps_rules registry_keeps [OF assms])

lemma keeps_createOrGet:
  assumes "export_laws R V cid" and key: "obKey V (meta_key (svMeta svc))"
  shows "keeps (reconciler_inv props (leak_free_at V cid key)) (createOrGetCloudMapService R svc)"
proof -
  let ?I = "reconciler_inv props (leak_free_at V cid key)"
  let ?get = "on_world (sdGetService (reCloudMap R) (omNamespace (svMeta svc)) (omName (svMeta svc)))"
  have g: "keeps ?I ?get"
    by (intro keeps_rules unobserved_keeps export_laws_reads [OF assms(1)] key [unfolded meta_key_def])
  have c: "keeps ?I (bind_ok (on_world (sdCreateService (reCloudMap R) (omNamespace (svMeta svc)) (omName (svMeta svc))))
      (\<lambda>_. ?get))"
    by (intro keeps_rules unobserved_keeps export_laws_reads [OF assms(1)] key [unfolded meta_key_def])
  show ?thesis
  proof (rule keepsI)
    fix s r s' assume "?I s" and r: "createOrGetCloudMapService R svc s = (r, s')"
    obtain r1 s1 where f: "?get s = (r1, s1)" by (rule prod.exhaust)
    have "?I s1" using keepsD [OF g \<open>?I s\<close> f] .
    then show "?I s'" using r f keepsD [OF c]
      by (cases r1) (auto simp: createOrGetCloudMapService_def Let_def split: if_splits)
  qed
qed

lemma keeps_extractEndpoints:
  assumes "export_laws R V cid" and "props_IsValid props"
  shows "keeps (reconciler_inv props (leak_free_at V cid key)) (extractEndpoints R svc ex)"
  unfolding extractEndpoints_def
  by (intro keeps_rules unobserved_keeps export_laws_reads [OF assms(1)] assms(2))


lemma handleUpdate_keeps:
  assumes laws: "export_laws R V cid" and valid: "props_IsValid props"
    and s: "reconciler_inv props (safe_world V cid) s"
    and stored: "obExports V (snd s) (meta_key (sxMeta ex)) = Some ex"
    and svc: "meta_key (svMeta svc) = meta_key (sxMeta ex)" and key: "obKey V (meta_key (sxMeta ex))"
    and r: "handleUpdate R c ex svc s = (r, s')"
  shows "reconciler_inv props (safe_world V cid) s'"
proof -
  let ?I = "reconciler_inv props (leak_free_at V cid (meta_key (sxMeta ex)))"
  let ?rest = "\<lambda>ex'. bind_ok (createOrGetCloudMapService R svc) (\<lambda>cmService.
      bind_ok (extractEndpoints R svc ex') (\<lambda>endpoints s.
        execute_changes R (omNamespace (svMeta svc)) (omName (svMeta svc))
          (CalculateChanges (reOrder R (snd s))
             \<lparr>planCurrent = GetEndpoints cmService c, planDesired = endpoints\<rparr>) s))"
  obtain r1 s1 where f: "addFinalizerAndOwnerRef R ex svc s = (r1, s1)" by (rule prod.exhaust)
  note a = addFinalizerAndOwnerRef_inv [OF laws s stored f]
  have "keeps ?I (execute_changes R (omNamespace (svMeta svc)) (omName (svMeta svc)) ch)" for ch
    using keeps_execute_changes [OF laws, of "omNamespace (svMeta svc)" "omName (svMeta svc)" props ch] svc key
    by (simp add: meta_key_def)
  then have "keeps ?I (\<lambda>s. execute_changes R (omNamespace (svMeta svc)) (omName (svMeta svc)) (g s) s)" for g
    by (simp add: keeps_def)
  then have rest: "keeps ?I (?rest ex')" for ex'
    by (intro keeps_rules keeps_createOrGet [OF laws key [folded svc]] keeps_extractEndpoints [OF laws valid])
  show ?thesis
  proof (cases "\<exists>ex'. r1 = Ok ex'")
    case True
    then obtain ex' where "r1 = Ok ex'" ..
    then have "?I s1" and "?rest ex' s1 = (r, s')" using a(2) r f by (simp_all add: handleUpdate_def)
    then have "?I s'" by (rule keepsD [OF rest])
    then show ?thesis by (simp add: reconciler_inv_def leak_free_at_def)
  next
    case False
    then have "s' = s1" using r f by (cases r1) (simp_all add: handleUpdate_def)
    then show ?thesis using a(1) by simp
  qed
qed

lemma own_after_delete:
  assumes laws: "export_laws R V cid" and key: "obKey V (n, m)" and valid: "obValid V w"
    and d: "sdDeleteEndpoints (reCloudMap R) n m es w = (r, w')"
  shows "own_endpoints V cid w' key \<subseteq> own_endpoints V cid w key"
    and "\<lbrakk>is_ok r; set es = own_endpoints V cid w (n, m)\<rbrakk> \<Longrightarrow> own_endpoints V cid w' (n, m) = {}"
proof -
  note l = export_laws_deregister [OF laws key valid d]
  show "own_endpoints V cid w' key \<subseteq> own_endpoints V cid w key"
  proof (cases "key = (n, m)")
    case True
    show ?thesis
    proof
      fix e assume "e \<in> own_endpoints V cid w' key"
      then show "e \<in> own_endpoints V cid w key"
        using l(4) [of "epId e"] True by (auto simp: own_endpoints_def)
    qed
  next
    case False
    then show ?thesis using l(2) by (simp add: own_endpoints_def)
  qed
  assume ok: "is_ok r" and es: "set es = own_endpoints V cid w (n, m)"
  have False if e: "e \<in> own_endpoints V cid w' (n, m)" for e
  proof -
    have "fmlookup (deregistered (obView V w (n, m)) es) (epId e) = Some e" "epClusterId e = cid"
      using e l(3) [OF ok] by (simp_all add: own_endpoints_def)
    then have "epId e \<notin> epId ` set es" "e \<in> own_endpoints V cid w (n, m)"
      by (simp_all add: lookup_deregistered own_endpoints_def split: if_splits)
    then show False using es by auto
  qed
  then show "own_endpoints V cid w' (n, m) = {}" by blast
qed

lemma delete_no_leak:
  assumes laws: "export_laws R V cid" and key: "obKey V (n, m)" and inv: "safe_world V cid w"
    and d: "sdDeleteEndpoints (reCloudMap R) n m es w = (r, w')"
  shows "safe_world V cid w'"
proof (rule safe_world_step [OF inv])
  have valid: "obValid V w" using inv by (simp add: safe_world_def)
  note l = export_laws_deregister [OF laws key valid d]
  show "obValid V w'" by (rule l(5))
  show "\<forall>k. k \<noteq> (n, m) \<longrightarrow> obExports V w' k = obExports V w k \<and> obView V w' k = obView V w k"
    using l(1,2) by (simp del: split_paired_All)
  assume "own_endpoints V cid w' (n, m) \<noteq> {}"
  then have "own_endpoints V cid w (n, m) \<noteq> {}" using own_after_delete(1) [OF laws key valid d] by blast
  then show "protected V (n, m) w'"
    using inv l(1) by (simp add: safe_world_def no_leak_def protected_def del: split_paired_All)
qed


lemma delete_exported_inv:
  assumes laws: "export_laws R V cid" and k: "obKey V (meta_key (sxMeta ex))" and s: "reconciler_inv props (safe_world V cid) s"
    and r: "delete_exported R cid ex s = (r, s')"
  shows "reconciler_inv props (safe_world V cid) s'"
    and "r = Ok u \<Longrightarrow> own_endpoints V cid (snd s') (meta_key (sxMeta ex)) = {}"
proof -
  let ?n = "omNamespace (sxMeta ex)" and ?m = "omName (sxMeta ex)"
  let ?get = "sdGetService (reCloudMap R) ?n ?m"
  have key: "meta_key (sxMeta ex) = (?n, ?m)" by (simp add: meta_key_def)
  note k' = k [unfolded key] and valid = s [unfolded reconciler_inv_def safe_world_def, THEN conjunct2, THEN conjunct1]
  have un: "unobserved V ?get" by (rule export_laws_reads(5) [OF laws k'])
  obtain r1 s1 where f: "on_world ?get s = (r1, s1)" by (rule prod.exhaust)
  then have g: "fst (?get (snd s)) = r1" "snd (?get (snd s)) = snd s1" "fst s1 = fst s" by (simp_all add: on_world_eq)
  have same: "own_endpoints V cid (snd s1) k = own_endpoints V cid (snd s) k" for k
    using un valid unfolding own_endpoints_def unobserved_def g(2) [symmetric] by simp
  have s1: "reconciler_inv props (safe_world V cid) s1"
    using keepsD [OF keeps_inv_on_world [OF unobserved_keeps(1) [OF un]] s f] .
  have "reconciler_inv props (safe_world V cid) s' \<and> (r = Ok u \<longrightarrow> own_endpoints V cid (snd s') (?n, ?m) = {})"
  proof (cases r1)
    case (Ok cm)
    then have cm: "svcNamespace cm = ?n" "svcName cm = ?m"
      "set (GetEndpoints cm cid) = own_endpoints V cid (snd s1) (?n, ?m)"
      using export_laws_get(3) [OF laws k' valid] g(1) same by blast+
    have d: "sdDeleteEndpoints (reCloudMap R) ?n ?m (GetEndpoints cm cid) (snd s1) = (r, snd s')" "fst s' = fst s1"
      using r f Ok cm by (simp_all add: delete_exported_def on_world_eq)
    show ?thesis
      using delete_no_leak [OF laws k' _ d(1)] own_after_delete(2) [OF laws k' _ d(1) _ cm(3)] s1 d(2)
      by (auto simp: reconciler_inv_def safe_world_def)
  next
    case (Err e)
    then show ?thesis
      using r f s1 same export_laws_get(4) [OF laws k' valid, of e] g(1)
      by (auto simp: delete_exported_def split: if_splits)
  next
    case Panic
    then show ?thesis using r f s1 by (auto simp: delete_exported_def)
  qed
  then show "reconciler_inv props (safe_world V cid) s'"
    and "r = Ok u \<Longrightarrow> own_endpoints V cid (snd s') (meta_key (sxMeta ex)) = {}"
    unfolding key by blast+
qed

lemma handleDelete_keeps:
  assumes laws: "export_laws R V cid" and key: "obKey V (meta_key (sxMeta ex))"
  shows "keeps (reconciler_inv props (safe_world V cid)) (handleDelete R cid ex)"
proof (rule keepsI)
  note fins = export_laws_finalizers [OF laws]
  fix s r s'
  let ?I = "reconciler_inv props (safe_world V cid)"
  let ?ex = "ex\<lparr>sxMeta := RemoveFinalizer (reExt R) (sxMeta ex) ServiceExportFinalizer\<rparr>"
  assume s: "?I s" and r: "handleDelete R cid ex s = (r, s')"
  obtain r1 s1 where f: "delete_exported R cid ex s = (r1, s1)" by (rule prod.exhaust)
  note d = delete_exported_inv [OF laws key s f]
  show "?I s'"
  proof (cases "ServiceExportFinalizer \<in> set (omFinalizers (sxMeta ex)) \<and> (\<exists>u. r1 = Ok u)")
    case True
    then obtain r2 where u: "kUpdateServiceExport (reClient R) ?ex (snd s1) = (r2, snd s')" "fst s' = fst s1"
      using r f by (auto simp: handleDelete_def fins bind_ok_def on_world_def split: outcome_splits)
    have "obValid V (snd s1)" using d(1) by (simp add: reconciler_inv_def safe_world_def)
    note l = export_laws_update [OF laws this u(1), simplified, unfolded fins]
    have own: "own_endpoints V cid (snd s1) (meta_key (sxMeta ex)) = {}" using d(2) True by blast
    have "safe_world V cid (snd s')"
    proof (rule safe_world_step)
      show s1: "safe_world V cid (snd s1)" using d(1) by (simp add: reconciler_inv_def)
      show "obValid V (snd s')" by (rule l(5))
      show "\<forall>k. k \<noteq> meta_key (sxMeta ex) \<longrightarrow>
          obExports V (snd s') k = obExports V (snd s1) k \<and> obView V (snd s') k = obView V (snd s1) k"
        using l(1,2) by (simp del: split_paired_All)
      assume "own_endpoints V cid (snd s') (meta_key (sxMeta ex)) \<noteq> {}"
      then show "protected V (meta_key (sxMeta ex)) (snd s')"
        using own own_endpoints_cong [of V "snd s'" _ "snd s1" cid] l(1) by simp
    qed
    then show ?thesis using u(2) d(1) by (simp add: reconciler_inv_def)
  next
    case False
    then show ?thesis
      using r f s d(1) by (cases r1) (auto simp: handleDelete_def fins split: if_splits)
  qed
qed

text \<open>
  A reconciler that may not have read all of its properties yet; what it reads are those of the cluster.
\<close>

definition loading_inv :: "cluster_properties \<Rightarrow> ('w \<Rightarrow> bool) \<Rightarrow> 'w reconciler_state \<Rightarrow> bool" where
  "loading_inv props I s \<longleftrightarrow> props_within (fst s) props \<and> I (snd s)"

lemma reconciler_inv_loading: "reconciler_inv props I s \<Longrightarrow> loading_inv props I s"
  by (simp add: reconciler_inv_def loading_inv_def)

lemma unobserved_loading:
  assumes "unobserved V f" and "loading_inv props (safe_world V cid) s" and "on_world f s = (r, s')"
  shows "loading_inv props (safe_world V cid) s'" and "obExports V (snd s') = obExports V (snd s)"
proof -
  have v: "obValid V (snd s)" using assms(2) by (simp add: loading_inv_def safe_world_def)
  have "f (snd s) = (r, snd s')" "fst s' = fst s" using assms(3) by (simp_all add: on_world_eq)
  then show "loading_inv props (safe_world V cid) s'" "obExports V (snd s') = obExports V (snd s)"
    using keepsD [OF unobserved_keeps(1) [OF assms(1), of cid]] unobservedD [OF assms(1) v] assms(2)
    by (auto simp: loading_inv_def)
qed

lemma loading_properties:
  assumes laws: "export_laws R V cid" and lists: "lists_truly (kListClusterProperties (reClient R)) props"
    and s: "loading_inv props (safe_world V cid) s" and r: "reconciler_properties R s = (r, s')"
  shows "loading_inv props (safe_world V cid) s'" and "obExports V (snd s') = obExports V (snd s)"
    and "r = Ok p \<Longrightarrow> p = props \<and> reconciler_inv props (safe_world V cid) s'"
proof -
  have within: "props_within (fst s) props" using s by (simp add: loading_inv_def)
  note d = GetClusterProperties_within [OF lists within r [unfolded reconciler_properties_def]]
  obtain l t where l: "on_world (kListClusterProperties (reClient R)) s = (l, t)" by (rule prod.exhaust)
  note t = unobserved_loading [OF export_laws_reads(4) [OF laws] s l]
  have "snd s' = snd s \<or> snd s' = snd t" using d(3) l by (auto simp: on_world_eq)
  then show 1: "loading_inv props (safe_world V cid) s'" and "obExports V (snd s') = obExports V (snd s)"
    using s t d(1) by (auto simp: loading_inv_def)
  show "r = Ok p \<Longrightarrow> p = props \<and> reconciler_inv props (safe_world V cid) s'"
    using d(2) 1 by (simp add: reconciler_inv_def loading_inv_def)
qed

lemma ReconcileExport_keeps:
  assumes laws: "export_laws R V cid" and lists: "lists_truly (kListClusterProperties (reClient R)) props"
    and props: "props_IsValid props" "cpClusterId props = cid"
  shows "keeps (loading_inv props (safe_world V cid)) (ReconcileExport R key)"
proof (rule keepsI)
  fix s r s'
  let ?I = "loading_inv props (safe_world V cid)"
  assume s: "?I s" and r: "ReconcileExport R key s = (r, s')"
  let ?gx = "kGetServiceExport (reClient R) key"
  obtain r1 s1 where f: "on_world ?gx s = (r1, s1)" by (rule prod.exhaust)
  note s1 = unobserved_loading [OF export_laws_reads(1) [OF laws] s f]
  show "?I s'"
  proof (cases r1)
    case (Ok ex)
    let ?gs = "kGetService (reClient R) (omNamespace (sxMeta ex), omName (sxMeta ex))"
    let ?go = "\<lambda>marked svc. bind_ok (reconciler_properties R) (\<lambda>props.
      if marked then handleDelete R (cpClusterId props) ex else handleUpdate R (cpClusterId props) ex svc)"
    obtain r2 s2 where g: "on_world ?gs s1 = (r2, s2)" by (rule prod.exhaust)
    note s2 = unobserved_loading [OF export_laws_reads(2) [OF laws] s1(1) g]
    obtain r3 s3 where p: "reconciler_properties R s2 = (r3, s3)" by (rule prod.exhaust)
    note s3 = loading_properties [OF laws lists s2(1) p]
    have got: "obExports V (snd s) key = Some ex \<and> meta_key (sxMeta ex) = key \<and> obKey V key"
      using export_laws_get(1) [OF laws, of "snd s" key ex] f Ok s by (simp add: on_world_eq loading_inv_def safe_world_def)
    then have k: "obKey V (meta_key (sxMeta ex))" by simp
    have stored: "obExports V (snd s3) (meta_key (sxMeta ex)) = Some ex" using got s1(2) s2(2) s3(2) by simp
    have svc: "meta_key (svMeta svc) = meta_key (sxMeta ex)" if "r2 = Ok svc" for svc
      using export_laws_get(2) [OF laws, of "(omNamespace (sxMeta ex), omName (sxMeta ex))" "snd s1" svc] g that
      by (simp add: on_world_eq meta_key_def)
    have go: "?I t" if "?go marked svc s2 = (r', t)" and "marked \<or> r2 = Ok svc" for marked svc r' t
    proof (cases r3)
      case (Ok q)
      note q = s3(3) [OF Ok]
      have t: "(if marked then handleDelete R cid ex else handleUpdate R cid ex svc) s3 = (r', t)"
        using that(1) p Ok q props(2) by (auto split: if_splits)
      have "reconciler_inv props (safe_world V cid) t"
      proof (cases marked)
        case True
        then show ?thesis using t keepsD [OF handleDelete_keeps [OF laws k, of props] q [THEN conjunct2], of r' t] by simp
      next
        case False
        then show ?thesis
          using t that(2) handleUpdate_keeps [OF laws props(1) q [THEN conjunct2] stored svc k, of svc cid r' t]
          by simp
      qed
      then show ?thesis by (rule reconciler_inv_loading)
    qed (use that(1) p s3(1) in auto)
    show ?thesis
      using r f Ok g s2(1) go by (cases r2) (auto simp: ReconcileExport_def Let_def split: if_splits)
  qed (use r f s1 in \<open>simp_all add: ReconcileExport_def\<close>)
qed

text \<open>The mapping function of a ClusterProperty event reads the properties again.\<close>

lemma clusterPropertyMapping_keeps:
  assumes laws: "export_laws R V cid" and lists: "lists_truly (kListClusterProperties (reClient R)) props"
  shows "keeps (loading_inv props (safe_world V cid)) (clusterPropertyMappingFunction R)"
proof (rule keepsI)
  fix s r s'
  let ?I = "loading_inv props (safe_world V cid)"
  assume s: "?I s" and r: "clusterPropertyMappingFunction R s = (r, s')"
  have within: "props_within (fst s) props" using s by (simp add: loading_inv_def)
  obtain r1 s1 where l: "LoadClusterProperties (kListClusterProperties (reClient R)) s = (r1, s1)" by (rule prod.exhaust)
  note d = LoadClusterProperties_within [OF lists within l]
  obtain l' t where "on_world (kListClusterProperties (reClient R)) s = (l', t)" by (rule prod.exhaust)
  with d have s1: "?I s1"
    using unobserved_loading(1) [OF export_laws_reads(4) [OF laws] s] by (fastforce simp: loading_inv_def on_world_eq)
  obtain r2 s2 where x: "on_world (kListServiceExports (reClient R)) s1 = (r2, s2)" by (rule prod.exhaust)
  show "?I s'"
    using r l x s1 unobserved_loading(1) [OF export_laws_reads(7) [OF laws] s1 x]
    by (auto simp: clusterPropertyMappingFunction_def split: outcome.splits)
qed


section \<open>What an update achieves\<close>

lemma view_unchanged:
  "\<lbrakk>unobserved V f; obValid V (snd s); on_world f s = (r, s')\<rbrakk> \<Longrightarrow>
    obValid V (snd s') \<and> obView V (snd s') = obView V (snd s) \<and> fst s' = fst s"
  using unobservedD [of V f "snd s" r "snd s'"] by (simp add: on_world_eq)

lemma extractEndpoints_eq:
  assumes laws: "export_laws R V cid" and w: "obValid V (snd s)" and valid: "props_IsValid (fst s)"
    and l: "\<forall>w. fst (kListEndpointSlices (reClient R) (omNamespace (svMeta svc))
      (LabelServiceName, omName (svMeta svc)) w) = Ok slices"
  shows "\<exists>s'. extractEndpoints R svc ex s = (endpoints_of_slices (export_context_of R (fst s) svc ex) slices, s')
    \<and> obValid V (snd s') \<and> obView V (snd s') = obView V (snd s) \<and> fst s' = fst s"
proof -
  let ?l = "kListEndpointSlices (reClient R) (omNamespace (svMeta svc)) (LabelServiceName, omName (svMeta svc))"
  obtain s' where f: "on_world ?l s = (Ok slices, s')"
    using l by (metis on_world_simps(1) prod.collapse)
  show ?thesis
    using view_unchanged [OF export_laws_reads(3) [OF laws] w f] properties_cached [OF valid, of R] f
    by (simp add: extractEndpoints_def)
qed

lemma addFinalizerAndOwnerRef_Ok:
  assumes laws: "export_laws R V cid" and w: "obValid V (snd s)"
    and r: "addFinalizerAndOwnerRef R ex svc s = (Ok ex', s')"
  shows "obValid V (snd s') \<and> obView V (snd s') = obView V (snd s) \<and> fst s' = fst s
    \<and> omCreationTimestamp (sxMeta ex') = omCreationTimestamp (sxMeta ex)"
proof -
  have up: "obValid V (snd s2) \<and> obView V (snd s2) = obView V (snd s1) \<and> fst s2 = fst s1
      \<and> omCreationTimestamp (sxMeta b) = omCreationTimestamp (sxMeta a)"
    if "obValid V (snd s1)" "on_world (kUpdateServiceExport (reClient R) a) s1 = (Ok b, s2)" for a b s1 s2
    using that export_laws_update(1,3,5) [OF laws, of "snd s1" a "Ok b" "snd s2"]
    by (auto simp: on_world_eq same_object_def)
  from r obtain ex1 s1 where f: "addFinalizer R ex s = (Ok ex1, s1)"
    and g: "(if omOwnerReferences (sxMeta ex1) = []
      then bind_ok (Pair (reSetControllerReference R svc ex1)) (\<lambda>ex2. on_world (kUpdateServiceExport (reClient R) ex2))
      else return_value ex1) s1 = (Ok ex', s')"
    unfolding addFinalizerAndOwnerRef_def by blast
  have "obValid V (snd s1) \<and> obView V (snd s1) = obView V (snd s) \<and> fst s1 = fst s
      \<and> omCreationTimestamp (sxMeta ex1) = omCreationTimestamp (sxMeta ex)"
    using f w up [of s _ ex1 s1] by (auto simp: addFinalizer_def export_laws_finalizers [OF laws] split: if_splits)
  moreover from this have "obValid V (snd s') \<and> obView V (snd s') = obView V (snd s1) \<and> fst s' = fst s1
      \<and> omCreationTimestamp (sxMeta ex') = omCreationTimestamp (sxMeta ex1)"
    using g up [of s1 _ ex' s'] export_laws_owner [OF laws, of svc ex1]
    by (auto simp: bind_ok_eq_Ok same_object_def split: if_splits)
  ultimately show ?thesis by simp
qed

lemma createOrGet_Ok:
  assumes laws: "export_laws R V cid" and w: "obValid V (snd s)" and key: "obKey V (meta_key (svMeta svc))"
    and r: "createOrGetCloudMapService R svc s = (Ok cm, s')"
  shows "obValid V (snd s') \<and> obView V (snd s') = obView V (snd s) \<and> fst s' = fst s
    \<and> set (GetEndpoints cm cid) = own_endpoints V cid (snd s') (meta_key (svMeta svc))"
proof -
  let ?n = "omNamespace (svMeta svc)" and ?m = "omName (svMeta svc)"
  note k = key [unfolded meta_key_def]
  have g: "obValid V (snd s2) \<and> obView V (snd s2) = obView V (snd s1) \<and> fst s2 = fst s1
      \<and> set (GetEndpoints cm cid) = own_endpoints V cid (snd s2) (meta_key (svMeta svc))"
    if v: "obValid V (snd s1)" and q: "on_world (sdGetService (reCloudMap R) ?n ?m) s1 = (Ok cm, s2)" for s1 s2
    using view_unchanged [OF export_laws_reads(5) [OF laws k] v q] export_laws_get(3) [OF laws k v, of cm] q
      own_endpoints_cong [of V "snd s2" "(?n, ?m)" "snd s1" cid]
    by (simp add: on_world_eq meta_key_def)
  obtain r1 s1 where f: "on_world (sdGetService (reCloudMap R) ?n ?m) s = (r1, s1)" by (rule prod.exhaust)
  note s1 = view_unchanged [OF export_laws_reads(5) [OF laws k] w f]
  show ?thesis
  proof (cases r1)
    case (Ok c)
    then show ?thesis using r f w g [of s s'] by (simp add: createOrGetCloudMapService_def Let_def)
  next
    case (Err e)
    then obtain u s2 where c: "on_world (sdCreateService (reCloudMap R) ?n ?m) s1 = (Ok u, s2)"
      and q: "on_world (sdGetService (reCloudMap R) ?n ?m) s2 = (Ok cm, s')"
      using r f by (auto simp: createOrGetCloudMapService_def Let_def split: if_splits)
    note v = view_unchanged [OF export_laws_reads(6) [OF laws k] s1 [THEN conjunct1] c]
    show ?thesis using s1 v g [OF v [THEN conjunct1] q] by simp
  qed (use r f in \<open>simp add: createOrGetCloudMapService_def Let_def\<close>)
qed

lemma distinct_map_filters:
  assumes "distinct (map f xs)" and "\<And>x. \<not> (P x \<and> Q x)"
  shows "distinct (map f (filter P xs @ filter Q xs))"
  using assms(1)
proof (induction xs)
  case (Cons x xs)
  have "f x \<notin> f ` set (filter P xs @ filter Q xs)" using Cons.prems by auto
  with Cons assms(2) [of x] show ?case by auto
qed simp

lemma CalculateChanges_upserts_distinct:
  assumes "distinct (map epId (planDesired p))"
  shows "distinct (map epId (chCreate (CalculateChanges ord p) @ chUpdate (CalculateChanges ord p)))"
  unfolding CalculateChanges_distinct [OF assms] changes.simps
  by (rule distinct_map_filters [OF assms]) auto

lemma execute_changes_Ok:
  assumes laws: "export_laws R V cid" and key: "obKey V (n, m)" and w: "obValid V (snd s)"
    and fits: "\<forall>e \<in> set (chCreate ch @ chUpdate ch). obFits V e" "distinct (map epId (chCreate ch @ chUpdate ch))"
    and r: "execute_changes R n m ch s = (Ok u, s')"
  shows "obView V (snd s') (n, m) = apply_changes ch (obView V (snd s) (n, m))"
    and "\<forall>k. k \<noteq> (n, m) \<longrightarrow> obView V (snd s') k = obView V (snd s) k"
proof -
  from r obtain v s1 where
    f: "(if HasUpdates ch then on_world (sdRegisterEndpoints (reCloudMap R) n m (chCreate ch @ chUpdate ch))
         else return_value ()) s = (Ok v, s1)"
    and g: "(if HasDeletes ch then on_world (sdDeleteEndpoints (reCloudMap R) n m (chDelete ch))
         else return_value ()) s1 = (Ok u, s')"
    unfolding execute_changes_def by blast
  have 1: "obValid V (snd s1) \<and> obView V (snd s1) (n, m) = registered (obView V (snd s) (n, m)) (chCreate ch @ chUpdate ch)
      \<and> (\<forall>k. k \<noteq> (n, m) \<longrightarrow> obView V (snd s1) k = obView V (snd s) k)"
  proof (cases "HasUpdates ch")
    case True
    then have "sdRegisterEndpoints (reCloudMap R) n m (chCreate ch @ chUpdate ch) (snd s) = (Ok v, snd s1)"
      using f by (simp add: on_world_eq)
    from export_laws_register(2,3,4) [OF laws key w this] fits show ?thesis by (simp del: split_paired_All)
  qed (use f w in \<open>simp add: HasUpdates_def registered_def\<close>)
  have 2: "obView V (snd s') (n, m) = deregistered (obView V (snd s1) (n, m)) (chDelete ch)
      \<and> (\<forall>k. k \<noteq> (n, m) \<longrightarrow> obView V (snd s') k = obView V (snd s1) k)"
  proof (cases "HasDeletes ch")
    case True
    then have "sdDeleteEndpoints (reCloudMap R) n m (chDelete ch) (snd s1) = (Ok u, snd s')"
      using g by (simp add: on_world_eq)
    from export_laws_deregister(2,3) [OF laws key 1 [THEN conjunct1] this] show ?thesis by (simp del: split_paired_All)
  qed (use g in \<open>simp add: HasDeletes_def deregistered_def\<close>)
  show "obView V (snd s') (n, m) = apply_changes ch (obView V (snd s) (n, m))"
    and "\<forall>k. k \<noteq> (n, m) \<longrightarrow> obView V (snd s') k = obView V (snd s) k"
    using 1 2 by (simp_all add: apply_changes_def del: split_paired_All)
qed

text \<open>The registry an export should leave: what it exports, and what other clusters have registered.\<close>

definition exported_registry ::
  "endpoint list \<Rightarrow> endpoint set \<Rightarrow> (string, endpoint) fmap \<Rightarrow> string \<Rightarrow> endpoint option" where
  "exported_registry es own store i =
     (case fmlookup (index_by epId es) i of
        Some e \<Rightarrow> Some e
      | None \<Rightarrow> if i \<in> epId ` own then None else fmlookup store i)"

lemma changes_reach_registry:
  assumes ord: "is_range_order ord" and dist: "distinct (map epId es)" and cur: "set cur = own_endpoints V cid w key"
  shows "fmlookup (apply_changes (CalculateChanges ord \<lparr>planCurrent = cur, planDesired = es\<rparr>) (obView V w key)) i
    = exported_registry es (own_endpoints V cid w key) (obView V w key) i"
proof -
  let ?p = "\<lparr>planCurrent = cur, planDesired = es\<rparr>"
  have "fmlookup (obView V w key) k = fmlookup (index_by epId (planCurrent ?p)) k"
    if "k \<in> epId ` set (planCurrent ?p)" for k
  proof -
    from that obtain e where "fmlookup (index_by epId cur) k = Some e"
      using index_by_None [of epId cur k] by fastforce
    moreover from this have "fmlookup (obView V w key) k = Some e"
      using index_by_Some [of epId cur k e] cur by (auto simp: own_endpoints_def)
    ultimately show ?thesis by simp
  qed
  then show ?thesis
    using apply_changes_store [OF ord, of ?p "obView V w key" i] dist cur by (simp add: exported_registry_def)
qed

lemma handleUpdate_reaches:
  assumes laws: "export_laws R V cid" and valid: "props_IsValid (fst s)"
    and ord: "\<forall>w. is_range_order (reOrder R w)"
    and l: "\<forall>w. fst (kListEndpointSlices (reClient R) (omNamespace (svMeta svc))
      (LabelServiceName, omName (svMeta svc)) w) = Ok slices"
    and es: "endpoints_of_slices (export_context_of R (fst s) svc ex) slices = Ok es"
    and dist: "distinct (map epId es)" and fits: "\<forall>e \<in> set es. obFits V e"
    and w: "obValid V (snd s)" and k: "obKey V (meta_key (svMeta svc))"
    and r: "handleUpdate R cid ex svc s = (Ok (), s')"
  shows "fmlookup (obView V (snd s') (meta_key (svMeta svc))) i
      = exported_registry es (own_endpoints V cid (snd s) (meta_key (svMeta svc)))
          (obView V (snd s) (meta_key (svMeta svc))) i"
    and "\<forall>k. k \<noteq> meta_key (svMeta svc) \<longrightarrow> obView V (snd s') k = obView V (snd s) k"
proof -
  let ?key = "meta_key (svMeta svc)"
  have key: "(omNamespace (svMeta svc), omName (svMeta svc)) = ?key" by (simp add: meta_key_def)
  from r obtain ex1 s1 cm s2 es' s3 where 1: "addFinalizerAndOwnerRef R ex svc s = (Ok ex1, s1)"
    and 2: "createOrGetCloudMapService R svc s1 = (Ok cm, s2)"
    and 3: "extractEndpoints R svc ex1 s2 = (Ok es', s3)"
    and 4: "execute_changes R (omNamespace (svMeta svc)) (omName (svMeta svc))
      (CalculateChanges (reOrder R (snd s3)) \<lparr>planCurrent = GetEndpoints cm cid, planDesired = es'\<rparr>) s3 = (Ok (), s')"
    unfolding handleUpdate_def by blast
  note f1 = addFinalizerAndOwnerRef_Ok [OF laws w 1]
  note f2 = createOrGet_Ok [OF laws f1 [THEN conjunct1] k 2]
  have "props_IsValid (fst s2)" using valid f1 f2 by simp
  from extractEndpoints_eq [OF laws f2 [THEN conjunct1] this l, of ex1] 3
  have x: "endpoints_of_slices (export_context_of R (fst s2) svc ex1) slices = Ok es'"
    "obView V (snd s3) = obView V (snd s2)" "obValid V (snd s3)" by auto
  have "es' = es" using x(1) es f1 f2 by (simp add: export_context_of_def)
  have view: "obView V (snd s3) = obView V (snd s)" "obView V (snd s2) = obView V (snd s)" using f1 f2 x(2) by simp_all
  have own: "set (GetEndpoints cm cid) = own_endpoints V cid (snd s) ?key"
    using f2 view(2) by (simp add: own_endpoints_def)
  let ?ch = "CalculateChanges (reOrder R (snd s3)) \<lparr>planCurrent = GetEndpoints cm cid, planDesired = es'\<rparr>"
  have "set (chCreate ?ch @ chUpdate ?ch) \<subseteq> set es"
    using dist by (auto simp: \<open>es' = es\<close> CalculateChanges_distinct)
  then have fits': "\<forall>e \<in> set (chCreate ?ch @ chUpdate ?ch). obFits V e" using fits by blast
  have "distinct (map epId (chCreate ?ch @ chUpdate ?ch))"
    using dist CalculateChanges_upserts_distinct [of "\<lparr>planCurrent = GetEndpoints cm cid, planDesired = es'\<rparr>"]
    by (simp add: \<open>es' = es\<close>)
  note f4 = execute_changes_Ok [OF laws k [unfolded meta_key_def] x(3) fits' this 4]
  show "fmlookup (obView V (snd s') ?key) i
      = exported_registry es (own_endpoints V cid (snd s) ?key) (obView V (snd s) ?key) i"
    using f4(1) changes_reach_registry [OF ord [rule_format] dist own, of "snd s3" i] \<open>es' = es\<close> view(1)
    by (simp add: key)
  show "\<forall>k. k \<noteq> ?key \<longrightarrow> obView V (snd s') k = obView V (snd s) k"
    using f4(2) view(1) by (simp add: key del: split_paired_All)
qed


section \<open>What a deletion achieves\<close>

text \<open>What Cloud Map keeps when the endpoints \<open>own\<close> are removed.\<close>

lemma delete_exported_Ok:
  assumes laws: "export_laws R V cid" and k: "obKey V (meta_key (sxMeta ex))" and w: "obValid V (snd s)" and r: "delete_exported R cid ex s = (Ok u, s')"
  shows "fmlookup (obView V (snd s') (meta_key (sxMeta ex))) i
      = (if i \<in> epId ` own_endpoints V cid (snd s) (meta_key (sxMeta ex)) then None
         else fmlookup (obView V (snd s) (meta_key (sxMeta ex))) i)"
    and "\<forall>k. k \<noteq> meta_key (sxMeta ex) \<longrightarrow> obView V (snd s') k = obView V (snd s) k"
    and "obValid V (snd s')"
proof -
  let ?n = "omNamespace (sxMeta ex)" and ?m = "omName (sxMeta ex)"
  let ?get = "sdGetService (reCloudMap R) ?n ?m"
  have key: "meta_key (sxMeta ex) = (?n, ?m)" by (simp add: meta_key_def)
  obtain r1 s1 where f: "on_world ?get s = (r1, s1)" by (rule prod.exhaust)
  note k' = k [unfolded key]
  note s1 = view_unchanged [OF export_laws_reads(5) [OF laws k'] w f]
  have "(fmlookup (obView V (snd s') (?n, ?m)) i
      = (if i \<in> epId ` own_endpoints V cid (snd s) (?n, ?m) then None
         else fmlookup (obView V (snd s) (?n, ?m)) i))
    \<and> (\<forall>k. k \<noteq> (?n, ?m) \<longrightarrow> obView V (snd s') k = obView V (snd s) k) \<and> obValid V (snd s')"
  proof (cases r1)
    case (Ok cm)
    then have cm: "svcNamespace cm = ?n" "svcName cm = ?m"
      "set (GetEndpoints cm cid) = own_endpoints V cid (snd s) (?n, ?m)"
      using export_laws_get(3) [OF laws k' w, of cm] f by (simp_all add: on_world_eq)
    have d: "sdDeleteEndpoints (reCloudMap R) ?n ?m (GetEndpoints cm cid) (snd s1) = (Ok u, snd s')"
      using r f Ok cm by (simp add: delete_exported_def on_world_eq)
    show ?thesis
      using export_laws_deregister(2,3,5) [OF laws k' s1 [THEN conjunct1] d] s1 cm(3)
      by (simp add: lookup_deregistered del: split_paired_All)
  next
    case (Err e)
    then have "own_endpoints V cid (snd s) (?n, ?m) = {}" "s' = s1"
      using r f export_laws_get(4) [OF laws k' w, of e]
      by (auto simp: delete_exported_def on_world_eq split: if_splits)
    then show ?thesis using s1 by simp
  qed (use r f in \<open>simp add: delete_exported_def\<close>)
  then show "fmlookup (obView V (snd s') (meta_key (sxMeta ex))) i
      = (if i \<in> epId ` own_endpoints V cid (snd s) (meta_key (sxMeta ex)) then None
         else fmlookup (obView V (snd s) (meta_key (sxMeta ex))) i)"
    and "\<forall>k. k \<noteq> meta_key (sxMeta ex) \<longrightarrow> obView V (snd s') k = obView V (snd s) k" and "obValid V (snd s')"
    unfolding key by blast+
qed

lemma handleDelete_reaches:
  assumes laws: "export_laws R V cid" and k: "obKey V (meta_key (sxMeta ex))" and w: "obValid V (snd s)"
    and fin: "ServiceExportFinalizer \<in> set (omFinalizers (sxMeta ex))"
    and r: "handleDelete R cid ex s = (Ok (), s')"
  shows "fmlookup (obView V (snd s') (meta_key (sxMeta ex))) i
      = exported_registry [] (own_endpoints V cid (snd s) (meta_key (sxMeta ex)))
          (obView V (snd s) (meta_key (sxMeta ex))) i"
    and "\<forall>k. k \<noteq> meta_key (sxMeta ex) \<longrightarrow> obView V (snd s') k = obView V (snd s) k"
    and "\<forall>ex'. obExports V (snd s') (meta_key (sxMeta ex)) = Some ex'
      \<longrightarrow> set (omFinalizers (sxMeta ex')) = set (omFinalizers (sxMeta ex)) - {ServiceExportFinalizer}"
proof -
  note fins = export_laws_finalizers [OF laws]
  let ?ex = "ex\<lparr>sxMeta := RemoveFinalizer (reExt R) (sxMeta ex) ServiceExportFinalizer\<rparr>"
  from r fin obtain u s1 ex' where 1: "delete_exported R cid ex s = (Ok u, s1)"
    and 2: "on_world (kUpdateServiceExport (reClient R) ?ex) s1 = (Ok ex', s')"
    by (auto simp: handleDelete_def fins bind_ok_eq_Ok)
  note d = delete_exported_Ok [OF laws k w 1]
  have up: "kUpdateServiceExport (reClient R) ?ex (snd s1) = (Ok ex', snd s')" using 2 by (simp add: on_world_eq)
  note l = export_laws_update [OF laws d(3) up, simplified, unfolded fins]
  show "fmlookup (obView V (snd s') (meta_key (sxMeta ex))) i
      = exported_registry [] (own_endpoints V cid (snd s) (meta_key (sxMeta ex)))
          (obView V (snd s) (meta_key (sxMeta ex))) i"
    using d(1) l(1) by (simp add: exported_registry_def)
  show "\<forall>k. k \<noteq> meta_key (sxMeta ex) \<longrightarrow> obView V (snd s') k = obView V (snd s) k"
    using d(2) l(1) by (simp del: split_paired_All)
  show "\<forall>ex'. obExports V (snd s') (meta_key (sxMeta ex)) = Some ex'
      \<longrightarrow> set (omFinalizers (sxMeta ex')) = set (omFinalizers (sxMeta ex)) - {ServiceExportFinalizer}"
  proof -
    have "set (omFinalizers (sxMeta ex')) = set (omFinalizers (sxMeta ex)) - {ServiceExportFinalizer}"
      "obExports V (snd s') (meta_key (sxMeta ex)) = stored ex'"
      using l(3) [of ex'] by (simp_all add: same_object_def fins)
    then show ?thesis by (auto simp: stored_def split: if_splits)
  qed
qed

section \<open>Runs\<close>

text \<open>
  A run is made of reconciles and of reloads of the cluster properties, which ClusterProperty events
  cause. Between them the world may change: users change exports and services, other clusters change
  their endpoints. What it may not do is add endpoints of this cluster, take away an export that
  has the finalizer, or make the world invalid for the observer.
\<close>

inductive export_step ::
  "'w reconciler \<Rightarrow> 'w observer \<Rightarrow> string \<Rightarrow> 'w reconciler_state \<Rightarrow> 'w reconciler_state \<Rightarrow> bool"
  for R V cid where
  reconcile: "ReconcileExport R key s = (r, s') \<Longrightarrow> export_step R V cid s s'"
| reload: "clusterPropertyMappingFunction R s = (keys, s') \<Longrightarrow> export_step R V cid s s'"
| environment: "\<lbrakk>obValid V w \<longrightarrow> obValid V w'; \<forall>key. own_endpoints V cid w' key \<subseteq> own_endpoints V cid w key;
    \<forall>key. protected V key w \<longrightarrow> protected V key w'\<rbrakk> \<Longrightarrow> export_step R V cid (props, w) (props, w')"

inductive_cases export_stepE: "export_step R V cid s s'"

abbreviation export_run ::
  "'w reconciler \<Rightarrow> 'w observer \<Rightarrow> string \<Rightarrow> 'w reconciler_state \<Rightarrow> 'w reconciler_state \<Rightarrow> bool" where
  "export_run R V cid \<equiv> (export_step R V cid)\<^sup>*\<^sup>*"

lemma export_step_inv:
  assumes laws: "export_laws R V cid" and lists: "lists_truly (kListClusterProperties (reClient R)) props"
    and props: "props_IsValid props" "cpClusterId props = cid"
    and step: "export_step R V cid s s'" and s: "loading_inv props (safe_world V cid) s"
  shows "loading_inv props (safe_world V cid) s'"
  using step
proof (cases rule: export_step.cases)
  case (reconcile key r)
  then show ?thesis using keepsD [OF ReconcileExport_keeps [OF laws lists props] s] by blast
next
  case (reload keys)
  then show ?thesis using keepsD [OF clusterPropertyMapping_keeps [OF laws lists] s] by blast
next
  case (environment w w')
  have "protected V k w'" if "own_endpoints V cid w' k \<noteq> {}" for k
  proof -
    have "own_endpoints V cid w k \<noteq> {}" using that environment(4) by (metis subset_empty)
    then have "protected V k w"
      using s environment(1) by (simp add: loading_inv_def safe_world_def no_leak_def del: split_paired_All)
    then show ?thesis using environment(5) by (simp del: split_paired_All)
  qed
  then show ?thesis
    using environment s by (simp add: loading_inv_def safe_world_def no_leak_def del: split_paired_All)
qed

lemma export_run_inv:
  assumes "export_laws R V cid" and "lists_truly (kListClusterProperties (reClient R)) props"
    and "props_IsValid props" and "cpClusterId props = cid"
    and "export_run R V cid s s'" and "loading_inv props (safe_world V cid) s"
  shows "loading_inv props (safe_world V cid) s'"
  using assms(5,6) by (induction rule: rtranclp_induct) (blast intro: export_step_inv [OF assms(1-4)])+


section \<open>When an update succeeds\<close>

text \<open>
  No call that an update of an export makes fails, except that a service that Cloud Map does not have
  is not found, is then created, and is found after that.
\<close>

definition export_calls_succeed :: "'w reconciler \<Rightarrow> string \<Rightarrow> string \<Rightarrow> bool" where
  "export_calls_succeed R n m \<longleftrightarrow>
     (\<forall>ex w. is_ok (fst (kUpdateServiceExport (reClient R) ex w)))
     \<and> (\<forall>svc ex. is_ok (reSetControllerReference R svc ex))
     \<and> (\<forall>w. is_ok (fst (sdGetService (reCloudMap R) n m w))
          \<or> (\<exists>e w1 u w2. sdGetService (reCloudMap R) n m w = (Err e, w1) \<and> errors_is_notFound e
              \<and> sdCreateService (reCloudMap R) n m w1 = (Ok u, w2)
              \<and> is_ok (fst (sdGetService (reCloudMap R) n m w2))))
     \<and> (\<forall>es w. is_ok (fst (sdRegisterEndpoints (reCloudMap R) n m es w)))
     \<and> (\<forall>es w. is_ok (fst (sdDeleteEndpoints (reCloudMap R) n m es w)))"

lemma on_world_ok: "is_ok (fst (f (snd s))) \<Longrightarrow> \<exists>x s'. on_world f s = (Ok x, s')"
  by (cases "f (snd s)") (auto simp: on_world_def is_ok_iff)

lemma addFinalizerAndOwnerRef_succeeds:
  assumes "export_calls_succeed R n m"
  shows "\<exists>ex' s'. addFinalizerAndOwnerRef R ex svc s = (Ok ex', s')"
proof -
  have up: "\<exists>x s'. on_world (kUpdateServiceExport (reClient R) a) t = (Ok x, s')" for a t
    using assms on_world_ok [of "kUpdateServiceExport (reClient R) a" t] by (simp add: export_calls_succeed_def)
  have "\<exists>ex1 s1. addFinalizer R ex s = (Ok ex1, s1)" using up by (auto simp: addFinalizer_def)
  then obtain ex1 s1 where f: "addFinalizer R ex s = (Ok ex1, s1)" by blast
  have "is_ok (reSetControllerReference R svc ex1)" using assms by (simp add: export_calls_succeed_def)
  then obtain x where "reSetControllerReference R svc ex1 = Ok x" by (auto simp: is_ok_iff)
  then show ?thesis using f up [of x s1] by (simp add: addFinalizerAndOwnerRef_def)
qed

lemma createOrGet_succeeds:
  assumes "export_calls_succeed R (omNamespace (svMeta svc)) (omName (svMeta svc))"
  shows "\<exists>cm s'. createOrGetCloudMapService R svc s = (Ok cm, s')"
proof -
  let ?n = "omNamespace (svMeta svc)" and ?m = "omName (svMeta svc)"
  let ?get = "sdGetService (reCloudMap R) ?n ?m"
  consider "is_ok (fst (?get (snd s)))"
    | e w1 u w2 where "?get (snd s) = (Err e, w1)" "errors_is_notFound e"
      "sdCreateService (reCloudMap R) ?n ?m w1 = (Ok u, w2)" "is_ok (fst (?get w2))"
    using assms unfolding export_calls_succeed_def by metis
  then show ?thesis
  proof cases
    case 1
    then show ?thesis
      using on_world_ok [of ?get s] by (auto simp: createOrGetCloudMapService_def Let_def)
  next
    case 2
    then have "on_world ?get s = (Err e, fst s, w1)"
      "on_world (sdCreateService (reCloudMap R) ?n ?m) (fst s, w1) = (Ok u, fst s, w2)"
      by (simp_all add: on_world_def)
    with 2 show ?thesis
      using on_world_ok [of ?get "(fst s, w2)"] by (simp add: createOrGetCloudMapService_def Let_def)
  qed
qed

lemma execute_changes_succeeds:
  assumes "export_calls_succeed R n m"
  shows "\<exists>s'. execute_changes R n m ch s = (Ok (), s')"
proof -
  let ?c = "reCloudMap R"
  have r: "\<exists>s'. on_world (sdRegisterEndpoints ?c n m es) t = (Ok (), s')" for es t
    using assms on_world_ok [of "sdRegisterEndpoints ?c n m es" t] by (simp add: export_calls_succeed_def)
  have d: "\<exists>s'. on_world (sdDeleteEndpoints ?c n m es) t = (Ok (), s')" for es t
    using assms on_world_ok [of "sdDeleteEndpoints ?c n m es" t] by (simp add: export_calls_succeed_def)
  have "\<exists>s1. (if HasUpdates ch then on_world (sdRegisterEndpoints ?c n m (chCreate ch @ chUpdate ch))
      else return_value ()) s = (Ok (), s1)"
    using r [of "chCreate ch @ chUpdate ch" s] by simp
  then obtain s1 where "(if HasUpdates ch then on_world (sdRegisterEndpoints ?c n m (chCreate ch @ chUpdate ch))
      else return_value ()) s = (Ok (), s1)" ..
  then show ?thesis using d [of "chDelete ch" s1] by (auto simp: execute_changes_def)
qed

lemma handleUpdate_succeeds:
  assumes laws: "export_laws R V cid" and w: "obValid V (snd s)" and k: "obKey V (meta_key (svMeta svc))" and valid: "props_IsValid (fst s)"
    and ok: "export_calls_succeed R (omNamespace (svMeta svc)) (omName (svMeta svc))"
    and l: "\<forall>w. fst (kListEndpointSlices (reClient R) (omNamespace (svMeta svc))
      (LabelServiceName, omName (svMeta svc)) w) = Ok slices"
    and ports: "\<forall>sl \<in> set slices. \<forall>dport \<in> set (esPorts sl). esEndpoints sl \<noteq> [] \<longrightarrow>
      dpName dport \<noteq> None \<and> dpPort dport \<noteq> None \<and> dpProtocol dport \<noteq> None"
  shows "\<exists>s'. handleUpdate R cid ex svc s = (Ok (), s')"
proof -
  obtain ex1 s1 where 1: "addFinalizerAndOwnerRef R ex svc s = (Ok ex1, s1)"
    using addFinalizerAndOwnerRef_succeeds [OF ok] by blast
  obtain cm s2 where 2: "createOrGetCloudMapService R svc s1 = (Ok cm, s2)"
    using createOrGet_succeeds [OF ok] by blast
  have w2: "obValid V (snd s2)"
    using addFinalizerAndOwnerRef_Ok [OF laws w 1] createOrGet_Ok [OF laws _ k 2] by blast
  have "props_IsValid (fst s2)"
    using valid addFinalizerAndOwnerRef_Ok [OF laws w 1] createOrGet_Ok [OF laws _ k 2] by simp
  then obtain s3 where
    3: "extractEndpoints R svc ex1 s2 = (endpoints_of_slices (export_context_of R (fst s2) svc ex1) slices, s3)"
    using extractEndpoints_eq [OF laws w2 _ l] by blast
  moreover obtain es where "endpoints_of_slices (export_context_of R (fst s2) svc ex1) slices = Ok es"
    using extraction_returns_iff ports by blast
  ultimately have "extractEndpoints R svc ex1 s2 = (Ok es, s3)" by simp
  then show ?thesis using 1 2 execute_changes_succeeds [OF ok] by (simp add: handleUpdate_def)
qed

end
