(* ===== verification/ExportProperties.thy ===== *)
theory ExportProperties
  imports ExportSpec
begin

text \<open>
  The properties of the export controller, from the lemmas of \<open>ExportSpec\<close>, with an example world
  that keeps the laws and on which the witnesses run.
\<close>

section \<open>An example world\<close>

text \<open>
  A world that keeps the laws: the exports and the registered endpoints, with one slice of one
  address behind every service.
\<close>

record demo_world =
  dwExports :: "object_key \<Rightarrow> service_export option"
  dwView :: "object_key \<Rightarrow> (string, endpoint) fmap"

definition demo_observer :: "demo_world observer" where
  "demo_observer = \<lparr>obExports = dwExports, obView = dwView, obValid = (\<lambda>w. True), obKey = (\<lambda>k. True),
     obFits = (\<lambda>e. True)\<rparr>"

definition demo_slices :: "endpoint_slice list" where
  "demo_slices = [\<lparr>esMeta = zero_meta, esAddressType = AddressTypeIPv4,
     esEndpoints = [\<lparr>seTargetRef = None, seAddresses = [''10.0.0.1''], seReady = Some True,
       seHostname = None, seNodeName = None\<rparr>],
     esPorts = [PortToEndpointPort (example_port ''http'' 80)]\<rparr>]"

definition demo_service :: "object_key \<Rightarrow> k8s_service" where
  "demo_service k = zero_k8s_service\<lparr>svMeta := zero_meta\<lparr>omNamespace := fst k, omName := snd k\<rparr>\<rparr>"

definition demo_client :: "demo_world k8s_ops" where
  "demo_client =
     \<lparr>kGetServiceExport = (\<lambda>k w. (case dwExports w k of
        Some ex \<Rightarrow> if meta_key (sxMeta ex) = k then Ok ex else Err (ErrApi False ''bad key'')
      | None \<Rightarrow> Err (ErrApi True ''no export''), w)),
      kGetService = (\<lambda>k w. (Ok (demo_service k), w)),
      kGetServiceImport = (\<lambda>k w. (Err (ErrApi True ''none''), w)),
      kListNamespaces = (\<lambda>w. (Ok [], w)),
      kListServiceExports = (\<lambda>w. (Ok [], w)),
      kListServiceImports = (\<lambda>n w. (Ok [], w)),
      kListServices = (\<lambda>n l w. (Ok [], w)),
      kListEndpointSlices = (\<lambda>n l w. (Ok demo_slices, w)),
      kListClusterProperties = (\<lambda>w. (Ok [], w)),
      kUpdateServiceExport = (\<lambda>ex w. (Ok ex, w\<lparr>dwExports := (dwExports w)(meta_key (sxMeta ex) := stored ex)\<rparr>)),
      kUpdateService = (\<lambda>x w. (Ok x, w)), kUpdateServiceImport = (\<lambda>x w. (Ok x, w)),
      kUpdateEndpointSlice = (\<lambda>x w. (Ok x, w)), kCreateService = (\<lambda>x w. (Ok (), w)),
      kCreateServiceImport = (\<lambda>x w. (Ok (), w)), kCreateEndpointSlice = (\<lambda>x w. (Ok (), w)),
      kDeleteService = (\<lambda>x w. (Ok (), w)), kDeleteServiceImport = (\<lambda>x w. (Ok (), w)),
      kDeleteEndpointSlice = (\<lambda>x w. (Ok (), w)), kDeleteAllOfEndpointSlices = (\<lambda>n l w. (Ok (), w))\<rparr>"

definition demo_cloud_map :: "demo_world sd_client_ops" where
  "demo_cloud_map =
     \<lparr>sdListServices = (\<lambda>n w. (Ok [], w)),
      sdCreateService = (\<lambda>n m w. (Ok (), w)),
      sdGetService = (\<lambda>n m w. (Ok \<lparr>svcNamespace = n, svcName = m,
        svcEndpoints = map snd (filter (\<lambda>(i, e). epId e = i) (map_entries sorted_order (dwView w (n, m))))\<rparr>, w)),
      sdRegisterEndpoints = (\<lambda>n m es w.
        (Ok (), w\<lparr>dwView := (dwView w)((n, m) := registered (dwView w (n, m)) es)\<rparr>)),
      sdDeleteEndpoints = (\<lambda>n m es w.
        (Ok (), w\<lparr>dwView := (dwView w)((n, m) := deregistered (dwView w (n, m)) es)\<rparr>))\<rparr>"

definition demo_reconciler :: "demo_world reconciler" where
  "demo_reconciler =
     \<lparr>reClient = demo_client, reCloudMap = demo_cloud_map, reOrder = (\<lambda>w. sorted_order),
      reExt = example_ext, reBuild = \<lparr>GitVersion = ''v1.0'', GitCommit = ''abc'', PackageName = ''p''\<rparr>,
      reSetControllerReference = (\<lambda>svc ex. Ok ex)\<rparr>"

lemma demo_get:
  "set (GetEndpoints \<lparr>svcNamespace = n, svcName = m,
     svcEndpoints = map snd (filter (\<lambda>(i, e). epId e = i) (map_entries sorted_order v))\<rparr> cid)
   = {e. fmlookup v (epId e) = Some e \<and> epClusterId e = cid}"
  by (force simp: GetEndpoints_def set_map_entries [OF sorted_order_is_range_order] image_iff)

lemma demo_laws: "export_laws demo_reconciler demo_observer cid"
proof -
  have "read_laws demo_reconciler demo_observer"
    by (auto simp: read_laws_def unobserved_def demo_reconciler_def demo_client_def demo_observer_def
        demo_service_def zero_k8s_service_def meta_key_def split: option.splits if_splits)
  moreover have "update_laws demo_reconciler demo_observer"
    by (auto simp: update_laws_def demo_reconciler_def demo_client_def demo_observer_def same_object_def
        example_ext_finalizer_laws)
  moreover have "registry_laws demo_reconciler demo_observer"
    by (auto simp: registry_laws_def demo_reconciler_def demo_cloud_map_def demo_observer_def lookup_deregistered)
  moreover have "service_laws demo_reconciler demo_observer cid"
    by (auto simp: service_laws_def unobserved_def demo_reconciler_def demo_cloud_map_def demo_observer_def
        own_endpoints_def demo_get)
  ultimately show ?thesis by (simp add: export_laws_def)
qed

definition demo_props :: cluster_properties where
  "demo_props = \<lparr>cpClusterId = ''c1'', cpClusterSetId = ''set1''\<rparr>"

definition demo_export :: "object_key \<Rightarrow> service_export" where
  "demo_export k = \<lparr>sxMeta = zero_meta\<lparr>omNamespace := fst k, omName := snd k\<rparr>\<rparr>"

definition demo_start :: demo_world where
  "demo_start =
     \<lparr>dwExports = (\<lambda>k. if k = (''ns'', ''web'') then Some (demo_export k) else None),
      dwView = (\<lambda>k. if k = (''ns'', ''web'')
        then registered fmempty [example_endpoint ''10.0.0.2'' ''c2''] else fmempty)\<rparr>"

lemma demo_facts:
  "props_IsValid demo_props" "cpClusterId demo_props = ''c1''"
  "\<forall>w. is_range_order (reOrder demo_reconciler w)"
  "\<forall>w. fst (kListEndpointSlices (reClient demo_reconciler) n l w) = Ok demo_slices"
  "meta_key (svMeta (demo_service k)) = k" "meta_key (sxMeta (demo_export k)) = k"
  by (simp_all add: demo_props_def props_IsValid_def demo_reconciler_def demo_client_def
      sorted_order_is_range_order demo_service_def demo_export_def meta_key_def zero_k8s_service_def)

lemma demo_valid [simp]: "obValid demo_observer w" "obKey demo_observer k" "obFits demo_observer e"
  by (simp_all add: demo_observer_def)

lemma demo_calls_succeed: "export_calls_succeed demo_reconciler n m"
  by (simp add: export_calls_succeed_def demo_reconciler_def demo_client_def demo_cloud_map_def)

lemma demo_no_own: "own_endpoints demo_observer ''c1'' demo_start key = {}"
proof -
  have "epClusterId (example_endpoint ''10.0.0.2'' ''c2'') = ''c2''" by (simp add: example_endpoint_def)
  then show ?thesis
    by (auto simp: own_endpoints_def demo_observer_def demo_start_def registered_def split: if_splits)
qed

lemma demo_lists: "lists_truly (kListClusterProperties (reClient demo_reconciler)) props"
  by (simp add: lists_truly_def demo_reconciler_def demo_client_def)


section \<open>Properties\<close>

text \<open>
  C7: safety of the export controller over every run: if each endpoint that this cluster has in Cloud
  Map is covered by an export with the controller's finalizer at the start, then so it is after any
  sequence of reconciles, of whatever keys and with whatever outcome (a failed or half-applied call
  included), and of reloads of the cluster properties, interleaved with changes of the world by others.
  The run may start before the properties have been read. Endpoints never outlive the export that the
  controller must delete them for.
\<close>

theorem no_export_leaks_endpoints:
  assumes "export_laws R V cid" and "lists_truly (kListClusterProperties (reClient R)) props"
    and "props_IsValid props" and "cpClusterId props = cid" and "props_within p props"
    and "obValid V w" and "no_leak V cid w" and "export_run R V cid (p, w) (p', w')"
  shows "no_leak V cid w' \<and> obValid V w' \<and> props_within p' props"
  using export_run_inv [OF assms(1-4,8)] assms(5-7) by (simp add: loading_inv_def safe_world_def)

lemma demo_update:
  "\<exists>s'. handleUpdate demo_reconciler ''c1'' (demo_export k) (demo_service k) (demo_props, demo_start) = (Ok (), s')"
  by (rule handleUpdate_succeeds [OF demo_laws, where slices = demo_slices])
    (simp_all add: demo_facts demo_calls_succeed demo_slices_def PortToEndpointPort_def)

theorem no_export_leaks_endpoints_witness:
  "\<exists>s'. ReconcileExport demo_reconciler (''ns'', ''web'') (demo_props, demo_start) = (Ok (), s')
     \<and> no_leak demo_observer ''c1'' (snd s')"
proof -
  let ?k = "(''ns'', ''web'')"
  obtain s' where u: "handleUpdate demo_reconciler ''c1'' (demo_export ?k) (demo_service ?k) (demo_props, demo_start) = (Ok (), s')"
    using demo_update by blast
  have r: "ReconcileExport demo_reconciler ?k (demo_props, demo_start) = (Ok (), s')"
    using u demo_facts(1,2) properties_cached [of "(demo_props, demo_start)" demo_reconciler]
    by (simp add: ReconcileExport_def on_world_def demo_reconciler_def demo_client_def demo_start_def
        demo_export_def meta_key_def demo_service_def zero_meta_def)
  then have "export_run demo_reconciler demo_observer ''c1'' (demo_props, demo_start) (fst s', snd s')"
    by (simp add: export_step.reconcile r_into_rtranclp)
  moreover have "no_leak demo_observer ''c1'' demo_start" by (simp add: no_leak_def demo_no_own)
  ultimately have "no_leak demo_observer ''c1'' (snd s')"
    using no_export_leaks_endpoints [OF demo_laws demo_lists demo_facts(1,2) _ demo_valid(1),
        of demo_props demo_start "fst s'" "snd s'"] by simp
  with r show ?thesis by blast
qed

text \<open>
  C8: an update of an export that returns without error has made Cloud Map hold, for that service,
  exactly the endpoints of the service's slices for this cluster, whatever this cluster had registered
  before; the endpoints of other clusters and of other services are as they were.
\<close>

theorem update_reaches_exported_endpoints:
  assumes "export_laws R V cid" and "props_IsValid (fst s)"
    and "\<forall>w. is_range_order (reOrder R w)"
    and "\<forall>w. fst (kListEndpointSlices (reClient R) (omNamespace (svMeta svc))
      (LabelServiceName, omName (svMeta svc)) w) = Ok slices"
    and "endpoints_of_slices (export_context_of R (fst s) svc ex) slices = Ok es"
    and "distinct (map epId es)" and "\<forall>e \<in> set es. obFits V e"
    and "obValid V (snd s)" and "obKey V (meta_key (svMeta svc))"
    and "handleUpdate R cid ex svc s = (Ok (), s')"
  shows "fmlookup (obView V (snd s') (meta_key (svMeta svc))) i
      = exported_registry es (own_endpoints V cid (snd s) (meta_key (svMeta svc)))
          (obView V (snd s) (meta_key (svMeta svc))) i
    \<and> (\<forall>k. k \<noteq> meta_key (svMeta svc) \<longrightarrow> obView V (snd s') k = obView V (snd s) k)"
  using handleUpdate_reaches [OF assms] by blast

lemma demo_extraction:
  "\<exists>e. endpoints_of_slices (export_context_of demo_reconciler demo_props (demo_service k) (demo_export k)) demo_slices
     = Ok [e] \<and> epIP e = ''10.0.0.1'' \<and> epClusterId e = ''c1''"
  by (simp add: endpoints_of_slices_def demo_slices_def endpoints_of_def EndpointPortToPort_def
      PortToEndpointPort_def make_endpoint_def export_context_of_def demo_props_def)

theorem update_reaches_exported_endpoints_witness:
  "\<exists>s' e. handleUpdate demo_reconciler ''c1'' (demo_export (''ns'', ''web'')) (demo_service (''ns'', ''web''))
        (demo_props, demo_start) = (Ok (), s')
     \<and> fmlookup (obView demo_observer (snd s') (''ns'', ''web'')) (epId e) = Some e \<and> epIP e = ''10.0.0.1''"
proof -
  let ?k = "(''ns'', ''web'')"
  obtain s' where u: "handleUpdate demo_reconciler ''c1'' (demo_export ?k) (demo_service ?k) (demo_props, demo_start) = (Ok (), s')"
    using demo_update by blast
  obtain e where e: "endpoints_of_slices (export_context_of demo_reconciler demo_props (demo_service ?k) (demo_export ?k))
      demo_slices = Ok [e]" "epIP e = ''10.0.0.1''"
    using demo_extraction by blast
  have "fmlookup (obView demo_observer (snd s') ?k) (epId e) = Some e"
    using update_reaches_exported_endpoints [OF demo_laws _ demo_facts(3,4) _ _ _ _ _ u, of "[e]" "epId e"] e demo_facts
    by (simp add: exported_registry_def index_by_def)
  with u e show ?thesis by blast
qed

text \<open>
  An update of an export succeeds whenever the calls it makes do (a service that Cloud Map does
  not have yet is created first) and the ports of the slices are complete.
\<close>

theorem update_succeeds:
  assumes "export_laws R V cid" and "obValid V (snd s)" and "obKey V (meta_key (svMeta svc))"
    and "props_IsValid (fst s)"
    and "export_calls_succeed R (omNamespace (svMeta svc)) (omName (svMeta svc))"
    and "\<forall>w. fst (kListEndpointSlices (reClient R) (omNamespace (svMeta svc))
      (LabelServiceName, omName (svMeta svc)) w) = Ok slices"
    and "\<forall>sl \<in> set slices. \<forall>dport \<in> set (esPorts sl). esEndpoints sl \<noteq> [] \<longrightarrow>
      dpName dport \<noteq> None \<and> dpPort dport \<noteq> None \<and> dpProtocol dport \<noteq> None"
  shows "\<exists>s'. handleUpdate R cid ex svc s = (Ok (), s')"
  using assms by (rule handleUpdate_succeeds)

theorem update_succeeds_witness:
  "\<exists>s'. handleUpdate demo_reconciler ''c1'' (demo_export (''a'', ''b'')) (demo_service (''a'', ''b''))
     (demo_props, demo_start) = (Ok (), s')"
  by (rule update_succeeds [OF demo_laws, where slices = demo_slices])
    (simp_all add: demo_facts demo_calls_succeed demo_slices_def PortToEndpointPort_def)

text \<open>
  C14: deleting an export that has the finalizer, when it returns without error, has removed the
  endpoints of this cluster for that service from Cloud Map and nothing else, and has taken the
  finalizer, and only it, off the export.
\<close>

theorem delete_removes_own_endpoints_only:
  assumes "export_laws R V cid" and "obKey V (meta_key (sxMeta ex))" and "obValid V (snd s)"
    and "ServiceExportFinalizer \<in> set (omFinalizers (sxMeta ex))"
    and "handleDelete R cid ex s = (Ok (), s')"
  shows "fmlookup (obView V (snd s') (meta_key (sxMeta ex))) i
      = (if i \<in> epId ` own_endpoints V cid (snd s) (meta_key (sxMeta ex)) then None
         else fmlookup (obView V (snd s) (meta_key (sxMeta ex))) i)
    \<and> (\<forall>k. k \<noteq> meta_key (sxMeta ex) \<longrightarrow> obView V (snd s') k = obView V (snd s) k)
    \<and> (\<forall>ex'. obExports V (snd s') (meta_key (sxMeta ex)) = Some ex'
        \<longrightarrow> set (omFinalizers (sxMeta ex')) = set (omFinalizers (sxMeta ex)) - {ServiceExportFinalizer})"
  using handleDelete_reaches(1) [OF assms, of i] handleDelete_reaches(2,3) [OF assms]
  by (simp add: exported_registry_def del: split_paired_All)

definition demo_marked :: service_export where
  "demo_marked = \<lparr>sxMeta = zero_meta\<lparr>omNamespace := ''ns'', omName := ''web'',
     omFinalizers := [''other'', ServiceExportFinalizer], omDeletionTimestamp := Some 5\<rparr>\<rparr>"

theorem delete_removes_own_endpoints_only_witness:
  "\<exists>s'. handleDelete demo_reconciler ''c2'' demo_marked (demo_props, demo_start) = (Ok (), s')
     \<and> fmlookup (obView demo_observer demo_start (''ns'', ''web'')) ''tcp-10_0_0_2-80'' \<noteq> None
     \<and> fmlookup (obView demo_observer (snd s') (''ns'', ''web'')) ''tcp-10_0_0_2-80'' = None"
proof -
  let ?e = "example_endpoint ''10.0.0.2'' ''c2''"
  have key: "meta_key (sxMeta demo_marked) = (''ns'', ''web'')" by (simp add: demo_marked_def meta_key_def)
  have fin: "ServiceExportFinalizer \<in> set (omFinalizers (sxMeta demo_marked))"
    by (simp add: demo_marked_def)
  obtain s' where d: "handleDelete demo_reconciler ''c2'' demo_marked (demo_props, demo_start) = (Ok (), s')"
    using fin by (simp add: handleDelete_def delete_exported_def on_world_def demo_reconciler_def
        demo_cloud_map_def demo_client_def bind_ok_def example_ext_finalizers)
  have "?e \<in> own_endpoints demo_observer ''c2'' demo_start (''ns'', ''web'')"
    by (simp add: own_endpoints_def demo_observer_def demo_start_def registered_def) (simp add: example_endpoint_def)
  then have own: "''tcp-10_0_0_2-80'' \<in> epId ` own_endpoints demo_observer ''c2'' demo_start (''ns'', ''web'')"
    using example_ids(2) by (metis imageI)
  have "fmlookup (obView demo_observer demo_start (''ns'', ''web'')) ''tcp-10_0_0_2-80'' \<noteq> None"
    by (simp add: demo_observer_def demo_start_def registered_def example_ids)
  moreover have "fmlookup (obView demo_observer (snd s') (''ns'', ''web'')) ''tcp-10_0_0_2-80'' = None"
    using delete_removes_own_endpoints_only [OF demo_laws demo_valid(2,1) fin d, of "''tcp-10_0_0_2-80''"] own key by simp
  ultimately show ?thesis using d by blast
qed



text \<open>
  C33: when the export cannot be read, or its service cannot be read for another reason than not
  existing, the reconcile changes nothing and reports success: the request is not tried again.
\<close>

theorem failed_reads_are_dropped:
  assumes laws: "export_laws R V cid" and w: "obValid V (snd s)" and r: "ReconcileExport R key s = (r, s')"
    and failed: "(\<exists>e. fst (kGetServiceExport (reClient R) key (snd s)) = Err e)
      \<or> (\<exists>e w. \<not> api_is_not_found e \<and> is_ok (fst (kGetServiceExport (reClient R) key (snd s)))
          \<and> kGetService (reClient R) key (snd (kGetServiceExport (reClient R) key (snd s))) = (Err e, w))"
  shows "r = Ok () \<and> obExports V (snd s') = obExports V (snd s) \<and> obView V (snd s') = obView V (snd s)"
proof -
  let ?gx = "kGetServiceExport (reClient R) key"
  obtain r1 s1 where f: "on_world ?gx s = (r1, s1)" by (rule prod.exhaust)
  then have g: "?gx (snd s) = (r1, snd s1)" by (simp add: on_world_eq)
  note u1 = unobservedD [OF export_laws_reads(1) [OF laws] w g]
  show ?thesis
  proof (cases r1)
    case (Ok ex)
    then have key: "(omNamespace (sxMeta ex), omName (sxMeta ex)) = key"
      using export_laws_get(1) [OF laws w, of key ex] g by (simp add: meta_key_def)
    from failed Ok g obtain e w where e: "\<not> api_is_not_found e" "kGetService (reClient R) key (snd s1) = (Err e, w)" by auto
    then have "on_world (kGetService (reClient R) key) s1 = (Err e, fst s1, w)" by (simp add: on_world_def)
    then show ?thesis
      using r f Ok key e u1 unobservedD [OF export_laws_reads(2) [OF laws] u1 [THEN conjunct1] e(2)]
      by (auto simp: ReconcileExport_def Let_def)
  qed (use r f g u1 failed in \<open>auto simp: ReconcileExport_def\<close>)
qed

theorem failed_reads_are_dropped_witness:
  "\<exists>s'. ReconcileExport demo_reconciler (''ns'', ''missing'') (demo_props, demo_start) = (Ok (), s')"
proof -
  obtain r s' where r: "ReconcileExport demo_reconciler (''ns'', ''missing'') (demo_props, demo_start) = (r, s')"
    by (rule prod.exhaust)
  have "\<exists>e. fst (kGetServiceExport (reClient demo_reconciler) (''ns'', ''missing'') (snd (demo_props, demo_start))) = Err e"
    by (simp add: demo_reconciler_def demo_client_def demo_start_def)
  then show ?thesis using failed_reads_are_dropped [OF demo_laws demo_valid(1) r] r by blast
qed


text \<open>
  What a change of an EndpointSlice leads to. The watch that the controller registers for EndpointSlices
  lets the event of a slice of a Service through exactly when that Service has a ServiceExport, and the
  one request that its handler makes is for that very export.
\<close>

theorem slice_events_reconcile_their_export:
  assumes "x \<in> set (csWatches (SetupWithManager R))" and "waKind x = EndpointSlices"
    and "waHandler x = EnqueueRequestsFromMapFunc f" and "pred \<in> set (waPredicates x)"
    and "fmlookup (omLabels (event_object ev)) LabelServiceName = Some name"
  shows "fst (f (event_object ev) s) = Ok [(omNamespace (event_object ev), name)]
    \<and> (fst (pred ev s) = Ok True \<longleftrightarrow>
        (\<exists>ex. fst (kGetServiceExport (reClient R) (omNamespace (event_object ev), name) (snd s)) = Ok ex))"
  using slice_watch [OF assms] by blast

definition demo_slice_meta :: obj_meta where
  "demo_slice_meta = zero_meta\<lparr>omNamespace := ''ns'', omName := ''web-1'', omLabels := fmupd LabelServiceName ''web'' fmempty\<rparr>"

theorem slice_events_reconcile_their_export_witness:
  "fst (serviceExportPredicates demo_reconciler (UpdateEvent zero_meta demo_slice_meta) (demo_props, demo_start)) = Ok True
   \<and> endpointSliceMappingFunction demo_slice_meta = [(''ns'', ''web'')]"
proof -
  let ?x = "csWatches (SetupWithManager demo_reconciler) ! 2" and ?ev = "UpdateEvent zero_meta demo_slice_meta"
  have x: "?x \<in> set (csWatches (SetupWithManager demo_reconciler))" by (intro nth_mem) (simp add: SetupWithManager_def)
  have w: "waKind ?x = EndpointSlices" "waPredicates ?x = [serviceExportPredicates demo_reconciler]"
    "waHandler ?x = EnqueueRequestsFromMapFunc (\<lambda>object. return_value (endpointSliceMappingFunction object))"
    by (simp_all add: SetupWithManager_def)
  have m: "event_object ?ev = demo_slice_meta" "fmlookup (omLabels demo_slice_meta) LabelServiceName = Some ''web''"
    "omNamespace demo_slice_meta = ''ns''"
    by (simp_all add: event_object_def demo_slice_meta_def)
  have "\<exists>ex. fst (kGetServiceExport (reClient demo_reconciler) (''ns'', ''web'') demo_start) = Ok ex"
    by (simp add: demo_reconciler_def demo_client_def demo_start_def demo_export_def meta_key_def)
  with slice_events_reconcile_their_export [OF x w(1,3), of "serviceExportPredicates demo_reconciler" ?ev "''web''" "(demo_props, demo_start)"]
  show ?thesis by (simp add: w m return_value_def)
qed

end
