(* ===== verification/CloudMapController.thy ===== *)
theory CloudMapController
  imports K8sClient EndpointSlicePlan
begin

text \<open>
  \<open>pkg/controllers/multicluster/cloudmap_controller.go\<close>: the controller that polls Cloud Map and
  mirrors its services as ServiceImports, with a derived Service and its EndpointSlices for each
  cluster that exports the service.

  Objects behind pointers are passed on by value: a function that updates its argument returns the
  object as the server answered it. The list of EndpointSlices is the exception, see below.
\<close>

section \<open>Imports and derived services\<close>

definition getServiceImport ::
  "'w reconciler \<Rightarrow> string \<Rightarrow> string \<Rightarrow> 'w reconciler_state \<Rightarrow> service_import outcome \<times> 'w reconciler_state" where
  "getServiceImport R ns name = on_world (kGetServiceImport (reClient R) (ns, name))"

definition createAndGetServiceImport ::
  "'w reconciler \<Rightarrow> service \<Rightarrow> port list \<Rightarrow> string list \<Rightarrow> 'w reconciler_state
    \<Rightarrow> service_import outcome \<times> 'w reconciler_state" where
  "createAndGetServiceImport R svc servicePorts clusterIds =
     bind_ok (Pair (CreateServiceImportStruct svc clusterIds servicePorts)) (\<lambda>toCreate.
       bind_ok (on_world (kCreateServiceImport (reClient R) toCreate)) (\<lambda>_.
         getServiceImport R (svcNamespace svc) (svcName svc)))"

definition getDerivedService ::
  "'w reconciler \<Rightarrow> string \<Rightarrow> string \<Rightarrow> string \<Rightarrow> 'w reconciler_state \<Rightarrow> k8s_service outcome \<times> 'w reconciler_state" where
  "getDerivedService R ns name clusterId =
     on_world (kGetService (reClient R) (ns, DerivedName ns name clusterId))"

definition createAndGetDerivedService ::
  "'w reconciler \<Rightarrow> service_import \<Rightarrow> string \<Rightarrow> port list \<Rightarrow> 'w reconciler_state
    \<Rightarrow> k8s_service outcome \<times> 'w reconciler_state" where
  "createAndGetDerivedService R svcImport clusterId svcPorts =
     bind_ok (on_world (kCreateService (reClient R)
         (CreateDerivedServiceStruct (reExt R) svcImport svcPorts clusterId))) (\<lambda>_.
       getDerivedService R (omNamespace (siMeta svcImport)) (omName (siMeta svcImport)) clusterId)"

text \<open>The pattern \<open>x, err := get(); if err != nil { if !IsNotFound(err) { return err }; x, err = create() }\<close>.\<close>

definition get_or_create ::
  "('s \<Rightarrow> 'a outcome \<times> 's) \<Rightarrow> ('s \<Rightarrow> 'a outcome \<times> 's) \<Rightarrow> 's \<Rightarrow> 'a outcome \<times> 's" where
  "get_or_create get create s =
     (case get s of
        (Ok x, s1) \<Rightarrow> (Ok x, s1)
      | (Err e, s1) \<Rightarrow> (if api_is_not_found e then create s1 else (Err e, s1))
      | (Panic, s1) \<Rightarrow> (Panic, s1))"

definition updateDerivedService ::
  "'w reconciler \<Rightarrow> k8s_service \<Rightarrow> port list \<Rightarrow> 'w reconciler_state \<Rightarrow> k8s_service outcome \<times> 'w reconciler_state" where
  "updateDerivedService R svc importedSvcPorts =
     (if PortsEqualIgnoreOrder (reExt R) importedSvcPorts (map (ServicePortToPort (reExt R)) (svPorts svc))
      then return_value svc
      else on_world (kUpdateService (reClient R)
             (svc\<lparr>svPorts := map (PortToServicePort (reExt R)) importedSvcPorts\<rparr>)))"

definition updateServiceImport ::
  "'w reconciler \<Rightarrow> service_import \<Rightarrow> k8s_service list \<Rightarrow> port list \<Rightarrow> 'w reconciler_state
    \<Rightarrow> unit outcome \<times> 'w reconciler_state" where
  "updateServiceImport R svcImport derivedServices importedSvcPorts =
     (let clusterIPs = GetClusterIpsFromServices derivedServices;
          ipsDiffer = (\<not> IPsEqualIgnoreOrder (reExt R) (siIPs svcImport) clusterIPs);
          simplifiedSvcPorts = map (\<lambda>p. p\<lparr>portTargetPort := ''''\<rparr>) importedSvcPorts;
          svcImportPorts = map ServiceImportPortToPort (siPorts svcImport);
          portsDiffer = (\<not> PortsEqualIgnoreOrder (reExt R) svcImportPorts simplifiedSvcPorts);
          si1 = (if ipsDiffer then svcImport\<lparr>siIPs := clusterIPs\<rparr> else svcImport);
          si2 = (if portsDiffer then si1\<lparr>siPorts := map PortToServiceImportPort importedSvcPorts\<rparr> else si1)
      in if ipsDiffer \<or> portsDiffer
         then bind_ok (on_world (kUpdateServiceImport (reClient R) si2)) (\<lambda>_. return_value ())
         else return_value ())"

definition DeleteDerivedServiceAndEndpointSlices ::
  "'w reconciler \<Rightarrow> k8s_service \<Rightarrow> 'w reconciler_state \<Rightarrow> unit outcome \<times> 'w reconciler_state" where
  "DeleteDerivedServiceAndEndpointSlices R derivedService =
     bind_ok (on_world (kDeleteAllOfEndpointSlices (reClient R) (omNamespace (svMeta derivedService))
         (LabelServiceName, omName (svMeta derivedService)))) (\<lambda>_.
       on_world (kDeleteService (reClient R) derivedService))"

section \<open>Endpoint slices\<close>

text \<open>
  The loop \<open>for _, existingSlice := range items { existingSlices = append(existingSlices, &existingSlice) }\<close>
  takes the address of its variable. The module is at \<open>go 1.19\<close>, where the loop has one variable: all
  pointers are the same, and the variable holds the last item in the end.
\<close>

definition loop_variable_cell :: "endpoint_slice list \<Rightarrow> slices" where
  "loop_variable_cell items = (if items = [] then [] else [last items])"

definition loop_variable_pointers :: "endpoint_slice list \<Rightarrow> slice_ref list" where
  "loop_variable_pointers items = map (\<lambda>_. 0) items"

fun update_slices ::
  "'w reconciler \<Rightarrow> slice_ref list \<Rightarrow> slices \<Rightarrow> 'w reconciler_state \<Rightarrow> slices outcome \<times> 'w reconciler_state" where
  "update_slices R [] h s = (Ok h, s)"
| "update_slices R (r # rs) h s =
     (case on_world (kUpdateEndpointSlice (reClient R) (h ! r)) s of
        (Ok sl, s1) \<Rightarrow> update_slices R rs (h[r := sl]) s1
      | (Err e, s1) \<Rightarrow> (Err (ErrWrapped e ''failed to update EndpointSlice''), s1)
      | (Panic, s1) \<Rightarrow> (Panic, s1))"

fun each_slice ::
  "string \<Rightarrow> (endpoint_slice \<Rightarrow> 'w reconciler_state \<Rightarrow> unit outcome \<times> 'w reconciler_state) \<Rightarrow> slices
    \<Rightarrow> slice_ref list \<Rightarrow> 'w reconciler_state \<Rightarrow> unit outcome \<times> 'w reconciler_state" where
  "each_slice message f h [] s = (Ok (), s)"
| "each_slice message f h (r # rs) s =
     (case f (h ! r) s of
        (Ok _, s1) \<Rightarrow> each_slice message f h rs s1
      | (Err e, s1) \<Rightarrow> (Err (ErrWrapped e message), s1)
      | (Panic, s1) \<Rightarrow> (Panic, s1))"

definition apply_slice_changes ::
  "'w reconciler \<Rightarrow> slice_changes \<Rightarrow> slices \<Rightarrow> 'w reconciler_state \<Rightarrow> unit outcome \<times> 'w reconciler_state" where
  "apply_slice_changes R c h =
     bind_ok (update_slices R (scUpdate c) h) (\<lambda>h1.
       bind_ok (each_slice ''failed to delete EndpointSlice'' (\<lambda>sl. on_world (kDeleteEndpointSlice (reClient R) sl))
           h1 (scDelete c)) (\<lambda>_.
         each_slice ''failed to create EndpointSlice'' (\<lambda>sl. on_world (kCreateEndpointSlice (reClient R) sl))
           h1 (scCreate c)))"

definition slice_plan_for ::
  "k8s_service \<Rightarrow> service_import \<Rightarrow> string \<Rightarrow> endpoint list \<Rightarrow> slice_ref list \<Rightarrow> slice_plan" where
  "slice_plan_for svc svcImport clusterId desiredEndpoints current =
     \<lparr>maxEndpointsPerSlice = 0, spService = svc, spServiceImportName = omName (siMeta svcImport),
      spCurrent = current, spDesired = desiredEndpoints, spClusterId = clusterId\<rparr>"

text \<open>The plan always returns here (\<open>slice_planning_returns\<close>), so its \<open>None\<close> is never met.\<close>

definition updateEndpointSlices ::
  "'w reconciler \<Rightarrow> service_import \<Rightarrow> endpoint list \<Rightarrow> k8s_service \<Rightarrow> string \<Rightarrow> 'w reconciler_state
    \<Rightarrow> unit outcome \<times> 'w reconciler_state" where
  "updateEndpointSlices R svcImport desiredEndpoints svc clusterId =
     bind_ok (on_world (kListEndpointSlices (reClient R) (omNamespace (svMeta svc))
         (LabelServiceName, omName (svMeta svc)))) (\<lambda>items s.
       case CalculateSliceChanges (reExt R) (reOrder R (snd s)) (reOrder R (snd s))
              (slice_plan_for svc svcImport clusterId desiredEndpoints (loop_variable_pointers items))
              (loop_variable_cell items) of
         Some (Ok c, h) \<Rightarrow> apply_slice_changes R c h s
       | Some (Err e, h) \<Rightarrow> (Err e, s)
       | Some (Panic, h) \<Rightarrow> (Panic, s)
       | None \<Rightarrow> (Panic, s))"

section \<open>One service\<close>

definition endpoints_by_cluster :: "endpoint list \<Rightarrow> (string, endpoint list) fmap" where
  "endpoints_by_cluster endpoints =
     foldl (\<lambda>m ep. fmupd (epClusterId ep)
        ((case fmlookup m (epClusterId ep) of Some eps \<Rightarrow> eps | None \<Rightarrow> []) @ [ep]) m) fmempty endpoints"

definition reconcile_cluster ::
  "'w reconciler \<Rightarrow> service \<Rightarrow> service_import \<Rightarrow> (string, endpoint list) fmap \<Rightarrow> string \<Rightarrow> 'w reconciler_state
    \<Rightarrow> k8s_service outcome \<times> 'w reconciler_state" where
  "reconcile_cluster R svc svcImport m clusterId s =
     (let endpoints = (case fmlookup m clusterId of Some eps \<Rightarrow> eps | None \<Rightarrow> []);
          clusterImportedSvcPorts = ExtractServicePorts (reOrder R (snd s)) endpoints
      in bind_ok (get_or_create (getDerivedService R (svcNamespace svc) (svcName svc) clusterId)
              (createAndGetDerivedService R svcImport clusterId clusterImportedSvcPorts)) (\<lambda>derivedService.
           bind_ok (updateDerivedService R derivedService clusterImportedSvcPorts) (\<lambda>derivedService'.
             bind_ok (updateEndpointSlices R svcImport endpoints derivedService' clusterId) (\<lambda>_.
               return_value derivedService'))) s)"

fun clusters_loop ::
  "'w reconciler \<Rightarrow> service \<Rightarrow> service_import \<Rightarrow> (string, endpoint list) fmap \<Rightarrow> string list \<Rightarrow> 'w reconciler_state
    \<Rightarrow> k8s_service list outcome \<times> 'w reconciler_state" where
  "clusters_loop R svc svcImport m [] = return_value []"
| "clusters_loop R svc svcImport m (clusterId # rest) =
     bind_ok (reconcile_cluster R svc svcImport m clusterId) (\<lambda>d.
       bind_ok (clusters_loop R svc svcImport m rest) (\<lambda>ds. return_value (d # ds)))"

definition source_cluster :: "k8s_service \<Rightarrow> string" where
  "source_cluster svc = (case fmlookup (omLabels (svMeta svc)) LabelSourceCluster of Some c \<Rightarrow> c | None \<Rightarrow> '''')"

fun delete_stale ::
  "'w reconciler \<Rightarrow> (string, endpoint list) fmap \<Rightarrow> k8s_service list \<Rightarrow> 'w reconciler_state
    \<Rightarrow> unit outcome \<times> 'w reconciler_state" where
  "delete_stale R m [] = return_value ()"
| "delete_stale R m (d # ds) =
     bind_ok (case fmlookup m (source_cluster d) of
          Some eps \<Rightarrow> return_value ()
        | None \<Rightarrow> DeleteDerivedServiceAndEndpointSlices R d) (\<lambda>_. delete_stale R m ds)"

definition reconcileService ::
  "'w reconciler \<Rightarrow> service \<Rightarrow> 'w reconciler_state \<Rightarrow> unit outcome \<times> 'w reconciler_state" where
  "reconcileService R svc s =
     (let importedSvcPorts = ExtractServicePorts (reOrder R (snd s)) (svcEndpoints svc);
          m = endpoints_by_cluster (svcEndpoints svc);
          clusterIds = reOrder R (snd s) (fmdom m)
      in bind_ok (get_or_create (getServiceImport R (svcNamespace svc) (svcName svc))
              (createAndGetServiceImport R svc importedSvcPorts clusterIds)) (\<lambda>svcImport.
           bind_ok (clusters_loop R svc svcImport m clusterIds) (\<lambda>derivedServices.
             bind_ok (on_world (kListServices (reClient R) (omNamespace (siMeta svcImport))
                 (LabelDerivedServiceOriginatingName, omName (siMeta svcImport)))) (\<lambda>existing.
               bind_ok (delete_stale R m existing) (\<lambda>_.
                 updateServiceImport R svcImport derivedServices importedSvcPorts)))) s)"

section \<open>One namespace, and all of them\<close>

text \<open>
  The loops over services, imports and namespaces go on after an error and return all of them
  wrapped into one; only a panic ends them.
\<close>

definition error_result :: "goerror option \<Rightarrow> unit outcome" where
  "error_result err = (case err of None \<Rightarrow> Ok () | Some e \<Rightarrow> Err e)"

fun collect_errors ::
  "('a \<Rightarrow> 's \<Rightarrow> unit outcome \<times> 's) \<Rightarrow> 'a list \<Rightarrow> goerror option \<Rightarrow> 's \<Rightarrow> goerror option outcome \<times> 's" where
  "collect_errors f [] err s = (Ok err, s)"
| "collect_errors f (x # xs) err s =
     (case f x s of
        (Ok _, s1) \<Rightarrow> collect_errors f xs err s1
      | (Err e, s1) \<Rightarrow> collect_errors f xs (Wrap err (Some e)) s1
      | (Panic, s1) \<Rightarrow> (Panic, s1))"

definition existing_imports :: "service_import list \<Rightarrow> (string, service_import) fmap" where
  "existing_imports imports = index_by (\<lambda>i. omName (siMeta i)) imports"

definition listed_services :: "service list \<Rightarrow> service list" where
  "listed_services desiredServices = filter (\<lambda>svc. length (svcEndpoints svc) \<noteq> 0) desiredServices"

definition reconcileNamespace ::
  "'w reconciler \<Rightarrow> string \<Rightarrow> 'w reconciler_state \<Rightarrow> unit outcome \<times> 'w reconciler_state" where
  "reconcileNamespace R namespaceName =
     bind_ok (on_world (sdListServices (reCloudMap R) namespaceName)) (\<lambda>desiredServices.
       bind_ok (on_world (kListServiceImports (reClient R) namespaceName)) (\<lambda>serviceImports.
         bind_ok (collect_errors (reconcileService R) (listed_services desiredServices) None) (\<lambda>err s.
           (let rest = foldl (\<lambda>m svc. fmdrop (svcName svc) m) (existing_imports serviceImports)
                         (listed_services desiredServices)
            in bind_ok (collect_errors (\<lambda>i. on_world (kDeleteServiceImport (reClient R) i))
                   (map_values (reOrder R (snd s)) rest) err) (\<lambda>err'. Pair (error_result err')) s))))"

definition ReconcileCloudMap ::
  "'w reconciler \<Rightarrow> 'w reconciler_state \<Rightarrow> unit outcome \<times> 'w reconciler_state" where
  "ReconcileCloudMap R =
     bind_ok (reconciler_properties R) (\<lambda>_.
       bind_ok (on_world (kListNamespaces (reClient R))) (\<lambda>namespaces.
         bind_ok (collect_errors (reconcileNamespace R) namespaces None) (\<lambda>err. Pair (error_result err))))"

text \<open>\<open>Start\<close>, when the ticker fires \<open>n\<close> times before the context is done.\<close>

fun Start :: "'w reconciler \<Rightarrow> nat \<Rightarrow> 'w reconciler_state \<Rightarrow> unit outcome \<times> 'w reconciler_state" where
  "Start R n s =
     (case ReconcileCloudMap R s of
        (Panic, s1) \<Rightarrow> (Panic, s1)
      | (_, s1) \<Rightarrow> (case n of 0 \<Rightarrow> (Ok (), s1) | Suc k \<Rightarrow> Start R k s1))"

end
