(* ===== verification/ImportSpec.thy ===== *)
theory ImportSpec
  imports CloudMapController
begin

text \<open>
  What the import controller does: its planning always returns, even on the aliased pointers it
  passes; the effect of the aliasing; errors of one service, import or namespace do not stop the
  others; and the ServiceImports of a namespace become those of the services in Cloud Map.
\<close>

section \<open>Planning on any pointers returns\<close>

definition deletable :: "trim_state \<Rightarrow> bool" where
  "deletable s \<longleftrightarrow> (\<forall>r \<in> set (scDelete (tsChanges s)). r < length (tsSlices s))"

lemma trimSlice_deletable:
  "\<lbrakk>trimSlice X ports r s = (res, s'); deletable s\<rbrakk> \<Longrightarrow> deletable s'"
  by (auto simp: trimSlice_def deletable_def Let_def split: if_splits outcome_splits)

lemma trimSlices_deletable:
  "\<lbrakk>trimSlices X ports rs s = (res, s'); deletable s\<rbrakk> \<Longrightarrow> deletable s'"
proof (induction rs arbitrary: s)
  case (Cons r rs)
  obtain r1 s1 where "trimSlice X ports r s = (r1, s1)" by (rule prod.exhaust)
  with Cons trimSlice_deletable show ?case by (cases r1) auto
qed simp

lemma fill_slice_drops:
  "fill_slice p r keys h desired = (h', desired') \<Longrightarrow>
    fset (fmdom desired') \<subseteq> fset (fmdom desired) \<and> length h' = length h"
proof (induction keys arbitrary: h desired)
  case (Cons key keys)
  show ?case
  proof (cases "fmlookup desired key")
    case (Some e)
    then show ?thesis using Cons.prems Cons.IH by (fastforce split: if_splits)
  qed (use Cons in simp)
qed simp

lemma fill_slice_takes_first:
  assumes "fill_slice p r (key # keys) h desired = (h', desired')" and "key \<in> fset (fmdom desired)"
    and "int (length (esEndpoints (h ! r))) < getMaxEndpointsPerSlice p"
  shows "fset (fmdom desired') \<subset> fset (fmdom desired)"
proof -
  obtain e where e: "fmlookup desired key = Some e" using assms(2) by (auto simp: fmlookup_dom_iff)
  then obtain h1 where "fill_slice p r keys h1 (fmdrop key desired) = (h', desired')"
    using assms(1,3) by auto
  then have "fset (fmdom desired') \<subseteq> fset (fmdom desired) - {key}"
    using fill_slice_drops by fastforce
  then show ?thesis using assms(2) by blast
qed

lemma getOrCreate_room:
  assumes g: "getOrCreateUnfilledEndpointSlice p c n h = ((r, need), c', h')"
    and "\<forall>r \<in> set (scDelete c). r < length h" and "0 < n" and max: "1 \<le> getMaxEndpointsPerSlice p"
  shows "int (length (esEndpoints (h' ! r))) < getMaxEndpointsPerSlice p
    \<and> (\<forall>r \<in> set (scDelete c'). r < length h')"
proof (cases "find (\<lambda>r. int (length (esEndpoints (h ! r))) < getMaxEndpointsPerSlice p) (scUpdate c)")
  case (Some r0)
  then have "int (length (esEndpoints (h ! r0))) < getMaxEndpointsPerSlice p" by (auto simp: find_Some_iff)
  then show ?thesis using g assms(2) Some by (simp add: getOrCreateUnfilledEndpointSlice_def)
next
  case upd: None
  show ?thesis
  proof (cases "scDelete c")
    case (Cons r0 rs)
    then show ?thesis using g upd assms(2) max by (auto simp: getOrCreateUnfilledEndpointSlice_def)
  next
    case del: Nil
    show ?thesis
    proof (cases "List.extract (\<lambda>r. int (length (esEndpoints (h ! r))) + n \<le> getMaxEndpointsPerSlice p) (scUnmodified c)")
      case None
      then show ?thesis using g upd del max
        by (auto simp: getOrCreateUnfilledEndpointSlice_def CreateEndpointSliceStruct_def)
    next
      case (Some t)
      obtain before r0 after where "t = (before, r0, after)" by (rule prod_cases3)
      with Some have "int (length (esEndpoints (h ! r0))) + n \<le> getMaxEndpointsPerSlice p"
        by (auto dest!: extract_SomeE)
      then have "int (length (esEndpoints (h ! r0))) < getMaxEndpointsPerSlice p" using \<open>0 < n\<close> by simp
      moreover have "h' = h" "r = r0" "scDelete c' = []"
        using g upd del Some \<open>t = (before, r0, after)\<close> by (simp_all add: getOrCreateUnfilledEndpointSlice_def, auto)
      ultimately show ?thesis by simp
    qed
  qed
qed

lemma add_round_progress:
  assumes ord: "is_range_order ord" and max: "1 \<le> getMaxEndpointsPerSlice p"
    and d: "deletable s" and ne: "fmdom (tsDesired s) \<noteq> {||}"
  shows "deletable (add_round p ord ports s)"
    and "fcard (fmdom (tsDesired (add_round p ord ports s))) < fcard (fmdom (tsDesired s))"
proof -
  let ?n = "int (fcard (fmdom (tsDesired s)))"
  obtain r need c h where g: "getOrCreateUnfilledEndpointSlice p (tsChanges s) ?n (tsSlices s) = ((r, need), c, h)"
    by (metis prod.exhaust)
  have "0 < ?n" using ne by (simp add: fcard.rep_eq card_gt_0_iff bot_fset.rep_eq fset_inject [symmetric])
  from getOrCreate_room [OF g _ this max] d
  have room: "int (length (esEndpoints (h ! r))) < getMaxEndpointsPerSlice p"
    and del: "\<forall>r \<in> set (scDelete c). r < length h" by (simp_all add: deletable_def)
  obtain h1 desired where f: "fill_slice p r (ord (fmdom (tsDesired s))) h (tsDesired s) = (h1, desired)"
    by (rule prod.exhaust)
  have "set (ord (fmdom (tsDesired s))) = fset (fmdom (tsDesired s))" using ord by simp
  moreover have "fset (fmdom (tsDesired s)) \<noteq> {}" using ne by (simp add: bot_fset.rep_eq fset_inject [symmetric])
  ultimately obtain key keys where k: "ord (fmdom (tsDesired s)) = key # keys" "key \<in> fset (fmdom (tsDesired s))"
    by (cases "ord (fmdom (tsDesired s))") auto
  have less: "fset (fmdom desired) \<subset> fset (fmdom (tsDesired s))"
    using fill_slice_takes_first f k room by metis
  have r: "tsDesired (add_round p ord ports s) = desired" "scDelete (tsChanges (add_round p ord ports s)) = scDelete c"
    "length (tsSlices (add_round p ord ports s)) = length h"
    using g f fill_slice_drops [OF f] by (simp_all add: add_round_def)
  show "deletable (add_round p ord ports s)" using r del by (simp add: deletable_def)
  show "fcard (fmdom (tsDesired (add_round p ord ports s))) < fcard (fmdom (tsDesired s))"
    using less r(1) by (simp add: fcard.rep_eq psubset_card_mono)
qed

lemma add_loop_returns:
  assumes "is_range_order ord" and "1 \<le> getMaxEndpointsPerSlice p" and "deletable s"
  shows "\<exists>s'. add_loop p ord ports s = Some s'"
  using assms(3)
proof (induction "fcard (fmdom (tsDesired s))" arbitrary: s rule: less_induct)
  case less
  show ?case
  proof (cases "fmdom (tsDesired s) = {||}")
    case False
    with less.hyps [OF add_round_progress(2,1) [OF assms(1,2) less.prems False]]
    show ?thesis by (simp add: add_loop.simps [of p ord ports s])
  qed (simp add: add_loop.simps)
qed

lemma slice_planning_returns:
  assumes "is_range_order ord" and "1 \<le> getMaxEndpointsPerSlice p"
  shows "\<exists>res. CalculateSliceChanges X pord ord p h = Some res"
proof -
  let ?s = "\<lparr>tsSlices = h, tsDesired = index_by epIP (spDesired p), tsChanges = no_changes\<rparr>"
  obtain r s where t: "trimSlices X (ExtractEndpointPorts pord (spDesired p)) (spCurrent p) ?s = (r, s)"
    by (rule prod.exhaust)
  have "deletable s" by (rule trimSlices_deletable [OF t]) (simp add: deletable_def no_changes_def)
  then obtain s' where "add_loop p ord (ExtractEndpointPorts pord (spDesired p)) s = Some s'"
    using add_loop_returns [OF assms] by blast
  with t show ?thesis by (cases r) (simp_all add: CalculateSliceChanges_def)
qed


section \<open>Errors do not stop the loops\<close>

text \<open>The outcomes of running an operation on each element in turn, and the state at the end.\<close>

fun outcomes :: "('a \<Rightarrow> 's \<Rightarrow> 'b outcome \<times> 's) \<Rightarrow> 'a list \<Rightarrow> 's \<Rightarrow> 'b outcome list" where
  "outcomes f [] s = []"
| "outcomes f (x # xs) s = fst (f x s) # outcomes f xs (snd (f x s))"

definition after_all :: "('a \<Rightarrow> 's \<Rightarrow> 'b outcome \<times> 's) \<Rightarrow> 'a list \<Rightarrow> 's \<Rightarrow> 's" where
  "after_all f xs s = foldl (\<lambda>s x. snd (f x s)) s xs"

lemma after_all_simps [simp]:
  "after_all f [] s = s" "after_all f (x # xs) s = after_all f xs (snd (f x s))"
  by (simp_all add: after_all_def)

lemma outcomes_append:
  "outcomes f (xs @ ys) s = outcomes f xs s @ outcomes f ys (after_all f xs s)"
  "after_all f (xs @ ys) s = after_all f ys (after_all f xs s)"
  by (induction xs arbitrary: s) simp_all

lemma length_outcomes [simp]: "length (outcomes f xs s) = length xs"
  by (induction xs arbitrary: s) simp_all

lemma Wrap_None [simp]: "Wrap err None = err"
  by (cases err) simp_all

lemma collect_errors_eq:
  assumes "Panic \<notin> set (outcomes f xs s)"
  shows "collect_errors f xs err s = (Ok (wrap_all err (map err_of (outcomes f xs s))), after_all f xs s)"
  using assms
proof (induction xs arbitrary: err s)
  case (Cons x xs)
  obtain r s1 where "f x s = (r, s1)" by (rule prod.exhaust)
  with Cons show ?case by (cases r) simp_all
qed simp

lemma collect_errors_Ok:
  assumes "collect_errors f xs err s = (Ok err', s')"
  shows "Panic \<notin> set (outcomes f xs s)" and "err' = wrap_all err (map err_of (outcomes f xs s))"
    and "s' = after_all f xs s"
proof -
  show p: "Panic \<notin> set (outcomes f xs s)"
    using assms
  proof (induction xs arbitrary: err s)
    case (Cons x xs)
    obtain r s1 where "f x s = (r, s1)" by (rule prod.exhaust)
    with Cons show ?case by (cases r) auto
  qed simp
  show "err' = wrap_all err (map err_of (outcomes f xs s))" "s' = after_all f xs s"
    using collect_errors_eq [OF p, of err] assms by simp_all
qed

lemma keeps_collect_errors:
  assumes "\<And>x. x \<in> set xs \<Longrightarrow> keeps I (f x)"
  shows "keeps I (collect_errors f xs err)"
proof (rule keepsI)
  fix s r s' assume "I s" and "collect_errors f xs err s = (r, s')"
  with assms show "I s'"
  proof (induction xs arbitrary: err s)
    case (Cons x xs)
    obtain q s1 where q: "f x s = (q, s1)" by (rule prod.exhaust)
    then have "I s1" using Cons.prems(1) [of x] Cons.prems(2) by (auto dest: keepsD)
    with q Cons show ?case by (cases q) auto
  qed simp
qed

lemma err_of_outcomes:
  assumes "Panic \<notin> set rs"
  shows "(\<forall>e \<in> set (map err_of rs). e = None) \<longleftrightarrow> (\<forall>r \<in> set rs. is_ok r)"
proof -
  have "err_of r = None \<longleftrightarrow> is_ok r" if "r \<in> set rs" for r
  proof -
    have "r \<noteq> Panic" using that assms by blast
    then show ?thesis by (cases r) simp_all
  qed
  then show ?thesis by auto
qed

lemma error_result_Ok [simp]: "error_result err = Ok u \<longleftrightarrow> err = None"
  by (simp add: error_result_def split: option.splits)

lemma is_ok_error_result [simp]: "is_ok (error_result err) \<longleftrightarrow> err = None"
  by (simp add: error_result_def split: option.splits)

lemma error_result_not_panic [simp]: "error_result err \<noteq> Panic"
  by (simp add: error_result_def split: option.splits)


section \<open>The world around the controller\<close>

text \<open>
  What can be seen of a world: the ServiceImports and the Services of the API server. \<open>import_laws\<close> is
  what its client promises: reads change nothing and answer what is stored; a write changes the object
  with its key only; a failed write may or may not have been stored. The server may fill in other
  fields of what it stores than those compared by \<open>same_service\<close> and \<open>same_import\<close>.
\<close>

record 'w import_observer =
  ioImports :: "'w \<Rightarrow> object_key \<Rightarrow> service_import option"
  ioServices :: "'w \<Rightarrow> object_key \<Rightarrow> k8s_service option"

abbreviation key_of_import :: "service_import \<Rightarrow> object_key" where
  "key_of_import si \<equiv> (omNamespace (siMeta si), omName (siMeta si))"

abbreviation key_of_service :: "k8s_service \<Rightarrow> object_key" where
  "key_of_service d \<equiv> (omNamespace (svMeta d), omName (svMeta d))"

definition same_service :: "k8s_service \<Rightarrow> k8s_service \<Rightarrow> bool" where
  "same_service d d' \<longleftrightarrow> key_of_service d' = key_of_service d
     \<and> omLabels (svMeta d') = omLabels (svMeta d) \<and> svPorts d' = svPorts d"

definition same_import :: "service_import \<Rightarrow> service_import \<Rightarrow> bool" where
  "same_import si si' \<longleftrightarrow> key_of_import si' = key_of_import si \<and> siPorts si' = siPorts si \<and> siIPs si' = siIPs si"

definition quiet :: "'w import_observer \<Rightarrow> ('w \<Rightarrow> 'a outcome \<times> 'w) \<Rightarrow> bool" where
  "quiet V f \<longleftrightarrow> (\<forall>w. ioImports V (snd (f w)) = ioImports V w \<and> ioServices V (snd (f w)) = ioServices V w)"

definition quiet_laws :: "'w k8s_ops \<Rightarrow> 'w import_observer \<Rightarrow> bool" where
  "quiet_laws K V \<longleftrightarrow>
     (\<forall>k. quiet V (kGetServiceImport K k)) \<and> (\<forall>k. quiet V (kGetService K k))
     \<and> (\<forall>ns. quiet V (kListServiceImports K ns)) \<and> (\<forall>ns l. quiet V (kListServices K ns l))
     \<and> (\<forall>ns l. quiet V (kListEndpointSlices K ns l))
     \<and> (\<forall>sl. quiet V (kUpdateEndpointSlice K sl)) \<and> (\<forall>sl. quiet V (kDeleteEndpointSlice K sl))
     \<and> (\<forall>sl. quiet V (kCreateEndpointSlice K sl)) \<and> (\<forall>ns l. quiet V (kDeleteAllOfEndpointSlices K ns l))"

definition import_read_laws :: "'w k8s_ops \<Rightarrow> 'w import_observer \<Rightarrow> bool" where
  "import_read_laws K V \<longleftrightarrow>
     (\<forall>k w si. fst (kGetServiceImport K k w) = Ok si \<longrightarrow> ioImports V w k = Some si \<and> key_of_import si = k)
     \<and> (\<forall>k w e. fst (kGetServiceImport K k w) = Err e \<and> api_is_not_found e \<longrightarrow> ioImports V w k = None)
     \<and> (\<forall>k w d. fst (kGetService K k w) = Ok d \<longrightarrow> ioServices V w k = Some d \<and> key_of_service d = k)
     \<and> (\<forall>k w e. fst (kGetService K k w) = Err e \<and> api_is_not_found e \<longrightarrow> ioServices V w k = None)
     \<and> (\<forall>ns w l. fst (kListServiceImports K ns w) = Ok l \<longrightarrow>
          key_of_import ` set l = {k. fst k = ns \<and> ioImports V w k \<noteq> None})
     \<and> (\<forall>ns lab v w l. fst (kListServices K ns (lab, v) w) = Ok l \<longrightarrow>
          set l = {d. fst (key_of_service d) = ns \<and> ioServices V w (key_of_service d) = Some d
                    \<and> fmlookup (omLabels (svMeta d)) lab = Some v})"

definition writes_import ::
  "'w import_observer \<Rightarrow> service_import \<Rightarrow> ('w \<Rightarrow> 'a outcome \<times> 'w) \<Rightarrow> bool" where
  "writes_import V si f \<longleftrightarrow> (\<forall>w r w'. f w = (r, w') \<longrightarrow>
     ioServices V w' = ioServices V w
     \<and> (\<forall>k. k \<noteq> key_of_import si \<longrightarrow> ioImports V w' k = ioImports V w k)
     \<and> (is_ok r \<longrightarrow> (\<exists>si'. same_import si si' \<and> ioImports V w' (key_of_import si) = Some si'))
     \<and> (ioImports V w (key_of_import si) \<noteq> None \<longrightarrow> ioImports V w' (key_of_import si) \<noteq> None))"

definition writes_service ::
  "'w import_observer \<Rightarrow> k8s_service \<Rightarrow> ('w \<Rightarrow> 'a outcome \<times> 'w) \<Rightarrow> bool" where
  "writes_service V d f \<longleftrightarrow> (\<forall>w r w'. f w = (r, w') \<longrightarrow>
     ioImports V w' = ioImports V w
     \<and> (\<forall>k. k \<noteq> key_of_service d \<longrightarrow> ioServices V w' k = ioServices V w k)
     \<and> (is_ok r \<longrightarrow> (\<exists>d'. same_service d d' \<and> ioServices V w' (key_of_service d) = Some d')))"

definition import_write_laws :: "'w k8s_ops \<Rightarrow> 'w import_observer \<Rightarrow> bool" where
  "import_write_laws K V \<longleftrightarrow>
     (\<forall>si. writes_import V si (kCreateServiceImport K si))
     \<and> (\<forall>si. writes_import V si (kUpdateServiceImport K si))
     \<and> (\<forall>d. writes_service V d (kCreateService K d))
     \<and> (\<forall>d. writes_service V d (kUpdateService K d))
     \<and> (\<forall>d w d'. fst (kUpdateService K d w) = Ok d' \<longrightarrow>
          ioServices V (snd (kUpdateService K d w)) (key_of_service d) = Some d')
     \<and> (\<forall>si w r w'. kDeleteServiceImport K si w = (r, w') \<longrightarrow>
          ioServices V w' = ioServices V w
          \<and> (\<forall>k. k \<noteq> key_of_import si \<longrightarrow> ioImports V w' k = ioImports V w k)
          \<and> (is_ok r \<longrightarrow> ioImports V w' (key_of_import si) = None))
     \<and> (\<forall>d w r w'. kDeleteService K d w = (r, w') \<longrightarrow>
          ioImports V w' = ioImports V w
          \<and> (\<forall>k. k \<noteq> key_of_service d \<longrightarrow> ioServices V w' k = ioServices V w k)
          \<and> (is_ok r \<longrightarrow> ioServices V w' (key_of_service d) = None))"

text \<open>The contract of the API server, that of the Cloud Map client, and both.\<close>

definition object_laws :: "'w k8s_ops \<Rightarrow> 'w import_observer \<Rightarrow> bool" where
  "object_laws K V \<longleftrightarrow> quiet_laws K V \<and> import_read_laws K V \<and> import_write_laws K V"

definition listing_laws :: "'w sd_client_ops \<Rightarrow> 'w import_observer \<Rightarrow> bool" where
  "listing_laws D V \<longleftrightarrow> (\<forall>ns. quiet V (sdListServices D ns))
     \<and> (\<forall>ns w l svc. fst (sdListServices D ns w) = Ok l \<and> svc \<in> set l \<longrightarrow> svcNamespace svc = ns)"

definition import_laws :: "'w reconciler \<Rightarrow> 'w import_observer \<Rightarrow> bool" where
  "import_laws R V \<longleftrightarrow> object_laws (reClient R) V \<and> listing_laws (reCloudMap R) V"

lemma import_laws_quiet:
  assumes "import_laws R V"
  shows "quiet V (kGetServiceImport (reClient R) k)" "quiet V (kGetService (reClient R) k)"
    "quiet V (kListServiceImports (reClient R) n)" "quiet V (kListServices (reClient R) n l)"
    "quiet V (kListEndpointSlices (reClient R) n l)" "quiet V (kUpdateEndpointSlice (reClient R) sl)"
    "quiet V (kDeleteEndpointSlice (reClient R) sl)" "quiet V (kCreateEndpointSlice (reClient R) sl)"
    "quiet V (kDeleteAllOfEndpointSlices (reClient R) n l)" "quiet V (sdListServices (reCloudMap R) n)"
  using assms by (simp_all add: import_laws_def object_laws_def listing_laws_def quiet_laws_def del: split_paired_All)

lemma import_laws_read:
  assumes "import_laws R V"
  shows "fst (kGetServiceImport (reClient R) k w) = Ok si \<Longrightarrow> ioImports V w k = Some si \<and> key_of_import si = k"
    and "fst (kGetServiceImport (reClient R) k w) = Err e \<Longrightarrow> api_is_not_found e \<Longrightarrow> ioImports V w k = None"
    and "fst (kGetService (reClient R) k w) = Ok d \<Longrightarrow> ioServices V w k = Some d \<and> key_of_service d = k"
    and "fst (kGetService (reClient R) k w) = Err e \<Longrightarrow> api_is_not_found e \<Longrightarrow> ioServices V w k = None"
    and "fst (kListServiceImports (reClient R) n w) = Ok li \<Longrightarrow>
      key_of_import ` set li = {k. fst k = n \<and> ioImports V w k \<noteq> None}"
    and "fst (kListServices (reClient R) n (lab, v) w) = Ok ls \<Longrightarrow>
      set ls = {d. fst (key_of_service d) = n \<and> ioServices V w (key_of_service d) = Some d
        \<and> fmlookup (omLabels (svMeta d)) lab = Some v}"
    and "fst (sdListServices (reCloudMap R) n w) = Ok l \<Longrightarrow> svc \<in> set l \<Longrightarrow> svcNamespace svc = n"
proof -
  have r: "import_read_laws (reClient R) V" using assms by (simp add: import_laws_def object_laws_def)
  note l = r [unfolded import_read_laws_def]
  show "fst (kGetServiceImport (reClient R) k w) = Ok si \<Longrightarrow> ioImports V w k = Some si \<and> key_of_import si = k"
    using l [THEN conjunct1] by blast
  show "fst (kGetServiceImport (reClient R) k w) = Err e \<Longrightarrow> api_is_not_found e \<Longrightarrow> ioImports V w k = None"
    using l [THEN conjunct2, THEN conjunct1] by blast
  show "fst (kGetService (reClient R) k w) = Ok d \<Longrightarrow> ioServices V w k = Some d \<and> key_of_service d = k"
    using l [THEN conjunct2, THEN conjunct2, THEN conjunct1] by blast
  show "fst (kGetService (reClient R) k w) = Err e \<Longrightarrow> api_is_not_found e \<Longrightarrow> ioServices V w k = None"
    using l [THEN conjunct2, THEN conjunct2, THEN conjunct2, THEN conjunct1] by blast
  show "fst (kListServiceImports (reClient R) n w) = Ok li \<Longrightarrow>
      key_of_import ` set li = {k. fst k = n \<and> ioImports V w k \<noteq> None}"
    using l [THEN conjunct2, THEN conjunct2, THEN conjunct2, THEN conjunct2, THEN conjunct1] by blast
  show "fst (kListServices (reClient R) n (lab, v) w) = Ok ls \<Longrightarrow>
      set ls = {d. fst (key_of_service d) = n \<and> ioServices V w (key_of_service d) = Some d
        \<and> fmlookup (omLabels (svMeta d)) lab = Some v}"
    using l [THEN conjunct2, THEN conjunct2, THEN conjunct2, THEN conjunct2, THEN conjunct2] by blast
  show "fst (sdListServices (reCloudMap R) n w) = Ok l \<Longrightarrow> svc \<in> set l \<Longrightarrow> svcNamespace svc = n"
    using assms unfolding import_laws_def listing_laws_def by blast
qed

lemma import_laws_write:
  assumes "import_laws R V"
  shows "writes_import V si (kCreateServiceImport (reClient R) si)"
    "writes_import V si (kUpdateServiceImport (reClient R) si)"
    "writes_service V d (kCreateService (reClient R) d)" "writes_service V d (kUpdateService (reClient R) d)"
    "fst (kUpdateService (reClient R) d w) = Ok d' \<Longrightarrow>
      ioServices V (snd (kUpdateService (reClient R) d w)) (key_of_service d) = Some d'"
  using assms [unfolded import_laws_def object_laws_def import_write_laws_def, THEN conjunct1, THEN conjunct2, THEN conjunct2]
  by simp_all

end
