(* ===== verification/ImportState.thy ===== *)
theory ImportState
  imports ImportSpec
begin

text \<open>
  What reconciling one service leaves in the API server: its ServiceImport and the derived Services of
  the clusters that export it, under the laws of \<open>ImportSpec\<close>.
\<close>

section \<open>Slices are not seen\<close>

lemma quietD: "\<lbrakk>quiet V f; on_world f s = (r, s')\<rbrakk> \<Longrightarrow>
    ioImports V (snd s') = ioImports V (snd s) \<and> ioServices V (snd s') = ioServices V (snd s)"
  unfolding quiet_def on_world_eq by (metis snd_conv)

text \<open>Endpoint slices are not seen by the observer.\<close>

definition seen :: "'w import_observer \<Rightarrow> (object_key \<Rightarrow> service_import option) \<Rightarrow> (object_key \<Rightarrow> k8s_service option)
    \<Rightarrow> 'w reconciler_state \<Rightarrow> bool" where
  "seen V imports services s \<longleftrightarrow> ioImports V (snd s) = imports \<and> ioServices V (snd s) = services"

lemma keeps_seen_quiet [keeps_rules]: "quiet V f \<Longrightarrow> keeps (seen V i d) (on_world f)"
  by (simp add: keeps_def seen_def quiet_def)

lemma keeps_seen_update_slices:
  assumes "import_laws R V"
  shows "keeps (seen V i d) (update_slices R rs h)"
proof (rule keepsI)
  fix s r s' assume "seen V i d s" and "update_slices R rs h s = (r, s')"
  then show "seen V i d s'"
  proof (induction rs arbitrary: h s)
    case (Cons x rs)
    obtain q s1 where q: "on_world (kUpdateEndpointSlice (reClient R) (h ! x)) s = (q, s1)" by (rule prod.exhaust)
    have "seen V i d s1"
      using keepsD [OF keeps_seen_quiet [OF import_laws_quiet(6) [OF assms]] Cons.prems(1) q] .
    with q Cons show ?case by (cases q) auto
  qed simp
qed

lemma keeps_each_slice:
  assumes "\<And>sl. keeps I (f sl)"
  shows "keeps I (each_slice msg f h rs)"
proof (rule keepsI)
  fix s r s' assume "I s" and "each_slice msg f h rs s = (r, s')"
  then show "I s'"
  proof (induction rs arbitrary: s)
    case (Cons x rs)
    obtain q s1 where q: "f (h ! x) s = (q, s1)" by (rule prod.exhaust)
    have "I s1" using keepsD [OF assms Cons.prems(1) q] .
    with q Cons show ?case by (cases q) auto
  qed simp
qed

lemma keeps_seen_updateEndpointSlices:
  assumes laws: "import_laws R V"
  shows "keeps (seen V i d) (updateEndpointSlices R si es svc c)"
proof -
  have a: "keeps (seen V i d) (apply_slice_changes R ch h)" for ch h
    unfolding apply_slice_changes_def
    by (intro keeps_rules keeps_each_slice keeps_seen_update_slices [OF laws] import_laws_quiet [OF laws])
  have "keeps (seen V i d) (\<lambda>s. case f s of Some (Ok c, h) \<Rightarrow> apply_slice_changes R c h s
      | Some (Err e, h) \<Rightarrow> (Err e, s) | Some (Panic, h) \<Rightarrow> (Panic, s) | None \<Rightarrow> (Panic, s))"
    for f :: "'a reconciler_state \<Rightarrow> (slice_changes outcome \<times> slices) option"
    using a by (auto simp: keeps_def split: option.splits outcome_splits)
  then show ?thesis
    unfolding updateEndpointSlices_def
    by (intro keeps_bind keeps_seen_quiet import_laws_quiet [OF laws])
qed

section \<open>One cluster of a service\<close>

abbreviation port_ids :: "endpoint list \<Rightarrow> (string \<times> int32) set" where
  "port_ids es \<equiv> (\<lambda>e. (portProtocol (epServicePort e), portPort (epServicePort e))) ` set es"

lemma extracted_ports_mset:
  assumes "is_range_order ord"
  shows "mset (map (\<lambda>p. (portProtocol p, portPort p)) (ExtractServicePorts ord es)) = mset_set (port_ids es)"
  using mset_set_set [OF ExtractServicePorts_spec(2) [OF assms, of es]] ExtractServicePorts_spec(3) [OF assms, of es]
  by simp

definition service_ports :: "k8s_service \<Rightarrow> (string \<times> int32) multiset" where
  "service_ports d = mset (map (\<lambda>p. (spProtocol p, spPort p)) (svPorts d))"

lemma PortsEqual_service:
  assumes "diff_is_multiset_equality X"
  shows "PortsEqualIgnoreOrder X ports (map (ServicePortToPort X) (svPorts d))
    \<longleftrightarrow> mset (map (\<lambda>p. (portProtocol p, portPort p)) ports) = service_ports d"
  by (simp add: PortsEqual_iff [OF assms] service_ports_def comp_def ServicePortToPort_def)


lemma seen_refl: "seen V (ioImports V (snd s)) (ioServices V (snd s)) s"
  by (simp add: seen_def)

lemma quiet_seen: "\<lbrakk>quiet V f; on_world f s = (r, s'); seen V i d s\<rbrakk> \<Longrightarrow> seen V i d s'"
  using keepsD [OF keeps_seen_quiet] by blast

lemma write_service:
  assumes "writes_service V d f" and "on_world f s = (r, s')" and "seen V i sv s"
  shows "\<exists>sv'. seen V i sv' s' \<and> (\<forall>k. k \<noteq> key_of_service d \<longrightarrow> sv' k = sv k)
    \<and> (is_ok r \<longrightarrow> (\<exists>d'. same_service d d' \<and> sv' (key_of_service d) = Some d'))"
proof -
  have "f (snd s) = (r, snd s')" using assms(2) by (simp add: on_world_eq)
  from assms(1) [unfolded writes_service_def, rule_format, OF this] assms(3) show ?thesis
    by (auto simp: seen_def simp del: split_paired_All)
qed

text \<open>
  What a derived Service must be for a cluster: it carries the cluster's label, and it has the ports of
  the endpoints of the cluster.
\<close>

definition derived_ok :: "endpoint list \<Rightarrow> string \<Rightarrow> k8s_service \<Rightarrow> bool" where
  "derived_ok es c d \<longleftrightarrow> source_cluster d = c \<and> service_ports d = mset_set (port_ids es)"

lemma derived_struct:
  "key_of_service (CreateDerivedServiceStruct X si ports c)
     = (omNamespace (siMeta si), DerivedName (omNamespace (siMeta si)) (omName (siMeta si)) c)"
  "source_cluster (CreateDerivedServiceStruct X si ports c) = c"
  by (simp_all add: CreateDerivedServiceStruct_def Let_def source_cluster_def LabelSourceCluster_def
      LabelDerivedServiceOriginatingName_def zero_meta_def)

lemma same_source: "same_service d d' \<Longrightarrow> source_cluster d' = source_cluster d"
  by (simp add: same_service_def source_cluster_def)

lemma get_or_create_derived:
  assumes laws: "import_laws R V" and s: "seen V i sv s"
    and key: "k = (n, DerivedName n m c)" and si: "key_of_import si = (n, m)"
    and old: "\<forall>d. sv k = Some d \<longrightarrow> source_cluster d = c"
    and r: "get_or_create (getDerivedService R n m c) (createAndGetDerivedService R si c ports) s = (Ok d, s')"
  shows "\<exists>sv'. seen V i sv' s' \<and> sv' k = Some d \<and> key_of_service d = k \<and> source_cluster d = c
    \<and> (\<forall>k'. k' \<noteq> k \<longrightarrow> sv' k' = sv k')"
proof -
  let ?get = "kGetService (reClient R) k"
  note q = import_laws_quiet(2) [OF laws, of k]
  have g: "seen V i sw t' \<and> sw k = Some d \<and> key_of_service d = k"
    if "on_world ?get t = (Ok d, t')" "seen V i sw t" for t t' sw
    using quiet_seen [OF q that] import_laws_read(3) [OF laws, of k "snd t" d] that
    by (simp add: on_world_eq seen_def)
  obtain r1 s1 where f: "on_world ?get s = (r1, s1)" by (rule prod.exhaust)
  show ?thesis
  proof (cases r1)
    case (Ok d0)
    then have "d0 = d" "s1 = s'" using r f key by (simp_all add: get_or_create_def getDerivedService_def)
    then show ?thesis using g [of s s' sv] f Ok s old by blast
  next
    case (Err e)
    let ?new = "CreateDerivedServiceStruct (reExt R) si ports c"
    obtain u s2 where c: "on_world (kCreateService (reClient R) ?new) s1 = (Ok u, s2)"
      and g2: "on_world ?get s2 = (Ok d, s')"
      using r f Err key si by (auto simp: get_or_create_def getDerivedService_def createAndGetDerivedService_def
          split: if_splits)
    have nk: "key_of_service ?new = k" using si key by (simp add: derived_struct)
    obtain sv' d' where w: "seen V i sv' s2" "\<forall>k'. k' \<noteq> k \<longrightarrow> sv' k' = sv k'"
      "same_service ?new d'" "sv' k = Some d'"
      using write_service [OF import_laws_write(3) [OF laws] c quiet_seen [OF q f s]] nk by auto
    have "source_cluster d = c" "seen V i sv' s'" "sv' k = Some d" "key_of_service d = k"
      using g [OF g2 w(1)] w(3,4) same_source [OF w(3)] by (auto simp: derived_struct)
    then show ?thesis using w(2) by blast
  qed (use r f key in \<open>simp add: get_or_create_def getDerivedService_def\<close>)
qed

lemma update_derived:
  assumes laws: "import_laws R V" and X: "diff_is_multiset_equality (reExt R)" and s: "seen V i sv s"
    and d: "sv k = Some d" "key_of_service d = k"
    and r: "updateDerivedService R d ports s = (Ok d', s')"
  shows "\<exists>sv'. seen V i sv' s' \<and> sv' k = Some d' \<and> key_of_service d' = k \<and> source_cluster d' = source_cluster d
    \<and> service_ports d' = mset (map (\<lambda>p. (portProtocol p, portPort p)) ports)
    \<and> (\<forall>k'. k' \<noteq> k \<longrightarrow> sv' k' = sv k')"
proof (cases "PortsEqualIgnoreOrder (reExt R) ports (map (ServicePortToPort (reExt R)) (svPorts d))")
  case True
  then have "d' = d" "s' = s" using r by (simp_all add: updateDerivedService_def)
  then show ?thesis using True s d PortsEqual_service [OF X] by auto
next
  case False
  let ?new = "d\<lparr>svPorts := map (PortToServicePort (reExt R)) ports\<rparr>"
  have u: "on_world (kUpdateService (reClient R) ?new) s = (Ok d', s')"
    using False r by (simp add: updateDerivedService_def)
  have nk: "key_of_service ?new = k" "source_cluster ?new = source_cluster d" using d by (simp_all add: source_cluster_def)
  obtain sv' d'' where w: "seen V i sv' s'" "\<forall>k'. k' \<noteq> k \<longrightarrow> sv' k' = sv k'" "same_service ?new d''" "sv' k = Some d''"
    using write_service [OF import_laws_write(4) [OF laws] u s] nk by auto
  have "ioServices V (snd s') k = Some d'"
    using import_laws_write(5) [OF laws, of ?new "snd s" d'] u nk by (simp add: on_world_eq)
  then have "d'' = d'" using w(1,4) by (simp add: seen_def)
  moreover have "service_ports ?new = mset (map (\<lambda>p. (portProtocol p, portPort p)) ports)"
    by (simp add: service_ports_def comp_def PortToServicePort_def)
  ultimately show ?thesis
    using w nk same_source [OF w(3)] by (auto simp: same_service_def service_ports_def)
qed

lemma reconcile_cluster_Ok:
  assumes laws: "import_laws R V" and X: "diff_is_multiset_equality (reExt R)"
    and ord: "\<forall>w. is_range_order (reOrder R w)" and s: "seen V i sv s"
    and key: "k = (svcNamespace svc, DerivedName (svcNamespace svc) (svcName svc) c)"
    and si: "key_of_import si = (svcNamespace svc, svcName svc)"
    and old: "\<forall>d. sv k = Some d \<longrightarrow> source_cluster d = c" and es: "fmlookup m c = Some es"
    and r: "reconcile_cluster R svc si m c s = (Ok d, s')"
  shows "\<exists>sv'. seen V i sv' s' \<and> sv' k = Some d \<and> key_of_service d = k \<and> derived_ok es c d
    \<and> (\<forall>k'. k' \<noteq> k \<longrightarrow> sv' k' = sv k')"
proof -
  let ?ports = "ExtractServicePorts (reOrder R (snd s)) es"
  from r es obtain d1 s1 u s2 where
    1: "get_or_create (getDerivedService R (svcNamespace svc) (svcName svc) c)
      (createAndGetDerivedService R si c ?ports) s = (Ok d1, s1)"
    and 2: "updateDerivedService R d1 ?ports s1 = (Ok d, s2)"
    and 3: "updateEndpointSlices R si es d c s2 = (Ok u, s')"
    by (auto simp: reconcile_cluster_def Let_def bind_ok_eq_Ok)
  obtain sv1 where a: "seen V i sv1 s1" "sv1 k = Some d1" "key_of_service d1 = k" "source_cluster d1 = c"
    "\<forall>k'. k' \<noteq> k \<longrightarrow> sv1 k' = sv k'"
    using get_or_create_derived [OF laws s key si old 1] by blast
  obtain sv2 where b: "seen V i sv2 s2" "sv2 k = Some d" "key_of_service d = k" "source_cluster d = c"
    "service_ports d = mset (map (\<lambda>p. (portProtocol p, portPort p)) ?ports)" "\<forall>k'. k' \<noteq> k \<longrightarrow> sv2 k' = sv1 k'"
    using update_derived [OF laws X a(1-3) 2] a(4) by blast
  have "seen V i sv2 s'" using keepsD [OF keeps_seen_updateEndpointSlices [OF laws] b(1) 3] .
  moreover have "derived_ok es c d"
    using b(4,5) extracted_ports_mset [OF ord [rule_format]] by (simp add: derived_ok_def)
  ultimately show ?thesis using a(5) b(2,3,6) by (intro exI [of _ sv2]) (simp del: split_paired_All)
qed


section \<open>All clusters of a service\<close>

abbreviation derived_key :: "service \<Rightarrow> string \<Rightarrow> object_key" where
  "derived_key svc c \<equiv> (svcNamespace svc, DerivedName (svcNamespace svc) (svcName svc) c)"

definition derived_stored ::
  "(object_key \<Rightarrow> k8s_service option) \<Rightarrow> service \<Rightarrow> (string, endpoint list) fmap \<Rightarrow> string \<Rightarrow> k8s_service \<Rightarrow> bool" where
  "derived_stored sv svc m c d \<longleftrightarrow> sv (derived_key svc c) = Some d \<and> key_of_service d = derived_key svc c
     \<and> derived_ok (the (fmlookup m c)) c d"

lemma clusters_loop_Ok:
  assumes laws: "import_laws R V" and X: "diff_is_multiset_equality (reExt R)"
    and ord: "\<forall>w. is_range_order (reOrder R w)"
    and si: "key_of_import si = (svcNamespace svc, svcName svc)"
  shows "\<lbrakk>seen V i sv s; distinct (map (derived_key svc) cs); \<forall>c \<in> set cs. c \<in> fset (fmdom m);
      \<forall>c \<in> set cs. \<forall>d. sv (derived_key svc c) = Some d \<longrightarrow> source_cluster d = c;
      clusters_loop R svc si m cs s = (Ok ds, s')\<rbrakk>
    \<Longrightarrow> \<exists>sv'. seen V i sv' s' \<and> list_all2 (derived_stored sv' svc m) cs ds
      \<and> (\<forall>k. k \<notin> derived_key svc ` set cs \<longrightarrow> sv' k = sv k)"
proof (induction cs arbitrary: s sv ds)
  case Nil
  then show ?case by auto
next
  case (Cons c cs)
  let ?k = "derived_key svc c"
  obtain es where es: "fmlookup m c = Some es" using Cons.prems(3) by (auto simp: fmlookup_dom_iff)
  from Cons.prems(5) obtain d s1 ds' where 1: "reconcile_cluster R svc si m c s = (Ok d, s1)"
    and 2: "clusters_loop R svc si m cs s1 = (Ok ds', s')" and ds: "ds = d # ds'"
    by (auto simp: bind_ok_eq_Ok)
  have old: "\<forall>d. sv ?k = Some d \<longrightarrow> source_cluster d = c" using Cons.prems(4) by simp
  obtain sv1 where a: "seen V i sv1 s1" "sv1 ?k = Some d" "key_of_service d = ?k" "derived_ok es c d"
    "\<forall>k'. k' \<noteq> ?k \<longrightarrow> sv1 k' = sv k'"
    using reconcile_cluster_Ok [OF laws X ord Cons.prems(1) refl si old es 1] by blast
  have fresh: "?k \<notin> derived_key svc ` set cs" using Cons.prems(2) by auto
  have "\<forall>c' \<in> set cs. \<forall>d. sv1 (derived_key svc c') = Some d \<longrightarrow> source_cluster d = c'"
  proof (intro ballI allI impI)
    fix c' d assume c': "c' \<in> set cs" and d: "sv1 (derived_key svc c') = Some d"
    then have "derived_key svc c' \<noteq> ?k" using fresh by (metis imageI)
    then have "sv (derived_key svc c') = Some d" using a(5) d by metis
    then show "source_cluster d = c'" using Cons.prems(4) c' by simp
  qed
  then obtain sv2 where b: "seen V i sv2 s'" "list_all2 (derived_stored sv2 svc m) cs ds'"
    "\<forall>k. k \<notin> derived_key svc ` set cs \<longrightarrow> sv2 k = sv1 k"
    using Cons.IH [OF a(1) _ _ _ 2] Cons.prems(2,3) by auto
  have "sv2 ?k = Some d" using b(3) fresh a(2) by metis
  then have st: "derived_stored sv2 svc m c d" using a(3,4) es by (simp add: derived_stored_def)
  have "sv2 k = sv k" if "k \<notin> derived_key svc ` set (c # cs)" for k
  proof -
    have "k \<noteq> ?k" "k \<notin> derived_key svc ` set cs" using that by auto
    then show ?thesis using a(5) b(3) by metis
  qed
  then show ?case
    using b(1,2) st ds by (intro exI [of _ sv2]) (simp del: split_paired_All)
qed

section \<open>Stale derived services\<close>

lemma delete_derived:
  assumes laws: "import_laws R V" and s: "seen V i sv s"
    and r: "DeleteDerivedServiceAndEndpointSlices R d s = (Ok u, s')"
  shows "seen V i (sv(key_of_service d := None)) s'"
proof -
  from r obtain v s1 where
    1: "on_world (kDeleteAllOfEndpointSlices (reClient R) (omNamespace (svMeta d)) (LabelServiceName, omName (svMeta d))) s = (Ok v, s1)"
    and 2: "on_world (kDeleteService (reClient R) d) s1 = (Ok u, s')"
    unfolding DeleteDerivedServiceAndEndpointSlices_def by blast
  have s1: "seen V i sv s1" using quiet_seen [OF import_laws_quiet(9) [OF laws] 1 s] .
  have w: "import_write_laws (reClient R) V" using laws by (simp add: import_laws_def object_laws_def)
  have k: "kDeleteService (reClient R) d (snd s1) = (Ok u, snd s')" using 2 by (simp add: on_world_eq)
  have "ioImports V (snd s') = ioImports V (snd s1)
      \<and> (\<forall>k. k \<noteq> key_of_service d \<longrightarrow> ioServices V (snd s') k = ioServices V (snd s1) k)
      \<and> ioServices V (snd s') (key_of_service d) = None"
    using w [unfolded import_write_laws_def, THEN conjunct2, THEN conjunct2, THEN conjunct2, THEN conjunct2,
        THEN conjunct2, THEN conjunct2, rule_format, OF k] by simp
  then show ?thesis using s1 by (auto simp: seen_def fun_eq_iff simp del: split_paired_All)
qed

lemma delete_stale_Ok:
  assumes laws: "import_laws R V"
  shows "\<lbrakk>seen V i sv s; delete_stale R m ds s = (Ok u, s')\<rbrakk>
    \<Longrightarrow> seen V i (\<lambda>k. if \<exists>d \<in> set ds. key_of_service d = k \<and> fmlookup m (source_cluster d) = None then None else sv k) s'"
proof (induction ds arbitrary: s sv)
  case Nil
  then show ?case by simp
next
  case (Cons d ds)
  show ?case
  proof (cases "fmlookup m (source_cluster d)")
    case (Some es)
    then have "delete_stale R m ds s = (Ok u, s')" using Cons.prems(2) by simp
    from Cons.IH [OF Cons.prems(1) this] Some show ?thesis by (simp add: fun_eq_iff cong: conj_cong)
  next
    case None
    obtain v s1 where 1: "DeleteDerivedServiceAndEndpointSlices R d s = (Ok v, s1)"
      and 2: "delete_stale R m ds s1 = (Ok u, s')"
      using Cons.prems(2) None by (auto simp: bind_ok_eq_Ok)
    have "(\<lambda>k. if \<exists>d \<in> set ds. key_of_service d = k \<and> fmlookup m (source_cluster d) = None then None
          else (sv(key_of_service d := None)) k)
        = (\<lambda>k. if \<exists>d \<in> set (d # ds). key_of_service d = k \<and> fmlookup m (source_cluster d) = None then None else sv k)"
      using None by (auto simp: fun_eq_iff)
    then show ?thesis using Cons.IH [OF delete_derived [OF laws Cons.prems(1) 1] 2] by simp
  qed
qed

section \<open>The ServiceImport\<close>

lemma write_import:
  assumes "writes_import V si f" and "on_world f s = (r, s')" and "seen V i sv s"
  shows "\<exists>i'. seen V i' sv s' \<and> (\<forall>k. k \<noteq> key_of_import si \<longrightarrow> i' k = i k)
    \<and> (is_ok r \<longrightarrow> (\<exists>si'. same_import si si' \<and> i' (key_of_import si) = Some si'))
    \<and> (i (key_of_import si) \<noteq> None \<longrightarrow> i' (key_of_import si) \<noteq> None)"
proof -
  have "f (snd s) = (r, snd s')" using assms(2) by (simp add: on_world_eq)
  from assms(1) [unfolded writes_import_def, rule_format, OF this] assms(3) show ?thesis
    by (auto simp: seen_def simp del: split_paired_All)
qed

lemma import_struct_key:
  "CreateServiceImportStruct svc cs ports = Ok si \<Longrightarrow> key_of_import si = (svcNamespace svc, svcName svc)"
  by (auto simp: CreateServiceImportStruct_def zero_meta_def split: list.splits)

lemma get_or_create_import:
  assumes laws: "import_laws R V" and s: "seen V i sv s" and key: "k = (svcNamespace svc, svcName svc)"
    and r: "get_or_create (getServiceImport R (svcNamespace svc) (svcName svc))
      (createAndGetServiceImport R svc ports cs) s = (r, s')"
  shows "\<exists>i'. seen V i' sv s' \<and> (\<forall>k'. k' \<noteq> k \<longrightarrow> i' k' = i k') \<and> (i k \<noteq> None \<longrightarrow> i' k \<noteq> None)
    \<and> (\<forall>si. r = Ok si \<longrightarrow> i' k = Some si \<and> key_of_import si = k)"
proof -
  let ?get = "kGetServiceImport (reClient R) k"
  note q = import_laws_quiet(1) [OF laws, of k]
  have g: "j k = Some si \<and> key_of_import si = k"
    if "on_world ?get t = (Ok si, t')" "seen V j sv t" for t t' j si
    using import_laws_read(1) [OF laws, of k "snd t" si] that by (simp add: on_world_eq seen_def)
  obtain r1 s1 where f: "on_world ?get s = (r1, s1)" by (rule prod.exhaust)
  note s1 = quiet_seen [OF q f s]
  show ?thesis
  proof (cases r1)
    case (Ok si)
    then have "r = Ok si" "s1 = s'" using r f key by (simp_all add: get_or_create_def getServiceImport_def)
    then show ?thesis using g [OF f [unfolded Ok] s] s1 by (intro exI [of _ i]) simp
  next
    case (Err e)
    show ?thesis
    proof (cases "api_is_not_found e \<and> (\<exists>si. CreateServiceImportStruct svc cs ports = Ok si)")
      case False
      then have "seen V i sv s'" "\<forall>si. r \<noteq> Ok si" using r f Err key s1
        by (cases "CreateServiceImportStruct svc cs ports";
            auto simp: get_or_create_def getServiceImport_def createAndGetServiceImport_def bind_ok_def
            split: if_splits)+
      then show ?thesis by blast
    next
      case True
      then obtain si0 where new: "CreateServiceImportStruct svc cs ports = Ok si0" by blast
      obtain q2 s2 where c: "on_world (kCreateServiceImport (reClient R) si0) s1 = (q2, s2)" by (rule prod.exhaust)
      obtain i' where w: "seen V i' sv s2" "\<forall>k'. k' \<noteq> k \<longrightarrow> i' k' = i k'" "i k \<noteq> None \<longrightarrow> i' k \<noteq> None"
        using write_import [OF import_laws_write(1) [OF laws] c s1] import_struct_key [OF new] key by auto
      have tail: "(\<exists>u. q2 = Ok u \<and> on_world ?get s2 = (r, s')) \<or> (s' = s2 \<and> (\<forall>si. r \<noteq> Ok si))"
        using r f Err key True new c
        by (cases q2) (auto simp: get_or_create_def getServiceImport_def createAndGetServiceImport_def)
      then show ?thesis
      proof
        assume "\<exists>u. q2 = Ok u \<and> on_world ?get s2 = (r, s')"
        then have g2: "on_world ?get s2 = (r, s')" by blast
        then have "\<forall>si. r = Ok si \<longrightarrow> i' k = Some si \<and> key_of_import si = k" using g [OF _ w(1)] by blast
        with quiet_seen [OF q g2 w(1)] w(2,3) show ?thesis by blast
      next
        assume "s' = s2 \<and> (\<forall>si. r \<noteq> Ok si)"
        with w show ?thesis by blast
      qed
    qed
  qed (use r f key s1 in \<open>auto simp: get_or_create_def getServiceImport_def\<close>)
qed


definition import_ports :: "service_import \<Rightarrow> (string \<times> int32) multiset" where
  "import_ports si = mset (map (\<lambda>p. (ipProtocol p, ipPort p)) (siPorts si))"

lemma updateServiceImport_Ok:
  assumes laws: "import_laws R V" and X: "diff_is_multiset_equality (reExt R)" and s: "seen V i sv s"
    and si: "i k = Some si" "key_of_import si = k"
    and r: "updateServiceImport R si ds ports s = (Ok u, s')"
  shows "\<exists>i' si'. seen V i' sv s' \<and> i' k = Some si' \<and> key_of_import si' = k
    \<and> mset (siIPs si') = mset (map svClusterIP ds)
    \<and> import_ports si' = mset (map (\<lambda>p. (portProtocol p, portPort p)) ports)
    \<and> (\<forall>k'. k' \<noteq> k \<longrightarrow> i' k' = i k')"
proof -
  let ?ips = "map svClusterIP ds" and ?ids = "mset (map (\<lambda>p. (portProtocol p, portPort p)) ports)"
  let ?P = "PortsEqualIgnoreOrder (reExt R) (map ServiceImportPortToPort (siPorts si)) (map (\<lambda>p. p\<lparr>portTargetPort := ''''\<rparr>) ports)"
  let ?I = "IPsEqualIgnoreOrder (reExt R) (siIPs si) ?ips"
  have P: "?P \<longleftrightarrow> import_ports si = ?ids"
    by (simp add: PortsEqual_iff [OF X] import_ports_def comp_def ServiceImportPortToPort_def)
  have I: "?I \<longleftrightarrow> mset (siIPs si) = mset ?ips"
    using X by (simp add: IPsEqualIgnoreOrder_def diff_is_multiset_equality_def)
  show ?thesis
  proof (cases "?I \<and> ?P")
    case True
    then have "s' = s" using r by (simp add: updateServiceImport_def Let_def GetClusterIpsFromServices_def)
    then show ?thesis using s si True P I by blast
  next
    case False
    let ?s1 = "if ?I then si else si\<lparr>siIPs := ?ips\<rparr>"
    let ?new = "if ?P then ?s1 else ?s1\<lparr>siPorts := map PortToServiceImportPort ports\<rparr>"
    obtain si2 where w: "on_world (kUpdateServiceImport (reClient R) ?new) s = (Ok si2, s')"
      using r False by (auto simp: updateServiceImport_def Let_def GetClusterIpsFromServices_def bind_ok_eq_Ok split: if_splits)
    have new: "key_of_import ?new = k" "mset (siIPs ?new) = mset ?ips" "import_ports ?new = ?ids"
      using si I P
      by (auto simp: import_ports_def PortToServiceImportPort_def image_mset.compositionality comp_def)
    obtain i' si' where "seen V i' sv s'" "\<forall>k'. k' \<noteq> k \<longrightarrow> i' k' = i k'" "same_import ?new si'" "i' k = Some si'"
      using write_import [OF import_laws_write(2) [OF laws] w s] unfolding new(1) by auto
    moreover have "key_of_import si' = k" "mset (siIPs si') = mset ?ips" "import_ports si' = ?ids"
      using \<open>same_import ?new si'\<close> new by (simp_all add: same_import_def import_ports_def)
    ultimately show ?thesis by blast
  qed
qed

section \<open>The whole service\<close>

text \<open>The map from clusters to endpoints that the code builds.\<close>

definition endpoints_of_cluster :: "endpoint list \<Rightarrow> string \<Rightarrow> endpoint list" where
  "endpoints_of_cluster es c = filter (\<lambda>e. epClusterId e = c) es"

lemma lookup_endpoints_by_cluster:
  "fmlookup (endpoints_by_cluster es) c =
     (if endpoints_of_cluster es c = [] then None else Some (endpoints_of_cluster es c))"
  by (induction es rule: rev_induct)
    (auto simp: endpoints_by_cluster_def endpoints_of_cluster_def split: option.splits if_splits)

lemma clusters_of_map: "fset (fmdom (endpoints_by_cluster es)) = epClusterId ` set es"
proof -
  have "c \<in> fset (fmdom (endpoints_by_cluster es)) \<longleftrightarrow> c \<in> epClusterId ` set es" for c
  proof -
    have "c \<in> fset (fmdom (endpoints_by_cluster es)) \<longleftrightarrow> endpoints_of_cluster es c \<noteq> []"
      by (simp add: fmlookup_dom_iff lookup_endpoints_by_cluster)
    also have "\<dots> \<longleftrightarrow> c \<in> epClusterId ` set es"
      by (auto simp: endpoints_of_cluster_def filter_empty_conv)
    finally show ?thesis .
  qed
  then show ?thesis by blast
qed

text \<open>
  \<open>mirrors_service\<close>: the ServiceImport of the service is there, with the ports of its endpoints and the
  cluster IPs of the derived services \<open>ds\<close>, one for each cluster that has endpoints, each with the ports
  of the endpoints of its cluster; and no derived service of another cluster is left.
\<close>

definition mirrors_service ::
  "(object_key \<Rightarrow> service_import option) \<Rightarrow> (object_key \<Rightarrow> k8s_service option) \<Rightarrow> service \<Rightarrow> k8s_service list \<Rightarrow> bool" where
  "mirrors_service imports services svc ds \<longleftrightarrow>
     (\<exists>si. imports (svcNamespace svc, svcName svc) = Some si
        \<and> mset (siIPs si) = mset (map svClusterIP ds)
        \<and> import_ports si = mset_set (port_ids (svcEndpoints svc)))
     \<and> mset (map source_cluster ds) = mset_set (epClusterId ` set (svcEndpoints svc))
     \<and> (\<forall>d \<in> set ds. services (derived_key svc (source_cluster d)) = Some d
          \<and> service_ports d = mset_set (port_ids (endpoints_of_cluster (svcEndpoints svc) (source_cluster d))))
     \<and> (\<forall>k d. services k = Some d \<longrightarrow> key_of_service d = k \<longrightarrow> fst k = svcNamespace svc
          \<longrightarrow> fmlookup (omLabels (svMeta d)) LabelDerivedServiceOriginatingName = Some (svcName svc)
          \<longrightarrow> source_cluster d \<in> epClusterId ` set (svcEndpoints svc))"

lemma derived_list:
  assumes "list_all2 (derived_stored sv svc m) cs ds"
  shows "map source_cluster ds = cs"
    and "d \<in> set ds \<Longrightarrow> derived_stored sv svc m (source_cluster d) d"
proof -
  have "map source_cluster ds = cs \<and> (\<forall>d \<in> set ds. derived_stored sv svc m (source_cluster d) d)"
    using assms by (induction rule: list_all2_induct) (auto simp: derived_stored_def derived_ok_def)
  then show "map source_cluster ds = cs"
    and "d \<in> set ds \<Longrightarrow> derived_stored sv svc m (source_cluster d) d" by blast+
qed


lemma reconcileService_Ok:
  assumes laws: "import_laws R V" and X: "diff_is_multiset_equality (reExt R)"
    and ord: "\<forall>w. is_range_order (reOrder R w)"
    and inj: "inj_on (DerivedName (svcNamespace svc) (svcName svc)) (epClusterId ` set (svcEndpoints svc))"
    and old: "\<forall>c \<in> epClusterId ` set (svcEndpoints svc). \<forall>d.
      ioServices V (snd s) (derived_key svc c) = Some d \<longrightarrow> source_cluster d = c"
    and r: "reconcileService R svc s = (Ok (), s')"
  shows "\<exists>ds. mirrors_service (ioImports V (snd s')) (ioServices V (snd s')) svc ds"
proof -
  let ?es = "svcEndpoints svc" and ?k = "(svcNamespace svc, svcName svc)"
  let ?m = "endpoints_by_cluster ?es" and ?C = "epClusterId ` set ?es"
  let ?ports = "ExtractServicePorts (reOrder R (snd s)) ?es" and ?cs = "reOrder R (snd s) (fmdom ?m)"
  from r obtain si s1 ds s2 L s3 v s4 where
    1: "get_or_create (getServiceImport R (svcNamespace svc) (svcName svc))
      (createAndGetServiceImport R svc ?ports ?cs) s = (Ok si, s1)"
    and 2: "clusters_loop R svc si ?m ?cs s1 = (Ok ds, s2)"
    and 3: "on_world (kListServices (reClient R) (omNamespace (siMeta si))
      (LabelDerivedServiceOriginatingName, omName (siMeta si))) s2 = (Ok L, s3)"
    and 4: "delete_stale R ?m L s3 = (Ok v, s4)"
    and 5: "updateServiceImport R si ds ?ports s4 = (Ok (), s')"
    unfolding reconcileService_def Let_def bind_ok_eq_Ok by blast
  obtain i1 where s1: "seen V i1 (ioServices V (snd s)) s1" "i1 ?k = Some si" "key_of_import si = ?k"
    using get_or_create_import [OF laws seen_refl refl 1] by blast
  have cs: "distinct ?cs" "set ?cs = ?C" using ord by (simp_all add: clusters_of_map)
  have dist: "distinct (map (derived_key svc) ?cs)"
    using cs inj by (simp add: distinct_map inj_on_def)
  have dom: "\<forall>c \<in> set ?cs. c \<in> fset (fmdom ?m)" using cs(2) by (simp add: clusters_of_map)
  have old': "\<forall>c \<in> set ?cs. \<forall>d. ioServices V (snd s) (derived_key svc c) = Some d \<longrightarrow> source_cluster d = c"
    using old by (simp add: cs(2))
  obtain sv2 where s2: "seen V i1 sv2 s2" "list_all2 (derived_stored sv2 svc ?m) ?cs ds"
    using clusters_loop_Ok [OF laws X ord s1(3) s1(1) dist dom old' 2] by blast
  note s3 = quiet_seen [OF import_laws_quiet(4) [OF laws] 3 s2(1)]
  have names: "omNamespace (siMeta si) = svcNamespace svc" "omName (siMeta si) = svcName svc" using s1(3) by simp_all
  have L: "set L = {d. fst (key_of_service d) = svcNamespace svc \<and> sv2 (key_of_service d) = Some d
      \<and> fmlookup (omLabels (svMeta d)) LabelDerivedServiceOriginatingName = Some (svcName svc)}"
  proof -
    have "fst (kListServices (reClient R) (svcNamespace svc) (LabelDerivedServiceOriginatingName, svcName svc) (snd s2)) = Ok L"
      using 3 by (simp add: on_world_eq names)
    from import_laws_read(6) [OF laws this] show ?thesis using s2(1) by (simp add: seen_def)
  qed
  let ?sv4 = "\<lambda>k. if \<exists>d \<in> set L. key_of_service d = k \<and> fmlookup ?m (source_cluster d) = None then None else sv2 k"
  note s4 = delete_stale_Ok [OF laws s3 4]
  have m: "fmlookup ?m c = None \<longleftrightarrow> c \<notin> ?C" for c
    using clusters_of_map [of ?es] by (metis fmdom_notD fmdom_notI)
  obtain i5 si' where s5: "seen V i5 ?sv4 s'" "i5 ?k = Some si'" "mset (siIPs si') = mset (map svClusterIP ds)"
    "import_ports si' = mset (map (\<lambda>p. (portProtocol p, portPort p)) ?ports)"
    using updateServiceImport_Ok [OF laws X s4 s1(2,3) 5] by blast
  have ports: "import_ports si' = mset_set (port_ids ?es)"
    using s5(4) extracted_ports_mset [OF ord [rule_format]] by simp
  note dl = derived_list [OF s2(2)]
  have kept: "?sv4 (derived_key svc (source_cluster d)) = Some d
      \<and> service_ports d = mset_set (port_ids (endpoints_of_cluster ?es (source_cluster d)))" if d: "d \<in> set ds" for d
  proof -
    note st = dl(2) [OF d]
    have c: "source_cluster d \<in> ?C" using dl(1) cs(2) d by (metis image_eqI set_map)
    then have "endpoints_of_cluster ?es (source_cluster d) \<noteq> []"
      by (auto simp: endpoints_of_cluster_def filter_empty_conv)
    then have "service_ports d = mset_set (port_ids (endpoints_of_cluster ?es (source_cluster d)))"
      using st by (simp add: derived_stored_def derived_ok_def lookup_endpoints_by_cluster)
    moreover have "e = d" if "e \<in> set L" "key_of_service e = derived_key svc (source_cluster d)" for e
      using that L st by (simp add: derived_stored_def)
    ultimately show ?thesis using st c m by (auto simp: derived_stored_def)
  qed
  have stale: "source_cluster d \<in> ?C"
    if "?sv4 k = Some d" "key_of_service d = k" "fst k = svcNamespace svc"
      "fmlookup (omLabels (svMeta d)) LabelDerivedServiceOriginatingName = Some (svcName svc)" for k d
  proof -
    have n: "\<not> (\<exists>d \<in> set L. key_of_service d = k \<and> fmlookup ?m (source_cluster d) = None)"
    proof
      assume "\<exists>d \<in> set L. key_of_service d = k \<and> fmlookup ?m (source_cluster d) = None"
      then show False using that(1) by simp
    qed
    then have "sv2 k = Some d" using that(1) by (simp only: n if_False)
    then have "d \<in> set L"
      unfolding L mem_Collect_eq that(2) using that(3,4) by simp
    then show ?thesis using n that(2) m by blast
  qed
  have "mset (map source_cluster ds) = mset_set ?C" using dl(1) cs by (metis mset_set_set)
  then have "mirrors_service i5 ?sv4 svc ds"
    unfolding mirrors_service_def using s5(2,3) ports kept stale by blast
  then show ?thesis using s5(1) by (auto simp: seen_def)
qed


section \<open>Which imports there are\<close>

text \<open>
  \<open>imports_kept i key s\<close>: compared with the imports \<open>i\<close>, only the import with that key may have been
  changed, and it has not been removed.
\<close>

definition imports_kept ::
  "'w import_observer \<Rightarrow> (object_key \<Rightarrow> service_import option) \<Rightarrow> object_key \<Rightarrow> 'w reconciler_state \<Rightarrow> bool" where
  "imports_kept V i key s \<longleftrightarrow> (\<forall>k. k \<noteq> key \<longrightarrow> ioImports V (snd s) k = i k)
     \<and> (i key \<noteq> None \<longrightarrow> ioImports V (snd s) key \<noteq> None)"

lemma keeps_kept_quiet: "quiet V f \<Longrightarrow> keeps (imports_kept V i key) (on_world f)"
  by (simp add: keeps_def imports_kept_def quiet_def)

lemma keeps_kept_service: "writes_service V d f \<Longrightarrow> keeps (imports_kept V i key) (on_world f)"
proof (rule keepsI)
  fix s r s' assume w: "writes_service V d f" and I: "imports_kept V i key s" and f: "on_world f s = (r, s')"
  have "f (snd s) = (r, snd s')" using f by (simp add: on_world_eq)
  from w [unfolded writes_service_def, rule_format, OF this] have "ioImports V (snd s') = ioImports V (snd s)" by blast
  with I show "imports_kept V i key s'" by (simp add: imports_kept_def)
qed

lemma keeps_get_or_create: "\<lbrakk>keeps I f; keeps I g\<rbrakk> \<Longrightarrow> keeps I (get_or_create f g)"
proof (rule keepsI)
  fix s r s' assume f: "keeps I f" and g: "keeps I g" and I: "I s" and r: "get_or_create f g s = (r, s')"
  obtain q s1 where q: "f s = (q, s1)" by (rule prod.exhaust)
  have "I s1" using keepsD [OF f I q] .
  with r q show "I s'" using keepsD [OF g] by (cases q) (auto simp: get_or_create_def split: if_splits)
qed

lemma keeps_kept_slices:
  assumes "import_laws R V"
  shows "keeps (imports_kept V i key) (updateEndpointSlices R si es svc c)"
proof (rule keepsI)
  fix s r s' assume I: "imports_kept V i key s" and u: "updateEndpointSlices R si es svc c s = (r, s')"
  have "seen V (ioImports V (snd s)) (ioServices V (snd s)) s'"
    using keepsD [OF keeps_seen_updateEndpointSlices [OF assms] seen_refl u] .
  with I show "imports_kept V i key s'" by (simp add: imports_kept_def seen_def)
qed

lemmas kept_intros = keeps_bind keeps_get_or_create keeps_return keeps_option keeps_if

lemma keeps_kept_calls:
  assumes "import_laws R V"
  shows "keeps (imports_kept V i key) (on_world (kGetService (reClient R) k))"
    and "keeps (imports_kept V i key) (on_world (kListServices (reClient R) n l))"
    and "keeps (imports_kept V i key) (on_world (kDeleteAllOfEndpointSlices (reClient R) n l))"
    and "keeps (imports_kept V i key) (on_world (kGetServiceImport (reClient R) k))"
    and "keeps (imports_kept V i key) (on_world (kCreateService (reClient R) d))"
    and "keeps (imports_kept V i key) (on_world (kUpdateService (reClient R) d))"
  by (fact import_laws_quiet(2) [OF assms, THEN keeps_kept_quiet] import_laws_quiet(4) [OF assms, THEN keeps_kept_quiet]
      import_laws_quiet(9) [OF assms, THEN keeps_kept_quiet] import_laws_quiet(1) [OF assms, THEN keeps_kept_quiet]
      import_laws_write(3,4) [OF assms, THEN keeps_kept_service])+

lemma keeps_kept_cluster:
  assumes laws: "import_laws R V"
  shows "keeps (imports_kept V i key) (reconcile_cluster R svc si m c)"
proof -
  have u: "keeps (imports_kept V i key) (updateDerivedService R d ports)" for d ports
    unfolding updateDerivedService_def
    by (intro kept_intros keeps_kept_calls [OF laws])
  have "keeps (imports_kept V i key) (\<lambda>s.
      bind_ok (get_or_create (getDerivedService R (svcNamespace svc) (svcName svc) c)
          (createAndGetDerivedService R si c (P s))) (\<lambda>d.
        bind_ok (updateDerivedService R d (P s)) (\<lambda>d'.
          bind_ok (updateEndpointSlices R si es d' c) (\<lambda>_. return_value d'))) s)" for P es
  proof -
    have "keeps (imports_kept V i key) (bind_ok (get_or_create (getDerivedService R (svcNamespace svc) (svcName svc) c)
          (createAndGetDerivedService R si c ports)) (\<lambda>d.
        bind_ok (updateDerivedService R d ports) (\<lambda>d'.
          bind_ok (updateEndpointSlices R si es d' c) (\<lambda>_. return_value d'))))" for ports
      unfolding createAndGetDerivedService_def getDerivedService_def
      by (intro kept_intros u keeps_kept_calls [OF laws] keeps_kept_slices [OF laws])
    then show ?thesis by (simp add: keeps_def)
  qed
  then show ?thesis unfolding reconcile_cluster_def Let_def .
qed

lemma keeps_kept_clusters:
  assumes "import_laws R V"
  shows "keeps (imports_kept V i key) (clusters_loop R svc si m cs)"
  by (induction cs) (auto intro!: keeps_bind keeps_return keeps_kept_cluster [OF assms])

lemma keeps_kept_delete_service:
  assumes laws: "import_laws R V"
  shows "keeps (imports_kept V i key) (on_world (kDeleteService (reClient R) d))"
proof (rule keepsI)
  fix s r s' assume I: "imports_kept V i key s" and "on_world (kDeleteService (reClient R) d) s = (r, s')"
  then have k: "kDeleteService (reClient R) d (snd s) = (r, snd s')" by (simp add: on_world_eq)
  have w: "import_write_laws (reClient R) V" using laws by (simp add: import_laws_def object_laws_def)
  have "ioImports V (snd s') = ioImports V (snd s)"
    using w [unfolded import_write_laws_def, THEN conjunct2, THEN conjunct2, THEN conjunct2, THEN conjunct2,
        THEN conjunct2, THEN conjunct2, rule_format, OF k] by blast
  with I show "imports_kept V i key s'" by (simp add: imports_kept_def)
qed

lemma keeps_kept_stale:
  assumes laws: "import_laws R V"
  shows "keeps (imports_kept V i key) (delete_stale R m ds)"
proof (induction ds)
  case (Cons d ds)
  have "keeps (imports_kept V i key) (DeleteDerivedServiceAndEndpointSlices R d)"
    unfolding DeleteDerivedServiceAndEndpointSlices_def
    by (intro kept_intros keeps_kept_delete_service [OF laws] keeps_kept_calls [OF laws])
  with Cons show ?case by (auto intro!: keeps_bind keeps_return split: option.split)
qed (simp add: keeps_return)

lemma keeps_kept_import:
  assumes w: "writes_import V si f" and key: "key_of_import si = key"
  shows "keeps (imports_kept V i key) (on_world f)"
proof (rule keepsI)
  fix s r s' assume I: "imports_kept V i key s" and f: "on_world f s = (r, s')"
  obtain i' where "seen V i' (ioServices V (snd s)) s'" "\<forall>k. k \<noteq> key \<longrightarrow> i' k = ioImports V (snd s) k"
    "ioImports V (snd s) key \<noteq> None \<longrightarrow> i' key \<noteq> None"
    using write_import [OF w f seen_refl] key by blast
  with I show "imports_kept V i key s'" by (auto simp: imports_kept_def seen_def simp del: split_paired_All)
qed

lemma keeps_kept_update_import:
  assumes laws: "import_laws R V" and key: "key_of_import si = key"
  shows "keeps (imports_kept V i key) (updateServiceImport R si ds ports)"
proof -
  have u: "keeps (imports_kept V i key) (bind_ok (on_world (kUpdateServiceImport (reClient R) si')) (\<lambda>_. return_value ()))"
    if "key_of_import si' = key" for si'
    by (intro keeps_bind keeps_return keeps_kept_import [OF import_laws_write(2) [OF laws] that])
  show ?thesis
    unfolding updateServiceImport_def Let_def
    by (intro keeps_if u keeps_return) (use key in auto)
qed


lemma kept_refl: "imports_kept V (ioImports V (snd s)) key s"
  by (simp add: imports_kept_def)

lemma reconcileService_imports:
  assumes laws: "import_laws R V" and r: "reconcileService R svc s = (r, s')"
  shows "imports_kept V (ioImports V (snd s)) (svcNamespace svc, svcName svc) s'"
    and "is_ok r \<Longrightarrow> ioImports V (snd s') (svcNamespace svc, svcName svc) \<noteq> None"
proof -
  let ?k = "(svcNamespace svc, svcName svc)" and ?m = "endpoints_by_cluster (svcEndpoints svc)"
  let ?ports = "ExtractServicePorts (reOrder R (snd s)) (svcEndpoints svc)" and ?cs = "reOrder R (snd s) (fmdom ?m)"
  let ?get = "get_or_create (getServiceImport R (svcNamespace svc) (svcName svc))
      (createAndGetServiceImport R svc ?ports ?cs)"
  let ?rest = "\<lambda>si. bind_ok (clusters_loop R svc si ?m ?cs) (\<lambda>ds.
      bind_ok (on_world (kListServices (reClient R) (omNamespace (siMeta si))
          (LabelDerivedServiceOriginatingName, omName (siMeta si)))) (\<lambda>existing.
        bind_ok (delete_stale R ?m existing) (\<lambda>_. updateServiceImport R si ds ?ports)))"
  have b: "bind_ok ?get ?rest s = (r, s')" using r by (simp add: reconcileService_def Let_def)
  obtain q s1 where g: "?get s = (q, s1)" by (rule prod.exhaust)
  obtain i1 where i1: "seen V i1 (ioServices V (snd s)) s1" "\<forall>k. k \<noteq> ?k \<longrightarrow> i1 k = ioImports V (snd s) k"
    "ioImports V (snd s) ?k \<noteq> None \<longrightarrow> i1 ?k \<noteq> None" "\<forall>si. q = Ok si \<longrightarrow> i1 ?k = Some si \<and> key_of_import si = ?k"
    using get_or_create_import [OF laws seen_refl refl g] by blast
  have s1: "imports_kept V i1 ?k s1" using i1(1) by (simp add: imports_kept_def seen_def)
  have s': "imports_kept V i1 ?k s' \<and> (is_ok r \<longrightarrow> i1 ?k \<noteq> None)"
  proof (cases "\<exists>si. q = Ok si")
    case True
    then obtain si where si: "q = Ok si" "i1 ?k = Some si" "key_of_import si = ?k" using i1(4) by blast
    have "keeps (imports_kept V i1 ?k) (?rest si)"
      by (intro keeps_bind keeps_kept_clusters keeps_kept_calls keeps_kept_stale keeps_kept_update_import laws si(3))
    then have "imports_kept V i1 ?k s'" using s1 b g si(1) by (auto dest: keepsD)
    with si show ?thesis by simp
  next
    case False
    then have "s' = s1 \<and> \<not> is_ok r" using b g by (cases q) auto
    with s1 show ?thesis by simp
  qed
  show "imports_kept V (ioImports V (snd s)) ?k s'"
    using s' i1(2,3) by (simp add: imports_kept_def del: split_paired_All)
  show "is_ok r \<Longrightarrow> ioImports V (snd s') ?k \<noteq> None" using s' by (simp add: imports_kept_def)
qed

section \<open>A namespace\<close>

lemma services_pass:
  assumes laws: "import_laws R V"
  shows "collect_errors (reconcileService R) svcs err s = (r, s') \<Longrightarrow>
    (\<forall>k. k \<notin> (\<lambda>svc. (svcNamespace svc, svcName svc)) ` set svcs \<longrightarrow> ioImports V (snd s') k = ioImports V (snd s) k)
    \<and> (\<forall>k. ioImports V (snd s) k \<noteq> None \<longrightarrow> ioImports V (snd s') k \<noteq> None)
    \<and> (r = Ok None \<longrightarrow> err = None \<and> (\<forall>svc \<in> set svcs. ioImports V (snd s') (svcNamespace svc, svcName svc) \<noteq> None))"
proof (induction svcs arbitrary: err s)
  case Nil
  then show ?case by auto
next
  case (Cons svc svcs)
  let ?k = "(svcNamespace svc, svcName svc)"
  obtain q s1 where q: "reconcileService R svc s = (q, s1)" by (rule prod.exhaust)
  note k = reconcileService_imports [OF laws q]
  have one: "ioImports V (snd s1) j = ioImports V (snd s) j" if "j \<noteq> ?k" for j
    using k(1) that by (simp add: imports_kept_def del: split_paired_All)
  have stay: "ioImports V (snd s1) j \<noteq> None" if "ioImports V (snd s) j \<noteq> None" for j
    using k(1) that one [of j] by (cases "j = ?k") (auto simp: imports_kept_def simp del: split_paired_All)
  show ?case
  proof (cases "q = Panic")
    case True
    then show ?thesis using Cons.prems q one stay by auto
  next
    case False
    define err1 where "err1 = Wrap err (err_of q)"
    have c: "collect_errors (reconcileService R) svcs err1 s1 = (r, s')"
      using Cons.prems q False by (cases q) (simp_all add: err1_def)
    have e1: "err1 = None \<longrightarrow> err = None \<and> is_ok q" using False by (cases q) (simp_all add: err1_def)
    note IH = Cons.IH [OF c]
    have "ioImports V (snd s') j = ioImports V (snd s) j"
      if "j \<notin> (\<lambda>svc. (svcNamespace svc, svcName svc)) ` set (svc # svcs)" for j
    proof -
      have "j \<noteq> ?k" "j \<notin> (\<lambda>svc. (svcNamespace svc, svcName svc)) ` set svcs" using that by auto
      then show ?thesis using IH one by metis
    qed
    moreover have "ioImports V (snd s') j \<noteq> None" if "ioImports V (snd s) j \<noteq> None" for j
      using IH stay [OF that] by blast
    moreover have "err = None \<and> (\<forall>x \<in> set (svc # svcs). ioImports V (snd s') (svcNamespace x, svcName x) \<noteq> None)"
      if "r = Ok None"
    proof -
      have "err1 = None" "\<forall>x \<in> set svcs. ioImports V (snd s') (svcNamespace x, svcName x) \<noteq> None"
        using IH that by blast+
      moreover have "ioImports V (snd s') ?k \<noteq> None" using IH k(2) e1 \<open>err1 = None\<close> by blast
      ultimately show ?thesis using e1 by simp
    qed
    ultimately show ?thesis by blast
  qed
qed

lemma deletes_pass:
  assumes laws: "import_laws R V"
  shows "collect_errors (\<lambda>i. on_world (kDeleteServiceImport (reClient R) i)) xs err s = (r, s') \<Longrightarrow>
    (\<forall>k. k \<notin> key_of_import ` set xs \<longrightarrow> ioImports V (snd s') k = ioImports V (snd s) k)
    \<and> (r = Ok None \<longrightarrow> err = None \<and> (\<forall>k \<in> key_of_import ` set xs. ioImports V (snd s') k = None))"
proof (induction xs arbitrary: err s)
  case Nil
  then show ?case by auto
next
  case (Cons x xs)
  obtain q s1 where q: "on_world (kDeleteServiceImport (reClient R) x) s = (q, s1)" by (rule prod.exhaust)
  then have d: "kDeleteServiceImport (reClient R) x (snd s) = (q, snd s1)" by (simp add: on_world_eq)
  have w: "import_write_laws (reClient R) V" using laws by (simp add: import_laws_def object_laws_def)
  have one: "ioImports V (snd s1) j = ioImports V (snd s) j" if "j \<noteq> key_of_import x" for j
    using w [unfolded import_write_laws_def, THEN conjunct2, THEN conjunct2, THEN conjunct2, THEN conjunct2,
        THEN conjunct2, THEN conjunct1, rule_format, OF d] that by blast
  show ?case
  proof (cases "q = Panic")
    case True
    then have "s' = s1" "r = Panic" using Cons.prems q by simp_all
    then show ?thesis using one by simp
  next
    case False
    define err1 where "err1 = Wrap err (err_of q)"
    have c: "collect_errors (\<lambda>i. on_world (kDeleteServiceImport (reClient R) i)) xs err1 s1 = (r, s')"
      using Cons.prems q False by (cases q) (simp_all add: err1_def)
    have e1: "err1 = None \<longrightarrow> err = None \<and> is_ok q" using False by (cases q) (simp_all add: err1_def)
    note IH = Cons.IH [OF c]
    have "ioImports V (snd s') j = ioImports V (snd s) j" if "j \<notin> key_of_import ` set (x # xs)" for j
    proof -
      have "j \<noteq> key_of_import x" "j \<notin> key_of_import ` set xs" using that by auto
      then show ?thesis using IH one by metis
    qed
    moreover have "err = None \<and> (\<forall>k \<in> key_of_import ` set (x # xs). ioImports V (snd s') k = None)" if "r = Ok None"
    proof -
      note IH2 = IH [THEN conjunct2, rule_format, OF that]
      note gone = IH2 [THEN conjunct2]
      have "err1 = None" by (rule IH2 [THEN conjunct1])
      then have "is_ok q" "err = None" using e1 by simp_all
      then have "ioImports V (snd s1) (key_of_import x) = None"
        using w [unfolded import_write_laws_def, THEN conjunct2, THEN conjunct2, THEN conjunct2, THEN conjunct2,
            THEN conjunct2, THEN conjunct1, rule_format, OF d] by blast
      then have "ioImports V (snd s') (key_of_import x) = None"
        using IH gone by (cases "key_of_import x \<in> key_of_import ` set xs") metis+
      then show ?thesis using gone \<open>err = None\<close> by simp
    qed
    ultimately show ?thesis by blast
  qed
qed


lemma lookup_foldl_fmdrop:
  "fmlookup (foldl (\<lambda>m svc. fmdrop (svcName svc) m) m svcs) x =
    (if x \<in> svcName ` set svcs then None else fmlookup m x)"
  by (induction svcs arbitrary: m) auto

lemma rest_keys:
  assumes ord: "is_range_order ord" and L: "key_of_import ` set L = {k. fst k = n \<and> ioImports V w k \<noteq> None}"
  shows "key_of_import ` set (map_values ord (foldl (\<lambda>m svc. fmdrop (svcName svc) m) (existing_imports L) svcs))
    = {k. fst k = n \<and> ioImports V w k \<noteq> None \<and> snd k \<notin> svcName ` set svcs}"
    (is "?A = ?B")
proof
  let ?m = "foldl (\<lambda>m svc. fmdrop (svcName svc) m) (existing_imports L) svcs"
  show "?A \<subseteq> ?B"
  proof
    fix k assume "k \<in> ?A"
    then obtain x j where j: "fmlookup ?m j = Some x" and k: "k = key_of_import x"
      using ord by (auto simp: set_map_values)
    then have "fmlookup (existing_imports L) j = Some x" "j \<notin> svcName ` set svcs"
      by (simp_all add: lookup_foldl_fmdrop split: if_splits)
    then have "x \<in> set L" "snd k \<notin> svcName ` set svcs"
      using index_by_Some [of "\<lambda>i. omName (siMeta i)" L j x] k by (simp_all add: existing_imports_def)
    then have "k \<in> key_of_import ` set L" using k by blast
    then show "k \<in> ?B" using L \<open>snd k \<notin> svcName ` set svcs\<close> by blast
  qed
  show "?B \<subseteq> ?A"
  proof
    fix k assume k: "k \<in> ?B"
    then have "k \<in> key_of_import ` set L" using L by blast
    then have "snd k \<in> (\<lambda>i. omName (siMeta i)) ` set L" by auto
    then obtain x where "fmlookup (existing_imports L) (snd k) = Some x"
      using index_by_None [of "\<lambda>i. omName (siMeta i)" L "snd k"] unfolding existing_imports_def by blast
    then have x: "fmlookup ?m (snd k) = Some x" "x \<in> set L" "omName (siMeta x) = snd k"
      using k index_by_Some [of "\<lambda>i. omName (siMeta i)" L "snd k" x]
      by (simp_all add: lookup_foldl_fmdrop existing_imports_def)
    have "key_of_import x \<in> {k. fst k = n \<and> ioImports V w k \<noteq> None}" using L x(2) by blast
    then have "key_of_import x = k" using x(3) k by (simp add: prod_eq_iff)
    then show "k \<in> ?A" using x(1) ord by (force simp: set_map_values)
  qed
qed

lemma reconcileNamespace_steps:
  assumes r: "reconcileNamespace R n s = (r, s')"
  shows "(\<exists>q. on_world (sdListServices (reCloudMap R) n) s = (q, s') \<and> \<not> is_ok q \<and> \<not> is_ok r)
    \<or> (\<exists>svcs s1 q. on_world (sdListServices (reCloudMap R) n) s = (Ok svcs, s1)
        \<and> on_world (kListServiceImports (reClient R) n) s1 = (q, s') \<and> \<not> is_ok q \<and> \<not> is_ok r)
    \<or> (\<exists>svcs s1 L s2 q s3. on_world (sdListServices (reCloudMap R) n) s = (Ok svcs, s1)
        \<and> on_world (kListServiceImports (reClient R) n) s1 = (Ok L, s2)
        \<and> collect_errors (reconcileService R) (listed_services svcs) None s2 = (q, s3)
        \<and> (\<not> is_ok q \<and> s' = s3 \<and> \<not> is_ok r
           \<or> (\<exists>err q'. q = Ok err \<and> collect_errors (\<lambda>i. on_world (kDeleteServiceImport (reClient R) i))
                (map_values (reOrder R (snd s3)) (foldl (\<lambda>m svc. fmdrop (svcName svc) m) (existing_imports L) (listed_services svcs)))
                err s3 = (q', s') \<and> (is_ok r \<longleftrightarrow> q' = Ok None))))"
proof -
  obtain q1 s1 where 1: "on_world (sdListServices (reCloudMap R) n) s = (q1, s1)" by (rule prod.exhaust)
  show ?thesis
  proof (cases q1)
    case (Ok svcs)
    obtain q2 s2 where 2: "on_world (kListServiceImports (reClient R) n) s1 = (q2, s2)" by (rule prod.exhaust)
    show ?thesis
    proof (cases q2)
      case ok2: (Ok L)
      obtain q3 s3 where 3: "collect_errors (reconcileService R) (listed_services svcs) None s2 = (q3, s3)"
        by (rule prod.exhaust)
      show ?thesis
      proof (cases q3)
        case ok3: (Ok err)
        let ?rest = "map_values (reOrder R (snd s3)) (foldl (\<lambda>m svc. fmdrop (svcName svc) m) (existing_imports L) (listed_services svcs))"
        obtain q4 s4 where 4: "collect_errors (\<lambda>i. on_world (kDeleteServiceImport (reClient R) i)) ?rest err s3 = (q4, s4)"
          by (rule prod.exhaust)
        have "s4 = s' \<and> (is_ok r \<longleftrightarrow> q4 = Ok None)"
          using r 1 2 3 4 Ok ok2 ok3
          by (cases q4) (auto simp: reconcileNamespace_def Let_def)
        then show ?thesis using 1 2 3 4 Ok ok2 ok3 by blast
      next
        case (Err e)
        then have "s' = s3" "\<not> is_ok q3" "\<not> is_ok r" using r 1 2 3 Ok ok2 by (auto simp: reconcileNamespace_def)
        then show ?thesis using 1 2 3 Ok ok2 by blast
      next
        case Panic
        then have "s' = s3" "\<not> is_ok q3" "\<not> is_ok r" using r 1 2 3 Ok ok2 by (auto simp: reconcileNamespace_def)
        then show ?thesis using 1 2 3 Ok ok2 by blast
      qed
    qed (use r 1 2 Ok in \<open>auto simp: reconcileNamespace_def\<close>)
  qed (use r 1 in \<open>auto simp: reconcileNamespace_def\<close>)
qed


text \<open>The imports that a list of services of Cloud Map calls for in a namespace.\<close>

definition wanted_imports :: "string \<Rightarrow> service list \<Rightarrow> object_key set" where
  "wanted_imports n svcs = {(n, svcName svc) |svc. svc \<in> set svcs \<and> svcEndpoints svc \<noteq> []}"

lemma listed_keys:
  assumes laws: "import_laws R V" and l: "fst (sdListServices (reCloudMap R) n w) = Ok svcs"
  shows "(\<lambda>svc. (svcNamespace svc, svcName svc)) ` set (listed_services svcs) = wanted_imports n svcs"
    and "snd k \<in> svcName ` set (listed_services svcs) \<longleftrightarrow> (n, snd k) \<in> wanted_imports n svcs"
proof -
  have "svcNamespace svc = n" if "svc \<in> set svcs" for svc using import_laws_read(7) [OF laws l that] .
  then show "(\<lambda>svc. (svcNamespace svc, svcName svc)) ` set (listed_services svcs) = wanted_imports n svcs"
    by (force simp: listed_services_def wanted_imports_def)
  show "snd k \<in> svcName ` set (listed_services svcs) \<longleftrightarrow> (n, snd k) \<in> wanted_imports n svcs"
    by (auto simp: listed_services_def wanted_imports_def)
qed

text \<open>The part of a namespace's reconcile up to the end of the loop over the services.\<close>

lemma namespace_pass:
  assumes laws: "import_laws R V"
    and 1: "on_world (sdListServices (reCloudMap R) n) s = (Ok svcs, s1)"
    and 2: "on_world (kListServiceImports (reClient R) n) s1 = (Ok L, s2)"
    and 3: "collect_errors (reconcileService R) (listed_services svcs) None s2 = (q, s3)"
  shows "\<forall>k. k \<notin> wanted_imports n svcs \<longrightarrow> ioImports V (snd s3) k = ioImports V (snd s) k"
    and "\<forall>k. ioImports V (snd s) k \<noteq> None \<longrightarrow> ioImports V (snd s3) k \<noteq> None"
    and "q = Ok None \<Longrightarrow> \<forall>k \<in> wanted_imports n svcs. ioImports V (snd s3) k \<noteq> None"
    and "key_of_import ` set L = {k. fst k = n \<and> ioImports V (snd s) k \<noteq> None}"
proof -
  have l: "fst (sdListServices (reCloudMap R) n (snd s)) = Ok svcs" using 1 by (simp add: on_world_eq)
  have "seen V (ioImports V (snd s)) (ioServices V (snd s)) s1"
    using quiet_seen [OF import_laws_quiet(10) [OF laws] 1 seen_refl] .
  moreover from this have "seen V (ioImports V (snd s)) (ioServices V (snd s)) s2"
    by (rule quiet_seen [OF import_laws_quiet(3) [OF laws] 2])
  ultimately have i: "ioImports V (snd s1) = ioImports V (snd s)" "ioImports V (snd s2) = ioImports V (snd s)"
    by (simp_all add: seen_def)
  note p = services_pass [OF laws 3, unfolded listed_keys(1) [OF laws l] i]
  show "\<forall>k. k \<notin> wanted_imports n svcs \<longrightarrow> ioImports V (snd s3) k = ioImports V (snd s) k"
    by (rule p [THEN conjunct1])
  show "\<forall>k. ioImports V (snd s) k \<noteq> None \<longrightarrow> ioImports V (snd s3) k \<noteq> None"
    by (rule p [THEN conjunct2, THEN conjunct1])
  show "\<forall>k \<in> wanted_imports n svcs. ioImports V (snd s3) k \<noteq> None" if "q = Ok None"
    using p [THEN conjunct2, THEN conjunct2, rule_format, OF that]
    unfolding listed_keys(1) [OF laws l, symmetric] by blast
  show "key_of_import ` set L = {k. fst k = n \<and> ioImports V (snd s) k \<noteq> None}"
    using import_laws_read(5) [OF laws, of n "snd s1" L] 2 by (simp add: on_world_eq i)
qed

lemma wanted_in_namespace: "k \<in> wanted_imports n svcs \<Longrightarrow> fst k = n"
  by (auto simp: wanted_imports_def)

lemma reconcileNamespace_imports:
  assumes laws: "import_laws R V" and ord: "\<forall>w. is_range_order (reOrder R w)"
    and r: "reconcileNamespace R n s = (r, s')"
  shows "\<forall>k. fst k \<noteq> n \<longrightarrow> ioImports V (snd s') k = ioImports V (snd s) k"
    and "\<forall>k. ioImports V (snd s) k \<noteq> None
      \<longrightarrow> (\<forall>svcs. fst (sdListServices (reCloudMap R) n (snd s)) = Ok svcs \<longrightarrow> k \<in> wanted_imports n svcs)
      \<longrightarrow> ioImports V (snd s') k \<noteq> None"
    and "is_ok r \<Longrightarrow> fst (sdListServices (reCloudMap R) n (snd s)) = Ok svcs \<Longrightarrow>
      {k. fst k = n \<and> ioImports V (snd s') k \<noteq> None} = wanted_imports n svcs"
proof -
  have quietly: "ioImports V (snd t') = ioImports V (snd t)"
    if "quiet V f" "on_world f t = (q, t')" for f :: "'a \<Rightarrow> 'b outcome \<times> 'a" and t t' q
    using quiet_seen [OF that seen_refl] by (simp add: seen_def)
  have all: "(\<forall>k. fst k \<noteq> n \<longrightarrow> ioImports V (snd s') k = ioImports V (snd s) k)
    \<and> (\<forall>k. ioImports V (snd s) k \<noteq> None
        \<longrightarrow> (\<forall>svcs. fst (sdListServices (reCloudMap R) n (snd s)) = Ok svcs \<longrightarrow> k \<in> wanted_imports n svcs)
        \<longrightarrow> ioImports V (snd s') k \<noteq> None)
    \<and> (is_ok r \<longrightarrow> fst (sdListServices (reCloudMap R) n (snd s)) = Ok svcs \<longrightarrow>
        {k. fst k = n \<and> ioImports V (snd s') k \<noteq> None} = wanted_imports n svcs)"
    using reconcileNamespace_steps [OF r]
  proof (elim disjE exE conjE)
    fix q assume "on_world (sdListServices (reCloudMap R) n) s = (q, s')" "\<not> is_ok q" "\<not> is_ok r"
    then show ?thesis using quietly [OF import_laws_quiet(10) [OF laws]] by simp
  next
    fix svcs0 s1 q
    assume 1: "on_world (sdListServices (reCloudMap R) n) s = (Ok svcs0, s1)"
      and 2: "on_world (kListServiceImports (reClient R) n) s1 = (q, s')" and "\<not> is_ok r"
    then show ?thesis
      using quietly [OF import_laws_quiet(10) [OF laws] 1] quietly [OF import_laws_quiet(3) [OF laws] 2] by simp
  next
    fix svcs0 s1 L s2 q s3
    assume 1: "on_world (sdListServices (reCloudMap R) n) s = (Ok svcs0, s1)"
      and 2: "on_world (kListServiceImports (reClient R) n) s1 = (Ok L, s2)"
      and 3: "collect_errors (reconcileService R) (listed_services svcs0) None s2 = (q, s3)"
      and 4: "\<not> is_ok q" "s' = s3" "\<not> is_ok r"
    have l: "fst (sdListServices (reCloudMap R) n (snd s)) = Ok svcs0" using 1 by (simp add: on_world_eq)
    note p = namespace_pass [OF laws 1 2 3]
    have "ioImports V (snd s') k = ioImports V (snd s) k" if "fst k \<noteq> n" for k
      using p(1) wanted_in_namespace that 4(2) by metis
    moreover have "ioImports V (snd s') k \<noteq> None" if "ioImports V (snd s) k \<noteq> None" for k
      using p(2) that 4(2) by blast
    ultimately show ?thesis using 4(3) by blast
  next
    fix svcs0 s1 L s2 q s3 err q'
    assume 1: "on_world (sdListServices (reCloudMap R) n) s = (Ok svcs0, s1)"
      and 2: "on_world (kListServiceImports (reClient R) n) s1 = (Ok L, s2)"
      and 3: "collect_errors (reconcileService R) (listed_services svcs0) None s2 = (q, s3)"
      and 4: "q = Ok err" "collect_errors (\<lambda>i. on_world (kDeleteServiceImport (reClient R) i))
                (map_values (reOrder R (snd s3)) (foldl (\<lambda>m svc. fmdrop (svcName svc) m) (existing_imports L) (listed_services svcs0)))
                err s3 = (q', s')" "is_ok r \<longleftrightarrow> q' = Ok None"
    have l: "fst (sdListServices (reCloudMap R) n (snd s)) = Ok svcs0" using 1 by (simp add: on_world_eq)
    let ?W = "wanted_imports n svcs0"
    let ?D = "{k. fst k = n \<and> ioImports V (snd s) k \<noteq> None \<and> k \<notin> ?W}"
    note p = namespace_pass [OF laws 1 2 3]
    have "{k. fst k = n \<and> ioImports V (snd s) k \<noteq> None \<and> snd k \<notin> svcName ` set (listed_services svcs0)} = ?D"
      unfolding listed_keys(2) [OF laws l] by auto
    note d = deletes_pass [OF laws 4(2), unfolded rest_keys [OF ord [rule_format] p(4)] this]
    note same = d [THEN conjunct1, rule_format]
    have other: "ioImports V (snd s') k = ioImports V (snd s) k" if "fst k \<noteq> n" for k
    proof -
      have D: "k \<notin> ?D" and W: "k \<notin> ?W" using that wanted_in_namespace by blast+
      show ?thesis using same [OF D] p(1) [rule_format, OF W] by simp
    qed
    have stay: "ioImports V (snd s') k \<noteq> None" if "ioImports V (snd s) k \<noteq> None" "k \<in> ?W" for k
    proof -
      have D: "k \<notin> ?D" using that(2) by blast
      show ?thesis using same [OF D] p(2) [rule_format, OF that(1)] by simp
    qed
    have exact: "{k. fst k = n \<and> ioImports V (snd s') k \<noteq> None} = ?W" if "is_ok r"
    proof -
      have "q' = Ok None" using 4(3) that by simp
      from d [THEN conjunct2, rule_format, OF this] have "err = None" and gone: "\<forall>k \<in> ?D. ioImports V (snd s') k = None"
        by (rule conjunct1, rule conjunct2)
      have there: "\<forall>k \<in> ?W. ioImports V (snd s3) k \<noteq> None" using p(3) 4(1) \<open>err = None\<close> by simp
      have "ioImports V (snd s') k \<noteq> None \<longleftrightarrow> k \<in> ?W" if "fst k = n" for k
      proof (cases "k \<in> ?D")
        case True
        have "k \<notin> ?W" using True by blast
        then show ?thesis using bspec [OF gone True] by simp
      next
        case D: False
        show ?thesis
        proof (cases "k \<in> ?W")
          case True
          show ?thesis using same [OF D] bspec [OF there True] True by simp
        next
          case False
          then have "ioImports V (snd s) k = None" using D that by blast
          then show ?thesis using same [OF D] p(1) [rule_format, OF False] False by simp
        qed
      qed
      then show ?thesis using wanted_in_namespace by blast
    qed
    have "(\<forall>svcs. fst (sdListServices (reCloudMap R) n (snd s)) = Ok svcs \<longrightarrow> k \<in> wanted_imports n svcs) \<longleftrightarrow> k \<in> ?W" for k
      by (simp add: l)
    then show ?thesis using other stay exact l by simp
  qed
  then show "\<forall>k. fst k \<noteq> n \<longrightarrow> ioImports V (snd s') k = ioImports V (snd s) k"
    and "\<forall>k. ioImports V (snd s) k \<noteq> None
      \<longrightarrow> (\<forall>svcs. fst (sdListServices (reCloudMap R) n (snd s)) = Ok svcs \<longrightarrow> k \<in> wanted_imports n svcs)
      \<longrightarrow> ioImports V (snd s') k \<noteq> None"
    and "is_ok r \<Longrightarrow> fst (sdListServices (reCloudMap R) n (snd s)) = Ok svcs \<Longrightarrow>
      {k. fst k = n \<and> ioImports V (snd s') k \<noteq> None} = wanted_imports n svcs"
    by blast+
qed

section \<open>One round over all namespaces\<close>

lemma round_of_namespaces:
  assumes "reconciler_properties R s = (Ok cp, s1)" and "on_world (kListNamespaces (reClient R)) s1 = (Ok nss, s2)"
    and "Panic \<notin> set (outcomes (reconcileNamespace R) nss s2)"
  shows "ReconcileCloudMap R s =
    (error_result (wrap_all None (map err_of (outcomes (reconcileNamespace R) nss s2))),
     after_all (reconcileNamespace R) nss s2)"
  using assms by (simp add: ReconcileCloudMap_def collect_errors_eq)

lemma round_steps:
  assumes "reconciler_properties R s = (Ok cp, s1)" and "on_world (kListNamespaces (reClient R)) s1 = (Ok nss, s2)"
    and "ReconcileCloudMap R s = (Ok (), s')"
  shows "\<forall>r \<in> set (outcomes (reconcileNamespace R) nss s2). is_ok r"
    and "s' = after_all (reconcileNamespace R) nss s2"
proof -
  have "bind_ok (collect_errors (reconcileNamespace R) nss None) (\<lambda>err. Pair (error_result err)) s2 = (Ok (), s')"
    using assms by (simp add: ReconcileCloudMap_def)
  then have c: "collect_errors (reconcileNamespace R) nss None s2 = (Ok None, s')"
    by (auto simp: bind_ok_eq_Ok)
  note o = collect_errors_Ok [OF c]
  show "s' = after_all (reconcileNamespace R) nss s2" by (rule o(3))
  have "\<forall>e \<in> set (map err_of (outcomes (reconcileNamespace R) nss s2)). e = None"
    using o(2) [symmetric] unfolding wrap_all_eq_None by blast
  then show "\<forall>r \<in> set (outcomes (reconcileNamespace R) nss s2). is_ok r"
    using err_of_outcomes [OF o(1)] by blast
qed

lemma after_other_namespaces:
  assumes laws: "import_laws R V" and ord: "\<forall>w. is_range_order (reOrder R w)" and "fst k \<notin> set nss"
  shows "ioImports V (snd (after_all (reconcileNamespace R) nss s)) k = ioImports V (snd s) k"
  using assms(3)
proof (induction nss arbitrary: s)
  case (Cons n nss)
  obtain r t where t: "reconcileNamespace R n s = (r, t)" by (rule prod.exhaust)
  have "ioImports V (snd t) k = ioImports V (snd s) k"
    using reconcileNamespace_imports(1) [OF laws ord t, rule_format, of k] Cons.prems by simp
  then show ?case using Cons t by simp
qed simp

lemma round_mirrors:
  assumes laws: "import_laws R V" and ord: "\<forall>w. is_range_order (reOrder R w)"
    and p: "reconciler_properties R s = (Ok cp, s1)"
    and l: "on_world (kListNamespaces (reClient R)) s1 = (Ok nss, s2)" and d: "distinct nss"
    and r: "ReconcileCloudMap R s = (Ok (), s')" and nss: "nss = before @ n # after"
    and svcs: "fst (sdListServices (reCloudMap R) n (snd (after_all (reconcileNamespace R) before s2))) = Ok svcs"
  shows "{k. fst k = n \<and> ioImports V (snd s') k \<noteq> None} = wanted_imports n svcs"
proof -
  let ?t = "after_all (reconcileNamespace R) before s2"
  obtain q t' where t': "reconcileNamespace R n ?t = (q, t')" by (rule prod.exhaust)
  note steps = round_steps [OF p l r]
  have "is_ok q" using steps(1) t' by (simp add: nss outcomes_append)
  then have w: "{k. fst k = n \<and> ioImports V (snd t') k \<noteq> None} = wanted_imports n svcs"
    by (rule reconcileNamespace_imports(3) [OF laws ord t' _ svcs])
  have s': "s' = after_all (reconcileNamespace R) after t'"
    using steps(2) t' by (simp add: nss outcomes_append)
  have "n \<notin> set after" using d nss by simp
  then have "ioImports V (snd s') k = ioImports V (snd t') k" if "fst k = n" for k
    unfolding s' using after_other_namespaces [OF laws ord, of k after t'] that by blast
  then have "{k. fst k = n \<and> ioImports V (snd s') k \<noteq> None} = {k. fst k = n \<and> ioImports V (snd t') k \<noteq> None}"
    by (intro Collect_cong conj_cong) (simp_all del: split_paired_All)
  then show ?thesis unfolding w .
qed

end
