(* ===== verification/ImportProperties.thy ===== *)
theory ImportProperties
  imports ImportState
begin

text \<open>
  The properties of the import controller, from the lemmas of \<open>ImportSpec\<close> and \<open>ImportState\<close>, with an
  example world on which the witnesses run.
\<close>

section \<open>Plans of the controller\<close>

lemma controller_limit: "getMaxEndpointsPerSlice (slice_plan_for svc si c es refs) = 100"
  by (simp add: getMaxEndpointsPerSlice_def slice_plan_for_def defaultMaxEndpointsPerSlice_def)

lemma single_slice_not_aliased:
  assumes "length items \<le> 1"
  shows "loop_variable_pointers items = [0..<length items]" and "loop_variable_cell items = items"
  using assms by (cases items; simp add: loop_variable_pointers_def loop_variable_cell_def)+

lemma single_slice_ready:
  assumes "length items \<le> 1" and "\<forall>sl \<in> set items. well_addressed sl"
  shows "plan_ready (slice_plan_for svc si c es (loop_variable_pointers items)) (loop_variable_cell items)"
  using assms by (auto simp: plan_ready_def slice_plan_for_def single_slice_not_aliased)

lemma single_slice_plan:
  assumes X: "diff_is_multiset_equality (reExt R)" and ord: "\<forall>w. is_range_order (reOrder R w)"
    and one: "length items \<le> 1" and well: "\<forall>sl \<in> set items. well_addressed sl"
    and l: "on_world (kListEndpointSlices (reClient R) (omNamespace (svMeta svc))
      (LabelServiceName, omName (svMeta svc))) s = (Ok items, s1)"
  shows "\<exists>ch h. updateEndpointSlices R si es svc c s = apply_slice_changes R ch h s1
    \<and> mset (keys_at h (live ch)) = mset_set (epIP ` set es)
    \<and> mset (scUpdate ch @ scDelete ch @ scUnmodified ch) = mset [0..<length items]
    \<and> scCreate ch = [length items..<length h]
    \<and> (\<forall>r < length items. r \<notin> set (scUpdate ch) \<longrightarrow> h ! r = items ! r)
    \<and> (\<forall>r < length items. esMeta (h ! r) = esMeta (items ! r))"
proof -
  let ?p = "slice_plan_for svc si c es (loop_variable_pointers items)"
  let ?o = "reOrder R (snd s1)"
  obtain B where B: "getMaxEndpointsPerSlice ?p \<le> B" "slices_within B (loop_variable_cell items) (spCurrent ?p)"
    by (rule size_bound)
  obtain t where t: "CalculateSliceChanges (reExt R) ?o ?o ?p (loop_variable_cell items) = Some (Ok (tsChanges t), tsSlices t)"
    "refs_inv (loop_variable_cell items) (spCurrent ?p) t" "keys_inv (index_by epIP (spDesired ?p)) t"
    "wanted (tsDesired t) = {#}"
    using slice_plan_result [OF X ord [rule_format] single_slice_ready [OF one well], of svc si c es B ?o "snd s1"] B
    by (auto simp: controller_limit)
  have cur: "spCurrent ?p = [0..<length items]" "loop_variable_cell items = items" "spDesired ?p = es"
    using single_slice_not_aliased [OF one] by (simp_all add: slice_plan_for_def)
  have "updateEndpointSlices R si es svc c s = apply_slice_changes R (tsChanges t) (tsSlices t) s1"
    using l t(1) by (simp add: updateEndpointSlices_def)
  then show ?thesis
    using t(2-4) unfolding cur
    by (intro exI [of _ "tsChanges t"] exI [of _ "tsSlices t"])
      (auto simp: refs_inv_def keys_inv_def Let_def wanted_start)
qed

text \<open>On two slices, the plan is made for two pointers to the last one.\<close>

lemma keep_desired_none: "list_all (\<lambda>e. seAddresses e \<noteq> []) es \<Longrightarrow> keep_desired es fmempty = (Ok [], fmempty)"
  by (induction es) (auto split: list.splits)

lemma aliased_plan:
  assumes X: "diff_is_multiset_equality X" and b: "well_addressed b" "has_ports X (ExtractEndpointPorts pord es) b"
    and keys: "mset (slice_keys b) = mset_set (epIP ` set es)" and ne: "es \<noteq> []"
  shows "CalculateSliceChanges X pord ord (slice_plan_for svc si c es [0, 0]) [b]
    = Some (Ok \<lparr>scCreate = [], scUpdate = [], scDelete = [0], scUnmodified = [0]\<rparr>, [b])"
proof -
  let ?ports = "ExtractEndpointPorts pord es"
  have addr: "list_all (\<lambda>e. seAddresses e \<noteq> []) (esEndpoints b)" using b(1) by (simp add: well_addressed_def)
  have w: "mset (map slice_addr (esEndpoints b)) = wanted (index_by epIP es)"
    using keys by (simp add: slice_keys_def wanted_start)
  then obtain d where d: "keep_desired (esEndpoints b) (index_by epIP es) = (Ok (esEndpoints b), d)"
    and "wanted (index_by epIP es) = mset (map slice_addr (esEndpoints b)) + wanted d"
    using keep_all [OF addr, of "index_by epIP es"] by auto
  then have "wanted d = {#}" using w by simp
  then have "fset (fmdom d) = {}" by (simp add: mset_set_empty_iff)
  then have empty: "d = fmempty"
    by (intro fmap_ext) (metis equals0D fmdom_notD fmempty_lookup)
  obtain ps where ps: "endpointPortSliceToPortSlice (esPorts b) = Ok ps" "PortsEqualIgnoreOrder X ?ports ps"
    using b(2) by (auto simp: has_ports_def split: outcome.splits)
  have "esEndpoints b \<noteq> []" using keys ne by (auto simp: slice_keys_def mset_set_empty_iff)
  then show ?thesis
    using d ps keep_desired_none [OF addr]
    by (simp add: CalculateSliceChanges_def slice_plan_for_def trimSlice_def Let_def no_changes_def empty add_loop.simps)
qed

lemma two_slices_delete_last:
  assumes X: "diff_is_multiset_equality (reExt R)" and ord: "\<forall>w. is_range_order (reOrder R w)"
    and l: "on_world (kListEndpointSlices (reClient R) (omNamespace (svMeta svc))
      (LabelServiceName, omName (svMeta svc))) s = (Ok [a, b], s1)"
    and b: "well_addressed b" "\<forall>w. has_ports (reExt R) (ExtractEndpointPorts (reOrder R w) es) b"
    and keys: "mset (slice_keys b) = mset_set (epIP ` set es)" and ne: "es \<noteq> []"
  shows "updateEndpointSlices R si es svc c s =
    each_slice ''failed to delete EndpointSlice'' (\<lambda>sl. on_world (kDeleteEndpointSlice (reClient R) sl)) [b] [0] s1"
proof -
  have p: "slice_plan_for svc si c es (loop_variable_pointers [a, b]) = slice_plan_for svc si c es [0, 0]"
    "loop_variable_cell [a, b] = [b]"
    by (simp_all add: loop_variable_pointers_def loop_variable_cell_def)
  show ?thesis
    using l aliased_plan [OF X b(1) b(2) [rule_format] keys ne]
    by (auto simp: updateEndpointSlices_def p apply_slice_changes_def bind_ok_def split: outcome_splits)
qed

text \<open>The calls that make up a successful reconcile of a cluster and of a service.\<close>

lemma reconcile_cluster_succeeds:
  assumes "eps = (case fmlookup m c of Some eps \<Rightarrow> eps | None \<Rightarrow> [])" and "ports = ExtractServicePorts (reOrder R (snd s)) eps"
    and "get_or_create (getDerivedService R (svcNamespace svc) (svcName svc) c)
      (createAndGetDerivedService R si c ports) s = (Ok d, s1)"
    and "updateDerivedService R d ports s1 = (Ok d', s2)" and "updateEndpointSlices R si eps d' c s2 = (Ok u, s3)"
  shows "reconcile_cluster R svc si m c s = (Ok d', s3)"
  using assms(3-5) unfolding reconcile_cluster_def Let_def assms(1,2) by (simp add: return_value_def)

lemma reconcileService_succeeds:
  assumes "ports = ExtractServicePorts (reOrder R (snd s)) (svcEndpoints svc)" and "m = endpoints_by_cluster (svcEndpoints svc)"
    and "cs = reOrder R (snd s) (fmdom m)"
    and "get_or_create (getServiceImport R (svcNamespace svc) (svcName svc)) (createAndGetServiceImport R svc ports cs) s
      = (Ok si, s1)"
    and "clusters_loop R svc si m cs s1 = (Ok ds, s2)"
    and "on_world (kListServices (reClient R) (omNamespace (siMeta si))
      (LabelDerivedServiceOriginatingName, omName (siMeta si))) s2 = (Ok existing, s3)"
    and "delete_stale R m existing s3 = (Ok u, s4)"
  shows "reconcileService R svc s = updateServiceImport R si ds ports s4"
  using assms(4-7) unfolding reconcileService_def Let_def assms(1-3) by simp

section \<open>An example world\<close>

text \<open>
  A world that keeps the laws: the namespaces, and the stored ServiceImports and Services as lists, the first with a key
  being the one that counts. Cloud Map has one service with endpoints in \<open>ns\<close>, and cannot be asked
  for the namespace \<open>bad\<close>.
\<close>

record import_world =
  iwNamespaces :: "string list"
  iwImports :: "service_import list"
  iwServices :: "k8s_service list"

definition first_with :: "('a \<Rightarrow> object_key) \<Rightarrow> object_key \<Rightarrow> 'a list \<Rightarrow> 'a option" where
  "first_with key k xs = find (\<lambda>x. key x = k) xs"

definition without :: "('a \<Rightarrow> object_key) \<Rightarrow> object_key \<Rightarrow> 'a list \<Rightarrow> 'a list" where
  "without key k xs = filter (\<lambda>x. key x \<noteq> k) xs"

definition listed_in :: "('a \<Rightarrow> object_key) \<Rightarrow> string \<Rightarrow> 'a list \<Rightarrow> 'a list" where
  "listed_in key n xs = filter (\<lambda>x. fst (key x) = n \<and> first_with key (key x) xs = Some x) xs"

lemma first_with_Cons [simp]:
  "first_with key k [] = None"
  "first_with key k (x # xs) = (if key x = k then Some x else first_with key k xs)"
  by (simp_all add: first_with_def)

lemma first_without [simp]:
  "first_with key k (without key k' xs) = (if k = k' then None else first_with key k xs)"
  by (induction xs) (auto simp: without_def)

lemma first_with_Some: "first_with key k xs = Some x \<Longrightarrow> key x = k \<and> x \<in> set xs"
  by (induction xs) (auto split: if_splits)

lemma in_listed: "x \<in> set (listed_in key n xs) \<longleftrightarrow> fst (key x) = n \<and> first_with key (key x) xs = Some x"
  by (auto simp: listed_in_def dest: first_with_Some)

lemma keys_listed: "key ` set (listed_in key n xs) = {k. fst k = n \<and> first_with key k xs \<noteq> None}"
proof -
  have "k \<in> key ` set (listed_in key n xs)" if "fst k = n" "first_with key k xs = Some x" for k x
    using first_with_Some [OF that(2)] that by (auto simp: in_listed intro!: image_eqI [of _ _ x])
  then show ?thesis by (auto simp: in_listed)
qed

definition world_observer :: "import_world import_observer" where
  "world_observer =
     \<lparr>ioImports = (\<lambda>w k. first_with key_of_import k (iwImports w)),
      ioServices = (\<lambda>w k. first_with key_of_service k (iwServices w))\<rparr>"

definition found :: "'a option \<Rightarrow> 'a outcome" where
  "found x = (case x of Some y \<Rightarrow> Ok y | None \<Rightarrow> Err (ErrApi True ''not found''))"

lemma found_iff [simp]:
  "found x = Ok y \<longleftrightarrow> x = Some y"
  "found x = Err e \<longleftrightarrow> x = None \<and> e = ErrApi True ''not found''"
  by (auto simp: found_def split: option.splits)

definition put_import :: "service_import \<Rightarrow> import_world \<Rightarrow> import_world" where
  "put_import si w = w\<lparr>iwImports := si # without key_of_import (key_of_import si) (iwImports w)\<rparr>"

definition put_service :: "k8s_service \<Rightarrow> import_world \<Rightarrow> import_world" where
  "put_service d w = w\<lparr>iwServices := d # without key_of_service (key_of_service d) (iwServices w)\<rparr>"

definition world_client :: "import_world k8s_ops" where
  "world_client =
     \<lparr>kGetServiceExport = (\<lambda>k w. (Err (ErrApi True ''no export''), w)),
      kGetService = (\<lambda>k w. (found (first_with key_of_service k (iwServices w)), w)),
      kGetServiceImport = (\<lambda>k w. (found (first_with key_of_import k (iwImports w)), w)),
      kListNamespaces = (\<lambda>w. (Ok (iwNamespaces w), w)),
      kListServiceExports = (\<lambda>w. (Ok [], w)),
      kListServiceImports = (\<lambda>n w. (Ok (listed_in key_of_import n (iwImports w)), w)),
      kListServices = (\<lambda>n l w. (Ok (filter (\<lambda>d. fmlookup (omLabels (svMeta d)) (fst l) = Some (snd l))
        (listed_in key_of_service n (iwServices w))), w)),
      kListEndpointSlices = (\<lambda>n l w. (Ok [], w)),
      kListClusterProperties = (\<lambda>w. (Ok [\<lparr>propName = ClusterIdPropertyName, propValue = ''c1''\<rparr>,
        \<lparr>propName = ClusterSetIdPropertyName, propValue = ''set1''\<rparr>], w)),
      kUpdateServiceExport = (\<lambda>ex w. (Err (ErrApi True ''no export''), w)),
      kUpdateService = (\<lambda>d w. (Ok d, put_service d w)),
      kUpdateServiceImport = (\<lambda>si w. (Ok si, put_import si w)),
      kUpdateEndpointSlice = (\<lambda>x w. (Ok x, w)),
      kCreateService = (\<lambda>d w. (Ok (), put_service d w)),
      kCreateServiceImport = (\<lambda>si w. (Ok (), put_import si w)),
      kCreateEndpointSlice = (\<lambda>x w. (Ok (), w)),
      kDeleteService = (\<lambda>d w. (Ok (), w\<lparr>iwServices := without key_of_service (key_of_service d) (iwServices w)\<rparr>)),
      kDeleteServiceImport =
        (\<lambda>si w. (Ok (), w\<lparr>iwImports := without key_of_import (key_of_import si) (iwImports w)\<rparr>)),
      kDeleteEndpointSlice = (\<lambda>x w. (Ok (), w)), kDeleteAllOfEndpointSlices = (\<lambda>n l w. (Ok (), w))\<rparr>"

definition world_service :: service where
  "world_service = \<lparr>svcNamespace = ''ns'', svcName = ''web'',
     svcEndpoints = [example_endpoint ''10.0.0.1'' ''c1'', example_endpoint ''10.0.0.2'' ''c1'']\<rparr>"

definition world_cloud_map :: "import_world sd_client_ops" where
  "world_cloud_map =
     \<lparr>sdListServices = (\<lambda>n w. (if n = ''bad'' then Err (ErrText ''throttled'')
        else Ok (if n = ''ns'' then [world_service] else []), w)),
      sdCreateService = (\<lambda>n m w. (Ok (), w)),
      sdGetService = (\<lambda>n m w. (Err (ErrText ''unused''), w)),
      sdRegisterEndpoints = (\<lambda>n m es w. (Ok (), w)),
      sdDeleteEndpoints = (\<lambda>n m es w. (Ok (), w))\<rparr>"

definition world_reconciler :: "import_world reconciler" where
  "world_reconciler =
     \<lparr>reClient = world_client, reCloudMap = world_cloud_map, reOrder = (\<lambda>w. sorted_order),
      reExt = example_ext, reBuild = \<lparr>GitVersion = ''v1.0'', GitCommit = ''abc'', PackageName = ''p''\<rparr>,
      reSetControllerReference = (\<lambda>svc ex. Ok ex)\<rparr>"

lemma world_object_laws: "object_laws world_client world_observer"
proof -
  have "quiet_laws world_client world_observer"
    by (simp add: quiet_laws_def quiet_def world_client_def)
  moreover have "import_read_laws world_client world_observer"
    unfolding import_read_laws_def world_client_def world_observer_def
    by (simp add: keys_listed first_with_Some del: split_paired_All)
      (auto simp: in_listed dest: first_with_Some split: if_splits)
  moreover have "import_write_laws world_client world_observer"
    by (auto simp: import_write_laws_def writes_import_def writes_service_def same_import_def same_service_def
        world_client_def world_observer_def put_import_def put_service_def)
  ultimately show ?thesis by (simp add: object_laws_def)
qed

lemma world_laws: "import_laws world_reconciler world_observer"
  using world_object_laws
  by (auto simp: import_laws_def listing_laws_def quiet_def world_reconciler_def world_cloud_map_def world_service_def
      split: if_splits)

lemma world_simps [simp]:
  "reClient world_reconciler = world_client" "reCloudMap world_reconciler = world_cloud_map"
  "reOrder world_reconciler w = sorted_order" "reExt world_reconciler = example_ext"
  by (simp_all add: world_reconciler_def)

lemma world_key [simp]: "svcNamespace world_service = ''ns''" "svcName world_service = ''web''"
  by (simp_all add: world_service_def)

lemma world_orders: "\<forall>w. is_range_order (reOrder world_reconciler w)"
  by (simp add: sorted_order_is_range_order)

lemma each_slice_Ok: "(\<And>sl s. f sl s = (Ok (), s)) \<Longrightarrow> each_slice message f h rs s = (Ok (), s)"
  by (induction rs) simp_all

lemma world_slices: "updateEndpointSlices world_reconciler si es svc c s = (Ok (), s)"
proof -
  have l: "on_world (kListEndpointSlices (reClient world_reconciler) (omNamespace (svMeta svc))
      (LabelServiceName, omName (svMeta svc))) s = (Ok [], s)"
    by (simp add: world_client_def on_world_def)
  have X: "diff_is_multiset_equality (reExt world_reconciler)" by (simp add: example_ext_diff)
  obtain ch h where "updateEndpointSlices world_reconciler si es svc c s = apply_slice_changes world_reconciler ch h s"
    and "mset (scUpdate ch @ scDelete ch @ scUnmodified ch) = mset [0..<length ([] :: slices)]"
    using single_slice_plan [OF X world_orders _ _ l, of si es c] by auto
  then show ?thesis
    by (simp add: apply_slice_changes_def bind_ok_def)
      (rule each_slice_Ok, simp add: world_client_def on_world_def)
qed

lemma world_clusters: "fmdom (endpoints_by_cluster (svcEndpoints world_service)) = {|''c1''|}"
  by (simp add: endpoints_by_cluster_def world_service_def example_endpoint_def)

definition old_import :: "string \<Rightarrow> service_import" where
  "old_import n = \<lparr>siMeta = zero_meta\<lparr>omNamespace := n, omName := ''old''\<rparr>, siApiVersion = '''', siKind = '''',
     siPorts = [], siIPs = [], siType = ClusterSetIPImport, siClusters = []\<rparr>"

definition world_state :: "string list \<Rightarrow> import_world reconciler_state" where
  "world_state nss = (\<lparr>cpClusterId = ''c1'', cpClusterSetId = ''set1''\<rparr>,
     \<lparr>iwNamespaces = nss, iwImports = [old_import ''ns'', old_import ''bad''], iwServices = []\<rparr>)"

lemma world_single_order: "sorted_order {|x|} = [x]"
  by (simp add: sorted_order_def)

lemma world_create_import:
  assumes "key_of_import si = k" and "first_with key_of_import k (iwImports (snd s)) = None"
    and "CreateServiceImportStruct world_service cs ports = Ok si" "k = (''ns'', ''web'')"
  shows "get_or_create (getServiceImport world_reconciler ''ns'' ''web'')
      (createAndGetServiceImport world_reconciler world_service ports cs) s
    = (Ok si, fst s, put_import si (snd s))"
  using assms
  by (simp add: get_or_create_def getServiceImport_def createAndGetServiceImport_def bind_ok_def on_world_def
      world_client_def found_def put_import_def world_service_def)

lemma world_create_derived:
  assumes "first_with key_of_service (''ns'', DerivedName ''ns'' ''web'' c) (iwServices (snd s)) = None"
    and "key_of_import si = (''ns'', ''web'')"
  shows "get_or_create (getDerivedService world_reconciler ''ns'' ''web'' c)
      (createAndGetDerivedService world_reconciler si c ports) s
    = (Ok (CreateDerivedServiceStruct example_ext si ports c),
       fst s, put_service (CreateDerivedServiceStruct example_ext si ports c) (snd s))"
  using assms derived_struct(1) [of example_ext si ports c]
  by (simp add: get_or_create_def getDerivedService_def createAndGetDerivedService_def bind_ok_def on_world_def
      world_client_def found_def put_service_def)

lemma set_put_service: "set (iwServices (put_service d w)) \<subseteq> insert d (set (iwServices w))"
  by (auto simp: put_service_def without_def)

lemma world_update_derived:
  obtains d' s' where "updateDerivedService world_reconciler d ports s = (Ok d', s')"
    and "source_cluster d' = source_cluster d"
    and "set (iwServices (snd s')) \<subseteq> insert d' (set (iwServices (snd s)))"
proof (cases "PortsEqualIgnoreOrder example_ext ports (map (ServicePortToPort example_ext) (svPorts d))")
  case True
  then have "updateDerivedService world_reconciler d ports s = (Ok d, s)"
    by (simp add: updateDerivedService_def return_value_def)
  then show ?thesis by (rule that) auto
next
  case False
  let ?d = "d\<lparr>svPorts := map (PortToServicePort example_ext) ports\<rparr>"
  have "updateDerivedService world_reconciler d ports s = (Ok ?d, fst s, put_service ?d (snd s))"
    using False by (simp add: updateDerivedService_def on_world_def world_client_def)
  then show ?thesis by (rule that) (use set_put_service in \<open>simp_all add: source_cluster_def\<close>)
qed

lemma world_cluster:
  assumes "iwServices (snd s) = []" and "key_of_import si = (''ns'', ''web'')"
  shows "\<exists>d s'. reconcile_cluster world_reconciler world_service si m c s = (Ok d, s')
    \<and> (\<forall>d \<in> set (iwServices (snd s')). source_cluster d = c)"
proof -
  let ?ports = "ExtractServicePorts sorted_order (case fmlookup m c of Some eps \<Rightarrow> eps | None \<Rightarrow> [])"
  let ?d = "CreateDerivedServiceStruct example_ext si ?ports c"
  let ?s1 = "(fst s, put_service ?d (snd s))"
  have c: "get_or_create (getDerivedService world_reconciler ''ns'' ''web'' c)
      (createAndGetDerivedService world_reconciler si c ?ports) s = (Ok ?d, ?s1)"
    using assms by (intro world_create_derived) simp_all
  obtain d s' where u: "updateDerivedService world_reconciler ?d ?ports ?s1 = (Ok d, s')"
    and d: "source_cluster d = source_cluster ?d" "set (iwServices (snd s')) \<subseteq> insert d (set (iwServices (snd ?s1)))"
    by (rule world_update_derived)
  have "reconcile_cluster world_reconciler world_service si m c s = (Ok d, s')"
    by (rule reconcile_cluster_succeeds [OF refl refl _ _ world_slices]) (use c u in simp_all)
  moreover have "set (iwServices (snd ?s1)) \<subseteq> {?d}" using set_put_service [of ?d "snd s"] assms(1) by simp
  moreover have "source_cluster ?d = c" by (rule derived_struct(2))
  ultimately have "\<forall>d \<in> set (iwServices (snd s')). source_cluster d = c" using d by auto
  then show ?thesis using \<open>reconcile_cluster _ _ _ _ _ _ = _\<close> by blast
qed

lemma world_stale:
  assumes "\<forall>d \<in> set ds. fmlookup m (source_cluster d) \<noteq> None"
  shows "delete_stale world_reconciler m ds s = (Ok (), s)"
  using assms by (induction ds) (auto simp: bind_ok_def return_value_def)

lemma world_update_import: "\<exists>s'. updateServiceImport world_reconciler si ds ports s = (Ok (), s')"
  by (simp add: updateServiceImport_def Let_def bind_ok_def return_value_def on_world_def world_client_def)

lemma world_reconciles:
  assumes "iwServices (snd s) = []" and "first_with key_of_import (''ns'', ''web'') (iwImports (snd s)) = None"
  shows "\<exists>s'. reconcileService world_reconciler world_service s = (Ok (), s')"
proof -
  let ?m = "endpoints_by_cluster (svcEndpoints world_service)"
  let ?ports = "ExtractServicePorts sorted_order (svcEndpoints world_service)"
  obtain si where si: "CreateServiceImportStruct world_service [''c1''] ?ports = Ok si" "key_of_import si = (''ns'', ''web'')"
    by (simp add: CreateServiceImportStruct_def world_service_def)
  obtain d s1 where d: "reconcile_cluster world_reconciler world_service si ?m ''c1'' (fst s, put_import si (snd s)) = (Ok d, s1)"
    and s1: "\<forall>d \<in> set (iwServices (snd s1)). source_cluster d = ''c1''"
    using world_cluster [of "(fst s, put_import si (snd s))" si ?m "''c1''"] assms(1) si(2)
    by (auto simp: put_import_def)
  have "''c1'' |\<in>| fmdom ?m" by (simp add: world_clusters)
  then have "fmlookup ?m ''c1'' \<noteq> None" by (auto dest: fmdom_notI)
  then have stale: "delete_stale world_reconciler ?m (filter P (listed_in key_of_service ''ns'' (iwServices (snd s1)))) s1
      = (Ok (), s1)" for P
    using s1 by (intro world_stale) (auto simp: listed_in_def)
  obtain s' where u: "updateServiceImport world_reconciler si [d] ?ports s1 = (Ok (), s')"
    using world_update_import by blast
  have l: "on_world (kListServices (reClient world_reconciler) (omNamespace (siMeta si))
      (LabelDerivedServiceOriginatingName, omName (siMeta si))) s1
    = (Ok (filter (\<lambda>d. fmlookup (omLabels (svMeta d)) LabelDerivedServiceOriginatingName = Some (omName (siMeta si)))
        (listed_in key_of_service ''ns'' (iwServices (snd s1)))), s1)"
    using si(2) by (simp add: on_world_def world_client_def)
  have "clusters_loop world_reconciler world_service si ?m [''c1''] (fst s, put_import si (snd s)) = (Ok [d], s1)"
    using d by (simp add: return_value_def)
  then have "reconcileService world_reconciler world_service s = updateServiceImport world_reconciler si [d] ?ports s1"
    using world_create_import [OF si(2) assms(2) si(1) refl]
    by (intro reconcileService_succeeds [OF _ refl _ _ _ l stale]) (simp_all add: world_clusters world_single_order del: clusters_loop.simps)
  then show ?thesis using u by metis
qed

lemma collect_errors_all_Ok:
  assumes "\<And>x s. \<exists>s'. f x s = (Ok u, s')"
  shows "\<exists>s'. collect_errors f xs err s = (Ok err, s')"
proof (induction xs arbitrary: s)
  case (Cons x xs)
  obtain s1 where "f x s = (Ok u, s1)" using assms by blast
  then show ?case using Cons by simp
qed simp

lemma world_lists: "sdListServices world_cloud_map ''ns'' w = (Ok [world_service], w)"
  by (simp add: world_cloud_map_def)

lemma world_namespace:
  assumes "iwServices (snd s) = []" and "first_with key_of_import (''ns'', ''web'') (iwImports (snd s)) = None"
  shows "\<exists>s'. reconcileNamespace world_reconciler ''ns'' s = (Ok (), s')"
proof -
  obtain s1 where s1: "reconcileService world_reconciler world_service s = (Ok (), s1)"
    using world_reconciles [OF assms] by blast
  have listed: "listed_services [world_service] = [world_service]"
    by (simp add: listed_services_def world_service_def)
  let ?delete = "\<lambda>i. on_world (kDeleteServiceImport world_client i)"
  have d: "\<exists>s'. ?delete i t = (Ok (), s')" for i t by (simp add: world_client_def on_world_def)
  obtain s' where "collect_errors ?delete (map_values sorted_order
      (fmdrop ''web'' (existing_imports (listed_in key_of_import ''ns'' (iwImports (snd s)))))) None s1 = (Ok None, s')"
    using collect_errors_all_Ok [of ?delete, OF d] by blast
  moreover have "on_world (sdListServices world_cloud_map ''ns'') s = (Ok [world_service], s)"
    by (simp add: on_world_def world_lists)
  moreover have "on_world (kListServiceImports world_client ''ns'') s
      = (Ok (listed_in key_of_import ''ns'' (iwImports (snd s))), s)"
    by (simp add: on_world_def world_client_def)
  ultimately show ?thesis
    using s1 by (simp add: reconcileNamespace_def Let_def listed error_result_def)
qed

lemma world_start: "iwServices (snd (world_state nss)) = []"
  "first_with key_of_import (''ns'', ''web'') (iwImports (snd (world_state nss))) = None"
  by (simp_all add: world_state_def old_import_def)

lemma world_wanted: "wanted_imports ''ns'' [world_service] = {(''ns'', ''web'')}"
  by (auto simp: wanted_imports_def world_service_def)

lemma world_bad:
  "reconcileNamespace world_reconciler ''bad'' s = (Err (ErrText ''throttled''), s)"
  by (simp add: reconcileNamespace_def on_world_def world_cloud_map_def)

lemma world_round:
  "\<exists>s'. ReconcileCloudMap world_reconciler (world_state [''ns'']) = (Ok (), s')"
proof -
  obtain s' where "reconcileNamespace world_reconciler ''ns'' (world_state [''ns'']) = (Ok (), s')"
    using world_namespace [OF world_start] by blast
  moreover have "reconciler_properties world_reconciler (world_state nss) = (Ok (fst (world_state nss)), world_state nss)" for nss
    by (simp add: reconciler_properties_def GetClusterProperties_def world_state_def props_IsValid_def)
  moreover have "on_world (kListNamespaces world_client) (world_state nss) = (Ok nss, world_state nss)" for nss
    by (simp add: on_world_def world_client_def world_state_def)
  ultimately show ?thesis by (simp add: ReconcileCloudMap_def error_result_def)
qed


section \<open>Properties\<close>

text \<open>
  C15: errors of the import controller: when the cluster properties and the namespaces can be read, and
  no panic ends it, a round reconciles every namespace in turn, each from the state the one before
  left, whether those before failed or not; it reports all their errors wrapped into one, and returns
  nil exactly when every namespace was reconciled without an error.
\<close>

theorem every_namespace_is_reconciled:
  assumes "reconciler_properties R s = (Ok cp, s1)" and "on_world (kListNamespaces (reClient R)) s1 = (Ok nss, s2)"
    and "Panic \<notin> set (outcomes (reconcileNamespace R) nss s2)"
  shows "ReconcileCloudMap R s =
      (error_result (wrap_all None (map err_of (outcomes (reconcileNamespace R) nss s2))),
       foldl (\<lambda>t n. snd (reconcileNamespace R n t)) s2 nss)
    \<and> length (outcomes (reconcileNamespace R) nss s2) = length nss
    \<and> (fst (ReconcileCloudMap R s) = Ok () \<longleftrightarrow> (\<forall>r \<in> set (outcomes (reconcileNamespace R) nss s2). is_ok r))"
  using round_of_namespaces [OF assms] err_of_outcomes [OF assms(3)]
  by (simp add: after_all_def wrap_all_eq_None)

text \<open>
  C10: the ServiceImports after a reconcile of a namespace, for every client that keeps its laws:
  other namespaces are untouched; when it returns nil, the namespace has ServiceImports for exactly
  the services that Cloud Map listed with endpoints; and whatever fails, an import of a service that
  Cloud Map lists with endpoints is not removed, nor is any import when Cloud Map cannot be asked.
\<close>

theorem imports_mirror_cloud_map:
  assumes "import_laws R V" and "\<forall>w. is_range_order (reOrder R w)"
    and "reconcileNamespace R n s = (r, s')"
  shows "(\<forall>k. fst k \<noteq> n \<longrightarrow> ioImports V (snd s') k = ioImports V (snd s) k)
    \<and> (\<forall>svcs. is_ok r \<longrightarrow> fst (sdListServices (reCloudMap R) n (snd s)) = Ok svcs \<longrightarrow>
        {k. fst k = n \<and> ioImports V (snd s') k \<noteq> None}
          = {(n, svcName svc) |svc. svc \<in> set svcs \<and> svcEndpoints svc \<noteq> []})
    \<and> (\<forall>k. ioImports V (snd s) k \<noteq> None
        \<longrightarrow> (\<forall>svcs. fst (sdListServices (reCloudMap R) n (snd s)) = Ok svcs \<longrightarrow>
              k \<in> {(n, svcName svc) |svc. svc \<in> set svcs \<and> svcEndpoints svc \<noteq> []})
        \<longrightarrow> ioImports V (snd s') k \<noteq> None)"
  using reconcileNamespace_imports(1,2) [OF assms] reconcileNamespace_imports(3) [OF assms]
  unfolding wanted_imports_def by blast

lemma imports_mirror_cloud_map_witness:
  "\<exists>s'. reconcileNamespace world_reconciler ''ns'' (world_state []) = (Ok (), s')
    \<and> {k. fst k = ''ns'' \<and> ioImports world_observer (snd s') k \<noteq> None} = {(''ns'', ''web'')}
    \<and> ioImports world_observer (snd s') (''bad'', ''old'') = Some (old_import ''bad'')
    \<and> ioImports world_observer (snd (world_state [])) (''ns'', ''old'') = Some (old_import ''ns'')"
proof -
  obtain s' where s': "reconcileNamespace world_reconciler ''ns'' (world_state []) = (Ok (), s')"
    using world_namespace [OF world_start] by blast
  note p = imports_mirror_cloud_map [OF world_laws world_orders s']
  have "fst (sdListServices (reCloudMap world_reconciler) ''ns'' (snd (world_state []))) = Ok [world_service]"
    by (simp add: world_lists)
  from p [THEN conjunct2, THEN conjunct1, rule_format, OF _ this]
  have "{k. fst k = ''ns'' \<and> ioImports world_observer (snd s') k \<noteq> None} = {(''ns'', ''web'')}"
    using world_wanted by (simp add: wanted_imports_def)
  moreover have "ioImports world_observer (snd s') (''bad'', ''old'')
      = ioImports world_observer (snd (world_state [])) (''bad'', ''old'')"
    using p [THEN conjunct1, rule_format, of "(''bad'', ''old'')"] by simp
  ultimately show ?thesis
    using s' by (simp add: world_observer_def world_state_def old_import_def zero_meta_def)
qed

text \<open>
  C23: convergence of a whole round: when it returns nil and the namespaces are listed without
  duplicates, each namespace has at the end ServiceImports for exactly the services with endpoints that
  Cloud Map listed when its turn came, and other namespaces have what they had.
\<close>

theorem round_mirrors_cloud_map:
  assumes "import_laws R V" and "\<forall>w. is_range_order (reOrder R w)"
    and "reconciler_properties R s = (Ok cp, s1)"
    and "on_world (kListNamespaces (reClient R)) s1 = (Ok nss, s2)" and "distinct nss"
    and "ReconcileCloudMap R s = (Ok (), s')"
  shows "(\<forall>before n after svcs. nss = before @ n # after
        \<longrightarrow> fst (sdListServices (reCloudMap R) n (snd (foldl (\<lambda>t m. snd (reconcileNamespace R m t)) s2 before))) = Ok svcs
        \<longrightarrow> {k. fst k = n \<and> ioImports V (snd s') k \<noteq> None}
              = {(n, svcName svc) |svc. svc \<in> set svcs \<and> svcEndpoints svc \<noteq> []})
    \<and> (\<forall>k. fst k \<notin> set nss \<longrightarrow> ioImports V (snd s') k = ioImports V (snd s2) k)"
  using round_mirrors [OF assms] after_other_namespaces [OF assms(1,2)] round_steps(2) [OF assms(3,4,6)]
  unfolding after_all_def wanted_imports_def by blast

lemma world_reads:
  "reconciler_properties world_reconciler (world_state nss) = (Ok (fst (world_state nss)), world_state nss)"
  "on_world (kListNamespaces (reClient world_reconciler)) (world_state nss) = (Ok nss, world_state nss)"
  by (simp_all add: reconciler_properties_def GetClusterProperties_def world_state_def props_IsValid_def
      on_world_def world_client_def)

lemma round_mirrors_cloud_map_witness:
  "\<exists>s'. ReconcileCloudMap world_reconciler (world_state [''ns'']) = (Ok (), s')
    \<and> {k. fst k = ''ns'' \<and> ioImports world_observer (snd s') k \<noteq> None} = {(''ns'', ''web'')}"
proof -
  obtain s' where s': "ReconcileCloudMap world_reconciler (world_state [''ns'']) = (Ok (), s')"
    using world_round by blast
  have "fst (sdListServices (reCloudMap world_reconciler) ''ns''
      (snd (foldl (\<lambda>t m. snd (reconcileNamespace world_reconciler m t)) (world_state [''ns'']) []))) = Ok [world_service]"
    by (simp add: world_lists)
  with round_mirrors_cloud_map [OF world_laws world_orders world_reads(1,2) _ s', THEN conjunct1, rule_format,
      of "[]" "''ns''" "[]" "[world_service]"]
  have "{k. fst k = ''ns'' \<and> ioImports world_observer (snd s') k \<noteq> None} = {(''ns'', ''web'')}"
    using world_wanted by (simp add: wanted_imports_def)
  with s' show ?thesis by blast
qed

lemma every_namespace_is_reconciled_witness:
  "\<exists>e s'. ReconcileCloudMap world_reconciler (world_state [''bad'', ''ns'']) = (Err e, s')
    \<and> outcomes (reconcileNamespace world_reconciler) [''bad'', ''ns''] (world_state [''bad'', ''ns''])
        = [Err (ErrText ''throttled''), Ok ()]"
proof -
  obtain s1 where "reconcileNamespace world_reconciler ''ns'' (world_state [''bad'', ''ns'']) = (Ok (), s1)"
    using world_namespace [OF world_start] by blast
  then have o: "outcomes (reconcileNamespace world_reconciler) [''bad'', ''ns''] (world_state [''bad'', ''ns''])
      = [Err (ErrText ''throttled''), Ok ()]"
    by (simp add: world_bad)
  then show ?thesis
    using every_namespace_is_reconciled [OF world_reads, of "[''bad'', ''ns'']"]
    by (simp add: error_result_def)
qed

text \<open>
  C9: the contract of the import controller for one service, for every client that keeps its laws:
  when reconcileService returns nil, the ServiceImport is there with one port for each protocol and port
  number of the service's endpoints and with the cluster IPs of its derived services; these are one for
  each cluster that has endpoints, each stored under its derived name with the ports of the endpoints of
  its own cluster; and no Service labelled as derived from this one is left for another cluster.
  The names derived for the clusters must differ, and a Service already under such a name must be
  labelled with that cluster.
\<close>

theorem reconciled_service_is_mirrored:
  assumes "import_laws R V" and "diff_is_multiset_equality (reExt R)" and "\<forall>w. is_range_order (reOrder R w)"
    and "inj_on (DerivedName (svcNamespace svc) (svcName svc)) (epClusterId ` set (svcEndpoints svc))"
    and "\<forall>c \<in> epClusterId ` set (svcEndpoints svc). \<forall>d.
      ioServices V (snd s) (derived_key svc c) = Some d \<longrightarrow> source_cluster d = c"
    and "reconcileService R svc s = (Ok (), s')"
  shows "\<exists>ds. mirrors_service (ioImports V (snd s')) (ioServices V (snd s')) svc ds"
  using assms by (rule reconcileService_Ok)

lemma reconciled_service_is_mirrored_witness:
  "\<exists>s' ds. reconcileService world_reconciler world_service (world_state []) = (Ok (), s')
    \<and> mirrors_service (ioImports world_observer (snd s')) (ioServices world_observer (snd s')) world_service ds
    \<and> mset (map source_cluster ds) = {#''c1''#}"
proof -
  obtain s' where s': "reconcileService world_reconciler world_service (world_state []) = (Ok (), s')"
    using world_reconciles [OF world_start] by blast
  have X: "diff_is_multiset_equality (reExt world_reconciler)" by (simp add: example_ext_diff)
  have cs: "epClusterId ` set (svcEndpoints world_service) = {''c1''}"
    by (simp add: world_service_def example_endpoint_def)
  have "\<exists>ds. mirrors_service (ioImports world_observer (snd s')) (ioServices world_observer (snd s')) world_service ds"
    by (rule reconciled_service_is_mirrored [OF world_laws X world_orders _ _ s', unfolded cs])
      (simp_all add: world_observer_def world_state_def)
  then show ?thesis using s' by (auto simp: mirrors_service_def cs)
qed


definition slices_reconciler :: "slices \<Rightarrow> import_world reconciler" where
  "slices_reconciler items =
     world_reconciler\<lparr>reClient := world_client\<lparr>kListEndpointSlices := (\<lambda>n l w. (Ok items, w))\<rparr>\<rparr>"

lemma slices_simps [simp]:
  "reOrder (slices_reconciler items) w = sorted_order" "reExt (slices_reconciler items) = example_ext"
  "on_world (kDeleteEndpointSlice (reClient (slices_reconciler items)) sl) s = (Ok (), s)"
  "on_world (kListEndpointSlices (reClient (slices_reconciler items)) n l) s = (Ok items, s)"
  by (simp_all add: slices_reconciler_def world_client_def on_world_def)

lemma example_well: "well_addressed sl" if "sl \<in> set example_slices"
  using that by (simp add: example_slices_def well_addressed_def CreateEndpointForSlice_def
      PortToEndpointPort_def EndpointPortToPort_def)


text \<open>
  C35: what taking the address of the loop variable does with two slices: although the second
  holds exactly the desired addresses and ports, the plan is made for two pointers to it, and the only
  thing updateEndpointSlices does is to delete it; the first slice, whatever addresses it has, is
  neither updated nor deleted.
\<close>

theorem two_slices_lose_the_last:
  assumes "diff_is_multiset_equality (reExt R)" and "\<forall>w. is_range_order (reOrder R w)"
    and "on_world (kListEndpointSlices (reClient R) (omNamespace (svMeta svc))
      (LabelServiceName, omName (svMeta svc))) s = (Ok [a, b], s1)"
    and "well_addressed b" and "\<forall>w. has_ports (reExt R) (ExtractEndpointPorts (reOrder R w) es) b"
    and "mset (slice_keys b) = mset_set (epIP ` set es)" and "es \<noteq> []"
  shows "updateEndpointSlices R si es svc c s =
    (case on_world (kDeleteEndpointSlice (reClient R) b) s1 of
       (Ok _, s2) \<Rightarrow> (Ok (), s2)
     | (Err e, s2) \<Rightarrow> (Err (ErrWrapped e ''failed to delete EndpointSlice''), s2)
     | (Panic, s2) \<Rightarrow> (Panic, s2))"
  using two_slices_delete_last [OF assms, of si c] by (simp split: outcome_splits)

lemma two_slices_lose_the_last_witness:
  "updateEndpointSlices (slices_reconciler [(hd example_slices)\<lparr>esEndpoints := []\<rparr>, hd example_slices]) (old_import ''ns'')
      [example_endpoint ''10.0.0.1'' ''c1''] example_svc ''c1'' (world_state []) = (Ok (), world_state [])
    \<and> slice_keys (hd example_slices) = [''10.0.0.1'']"
proof -
  let ?b = "hd example_slices"
  let ?items = "[?b\<lparr>esEndpoints := []\<rparr>, ?b]"
  let ?R = "slices_reconciler ?items"
  have k: "slice_keys ?b = [''10.0.0.1'']" using example_keys by (simp add: example_slices_def)
  have ports: "ExtractEndpointPorts sorted_order [example_endpoint ''10.0.0.1'' ''c1''] = [example_port ''http'' 80]"
    by (simp add: ExtractEndpointPorts_def example_endpoint_def map_values_def map_entries_def index_by_def sorted_order_def)
  have ip: "epIP (example_endpoint x y) = x" for x y by (simp add: example_endpoint_def)
  have "has_ports example_ext [example_port ''http'' 80] ?b"
    by (simp add: has_ports_def example_slices_def PortToEndpointPort_def EndpointPortToPort_def
        PortsEqual_iff [OF example_ext_diff] example_port_def)
  moreover have "well_addressed ?b" by (rule example_well) (simp add: example_slices_def)
  moreover have "diff_is_multiset_equality (reExt ?R)" by (simp add: example_ext_diff)
  moreover have "\<forall>w. is_range_order (reOrder ?R w)" by (simp add: sorted_order_is_range_order)
  ultimately show ?thesis
    using two_slices_lose_the_last [of ?R example_svc "world_state []" "?b\<lparr>esEndpoints := []\<rparr>" ?b "world_state []"
        "[example_endpoint ''10.0.0.1'' ''c1'']" "old_import ''ns''" "''c1''"] k ports ip
    by simp
qed

end
