(* ===== verification/ExportScenario.thy ===== *)
theory ExportScenario
  imports SdClient
begin

text \<open>
  \<open>integration/shared/scenarios/export_service.go\<close>: the integration test of a service export, which
  polls Cloud Map until the endpoints of the service are the expected ones.

  Comparing clears four fields of the endpoints it got, in place. That is idempotent, and every
  comparison does it before it looks, so it is a function of the endpoint here.
\<close>

section \<open>The scenario\<close>

record ('c, 'w) export_scenario =
  esSdClient :: "('c, 'w) client"
  esExpectedSvc :: service

text \<open>The error of \<open>strconv.ParseUint\<close>, for strings that \<open>strconv.Quote\<close> does not change.\<close>

definition parse_uint_error :: "string \<Rightarrow> num_error \<Rightarrow> goerror" where
  "parse_uint_error s e =
     ErrText (''strconv.ParseUint: parsing '' @ CHR 0x22 # s @ CHR 0x22 # '': '' @ num_error_text e)"

definition ParseUint16 :: "string \<Rightarrow> nat outcome" where
  "ParseUint16 s = (case parse_uint 16 s of Inr n \<Rightarrow> Ok n | Inl e \<Rightarrow> Err (parse_uint_error s e))"

text \<open>\<open>strings.Split(s, ",")\<close>\<close>

fun split_commas :: "string \<Rightarrow> string list" where
  "split_commas [] = [[]]"
| "split_commas (c # s) =
     (if c = CHR '','' then [] # split_commas s
      else (case split_commas s of [] \<Rightarrow> [[c]] | part # parts \<Rightarrow> (c # part) # parts))"

definition expected_endpoint ::
  "nat \<Rightarrow> nat \<Rightarrow> string \<Rightarrow> string \<Rightarrow> string \<Rightarrow> string \<Rightarrow> string \<Rightarrow> string \<Rightarrow> endpoint" where
  "expected_endpoint port servicePort portStr addressType clusterId clusterSetId serviceType ip =
     (let endpointPort = zero_port\<lparr>portPort := word_of_nat port, portProtocol := ''TCP''\<rparr> in
      \<lparr>epId = EndpointIdFromIPAddressAndPort ip endpointPort, epIP = ip, epAddressType = addressType,
       epEndpointPort = endpointPort,
       epServicePort = zero_port\<lparr>portPort := word_of_nat servicePort, portTargetPort := portStr,
         portProtocol := ''TCP''\<rparr>,
       epClusterId = clusterId, epClusterSetId = clusterSetId, epServiceType = serviceType,
       epServiceExportCreationTimestamp = 0, epReady = True, epHostname = '''', epNodename = '''',
       epAttributes = fmempty\<rparr>)"

text \<open>An argument of the scenario's command line.\<close>

type_synonym flag = string

definition NewExportServiceScenario ::
  "'c lru_ops \<Rightarrow> flag \<Rightarrow> flag \<Rightarrow> flag \<Rightarrow> flag \<Rightarrow> flag \<Rightarrow> flag \<Rightarrow> flag \<Rightarrow> flag \<Rightarrow> flag \<Rightarrow> 'w
    \<Rightarrow> ('c, 'w) export_scenario outcome" where
  "NewExportServiceScenario L ns svc clusterId clusterSetId portStr servicePortStr serviceType addressTypeStr ips w =
     (case ParseUint16 portStr of
        Err e \<Rightarrow> Err e | Panic \<Rightarrow> Panic
      | Ok port \<Rightarrow> (case ParseUint16 servicePortStr of
          Err e \<Rightarrow> Err e | Panic \<Rightarrow> Panic
        | Ok servicePort \<Rightarrow> (case GetAddressTypeFromString addressTypeStr of
            Err e \<Rightarrow> Err e | Panic \<Rightarrow> Panic
          | Ok addressType \<Rightarrow>
              Ok \<lparr>esSdClient = NewServiceDiscoveryClientWithCustomCache L
                    \<lparr>NsTTL = second, SvcTTL = second, EndptTTL = second\<rparr>
                    (NewClusterUtilsWithValues clusterId clusterSetId) w,
                  esExpectedSvc = \<lparr>svcNamespace = ns, svcName = svc,
                    svcEndpoints = map (expected_endpoint port servicePort portStr addressType clusterId
                      clusterSetId serviceType) (split_commas ips)\<rparr>\<rparr>)))"

section \<open>Comparing\<close>

definition comparable :: "endpoint \<Rightarrow> endpoint" where
  "comparable e = e\<lparr>epAttributes := fmdrop K8sVersionAttr (epAttributes e),
     epServiceExportCreationTimestamp := 0, epNodename := '''', epHostname := ''''\<rparr>"

definition compareEndpoints :: "service \<Rightarrow> endpoint list \<Rightarrow> bool" where
  "compareEndpoints expectedSvc cmEndpoints \<longleftrightarrow>
     length (svcEndpoints expectedSvc) = length cmEndpoints
     \<and> list_all (\<lambda>expected. list_ex (\<lambda>actual. endpoint_Equals expected (comparable actual)) cmEndpoints)
         (svcEndpoints expectedSvc)"

section \<open>Running\<close>

text \<open>
  \<open>wait.Poll\<close> with its condition: \<open>Ok True\<close> ends it, an error ends it, and after \<open>n\<close> calls it times out.
\<close>

fun poll_until :: "nat \<Rightarrow> ('s \<Rightarrow> bool outcome \<times> 's) \<Rightarrow> 's \<Rightarrow> unit outcome \<times> 's" where
  "poll_until 0 condition s = (Err (ErrText ''timed out waiting for the condition''), s)"
| "poll_until (Suc n) condition s =
     (case condition s of
        (Ok True, s') \<Rightarrow> (Ok (), s')
      | (Ok False, s') \<Rightarrow> poll_until n condition s'
      | (Err e, s') \<Rightarrow> (Err e, s')
      | (Panic, s') \<Rightarrow> (Panic, s'))"

definition scenario_condition :: "'w client_env \<Rightarrow> service \<Rightarrow> ('c, 'w) client \<Rightarrow> bool outcome \<times> ('c, 'w) client" where
  "scenario_condition E expectedSvc s =
     (case GetService E (svcNamespace expectedSvc) (svcName expectedSvc) s of
        (Err e, s') \<Rightarrow> (if IsUnknown (Some e) then (Err e, s') else (Ok False, s'))
      | (Panic, s') \<Rightarrow> (Panic, s')
      | (Ok cmSvc, s') \<Rightarrow> (Ok (compareEndpoints expectedSvc (svcEndpoints cmSvc)), s'))"

definition RunScenario :: "'w client_env \<Rightarrow> nat \<Rightarrow> ('c, 'w) export_scenario \<Rightarrow> unit outcome \<times> ('c, 'w) client" where
  "RunScenario E polls x = poll_until polls (scenario_condition E (esExpectedSvc x)) (esSdClient x)"

text \<open>
  The command: \<open>args\<close> are the arguments with the program's name first; \<open>clientOf\<close> makes the client's environment of
  the AWS configuration. Where the code prints an error and ends the process with \<open>os.Exit(1)\<close>, the
  model returns the error.
\<close>

definition testServiceExport ::
  "('w \<Rightarrow> 'cfg outcome \<times> 'w) \<Rightarrow> ('cfg \<Rightarrow> 'w client_env) \<Rightarrow> nat \<Rightarrow> 'c lru_ops \<Rightarrow> flag list \<Rightarrow> 'w \<Rightarrow> unit outcome \<times> 'w" where
  "testServiceExport getAwsConfig clientOf polls L flags =
     bind_ok getAwsConfig (\<lambda>cfg w.
       case NewExportServiceScenario L (flags ! 0) (flags ! 1) (flags ! 2) (flags ! 3) (flags ! 4) (flags ! 5)
              (flags ! 6) (flags ! 7) (flags ! 8) w of
         Err e \<Rightarrow> (Err e, w)
       | Panic \<Rightarrow> (Panic, w)
       | Ok export \<Rightarrow> (case RunScenario (clientOf cfg) polls export of (r, s) \<Rightarrow> (r, clWorld s)))"

definition scenario_main ::
  "('w \<Rightarrow> 'cfg outcome \<times> 'w) \<Rightarrow> ('cfg \<Rightarrow> 'w client_env) \<Rightarrow> nat \<Rightarrow> 'c lru_ops \<Rightarrow> string list \<Rightarrow> 'w \<Rightarrow> unit outcome \<times> 'w" where
  "scenario_main getAwsConfig clientOf polls L args =
     (if length args \<noteq> 10 then fail_with (ErrText ''Expected namespace, service, clusterId, clusterSetId, endpoint port, ...'')
      else testServiceExport getAwsConfig clientOf polls L (tl args))"

section \<open>What a passed scenario has seen\<close>

lemma comparable_idem [simp]: "comparable (comparable e) = comparable e"
  by (simp add: comparable_def)

lemma compareEndpoints_iff:
  "compareEndpoints svc es \<longleftrightarrow>
     length (svcEndpoints svc) = length es \<and> set (svcEndpoints svc) \<subseteq> comparable ` set es"
  by (auto simp: compareEndpoints_def endpoint_Equals_def list_all_iff list_ex_iff)

text \<open>With pairwise different expected endpoints, the endpoints are the expected ones and no others.\<close>

lemma compareEndpoints_exact:
  assumes "distinct (svcEndpoints svc)"
  shows "compareEndpoints svc es \<longleftrightarrow> mset (svcEndpoints svc) = mset (map comparable es)"
proof
  let ?xs = "svcEndpoints svc" and ?ys = "map comparable es"
  assume "compareEndpoints svc es"
  then have sub: "set ?xs \<subseteq> set ?ys" and l: "length ?xs = length ?ys"
    by (auto simp: compareEndpoints_iff)
  have "card (set ?ys) \<le> card (set ?xs)" using l assms card_length [of ?ys] by (simp add: distinct_card)
  then have eq: "set ?xs = set ?ys" using sub by (intro card_seteq) simp_all
  then have "distinct ?ys" using l assms by (metis card_distinct distinct_card)
  then show "mset ?xs = mset ?ys" using eq assms set_eq_iff_mset_eq_distinct by blast
next
  assume m: "mset (svcEndpoints svc) = mset (map comparable es)"
  have "length (svcEndpoints svc) = length es" using arg_cong [OF m, of size] by simp
  moreover have "set (svcEndpoints svc) = comparable ` set es" using arg_cong [OF m, of set_mset] by simp
  ultimately show "compareEndpoints svc es" by (simp add: compareEndpoints_iff)
qed

lemma poll_until_Ok:
  assumes "poll_until n condition s = (Ok (), s')"
  shows "\<exists>t. condition t = (Ok True, s')"
  using assms by (induction n arbitrary: s) (auto split: prod.splits outcome.splits bool.splits)

lemma passed_scenario:
  assumes "RunScenario E polls x = (Ok (), s')"
  shows "\<exists>t cmSvc. GetService E (svcNamespace (esExpectedSvc x)) (svcName (esExpectedSvc x)) t = (Ok cmSvc, s')
    \<and> compareEndpoints (esExpectedSvc x) (svcEndpoints cmSvc)"
proof -
  let ?e = "esExpectedSvc x"
  obtain t where t: "scenario_condition E ?e t = (Ok True, s')"
    using poll_until_Ok [OF assms [unfolded RunScenario_def]] by blast
  obtain r t' where g: "GetService E (svcNamespace ?e) (svcName ?e) t = (r, t')" by (rule prod.exhaust)
  with t show ?thesis by (cases r) (auto simp: scenario_condition_def split: if_splits)
qed


lemma scenario_main_Ok:
  fixes L :: "'c lru_ops" and w :: 'w
  assumes "scenario_main getAwsConfig clientOf polls L args w = (Ok (), w')"
  obtains cfg w1 x cmSvc and t s :: "('c, 'w) client" where "length args = 10" and "getAwsConfig w = (Ok cfg, w1)"
    and "NewExportServiceScenario L (args ! 1) (args ! 2) (args ! 3) (args ! 4) (args ! 5) (args ! 6)
      (args ! 7) (args ! 8) (args ! 9) w1 = Ok x"
    and "GetService (clientOf cfg) (args ! 1) (args ! 2) t = (Ok cmSvc, s)" and "clWorld s = w'"
    and "compareEndpoints (esExpectedSvc x) (svcEndpoints cmSvc)"
proof -
  have len: "length args = 10" using assms by (auto simp: scenario_main_def split: if_splits)
  then have flags: "tl args ! i = args ! Suc i" if "i < 9" for i using that by (simp add: nth_tl)
  obtain cfg w1 where c: "getAwsConfig w = (Ok cfg, w1)"
    and r: "(case NewExportServiceScenario L (args ! 1) (args ! 2) (args ! 3) (args ! 4) (args ! 5) (args ! 6)
        (args ! 7) (args ! 8) (args ! 9) w1 of
         Err e \<Rightarrow> (Err e, w1) | Panic \<Rightarrow> (Panic, w1)
       | Ok export \<Rightarrow> (case RunScenario (clientOf cfg) polls export of (r, s) \<Rightarrow> (r, clWorld s))) = (Ok (), w')"
    using assms len by (auto simp: scenario_main_def testServiceExport_def bind_ok_eq_Ok flags eval_nat_numeral)
  then obtain x s where x: "NewExportServiceScenario L (args ! 1) (args ! 2) (args ! 3) (args ! 4) (args ! 5) (args ! 6)
        (args ! 7) (args ! 8) (args ! 9) w1 = Ok x"
    and s: "RunScenario (clientOf cfg) polls x = (Ok (), s)" "clWorld s = w'"
    by (auto split: outcome.splits prod.splits)
  have "svcNamespace (esExpectedSvc x) = args ! 1" "svcName (esExpectedSvc x) = args ! 2"
    using x by (auto simp: NewExportServiceScenario_def split: outcome.splits)
  with passed_scenario [OF s(1)] that [OF len c x _ s(2)] show thesis by auto
qed

end
