(* ===== verification/Janitor.thy ===== *)
theory Janitor
  imports SdClient
begin

text \<open>
  \<open>integration/janitor\<close>: the tool that removes what the integration tests left in a Cloud Map
  namespace. Its API is that of \<open>SdApi\<close> and two calls that are not rate limited. Where the code ends
  the process with \<open>os.Exit(1)\<close> after printing an error, the model returns the error.
\<close>

section \<open>The API of the janitor\<close>

record 'w sdk_janitor_facade =
  jfDeleteNamespace :: "string \<Rightarrow> 'w \<Rightarrow> string option outcome \<times> 'w"
  jfDeleteService :: "string \<Rightarrow> 'w \<Rightarrow> unit outcome \<times> 'w"

definition api_DeleteNamespace :: "'w sdk_janitor_facade \<Rightarrow> string \<Rightarrow> 'w \<Rightarrow> string outcome \<times> 'w" where
  "api_DeleteNamespace F nsid = bind_ok (jfDeleteNamespace F nsid) id_result"

definition api_DeleteService :: "'w sdk_janitor_facade \<Rightarrow> string \<Rightarrow> 'w \<Rightarrow> unit outcome \<times> 'w" where
  "api_DeleteService F svcId = jfDeleteService F svcId"

section \<open>Cleaning up\<close>

text \<open>
  The environment gives the API, the iteration order of maps, the schedule of the goroutines and
  the number of polls, as for the client.
\<close>

record 'w cloud_map_janitor =
  jaClusterId :: string
  jaClusterSetId :: string
  jaEnv :: "'w client_env"
  jaFacade :: "'w sdk_janitor_facade"

definition deregisterInstances ::
  "'w cloud_map_janitor \<Rightarrow> string \<Rightarrow> string \<Rightarrow> string \<Rightarrow> 'w \<Rightarrow> unit outcome \<times> 'w" where
  "deregisterInstances J ns svc svcId =
     (let A = ceApi (jaEnv J) in
      bind_ok (api_DiscoverInstances A ns svc (Some (fmupd ClusterSetIdAttr (jaClusterSetId J) fmempty))) (\<lambda>insts w.
        SubmitAndAwait
          (poller_of (jaEnv J) (map (\<lambda>inst. api_DeregisterInstance A svcId (aws_ToString (instInstanceId inst))) insts) w)
          (ceSchedule (jaEnv J) w) w))"

fun clean_services ::
  "'w cloud_map_janitor \<Rightarrow> string \<Rightarrow> (string \<times> string) list \<Rightarrow> 'w \<Rightarrow> unit outcome \<times> 'w" where
  "clean_services J ns [] = return_value ()"
| "clean_services J ns ((svc, svcId) # rest) =
     bind_ok (deregisterInstances J ns svc svcId) (\<lambda>_.
       bind_ok (api_DeleteService (jaFacade J) svcId) (\<lambda>_. clean_services J ns rest))"

definition Cleanup :: "'w cloud_map_janitor \<Rightarrow> string \<Rightarrow> 'w \<Rightarrow> unit outcome \<times> 'w" where
  "Cleanup J ns =
     bind_ok (api_GetNamespaceMap (ceApi (jaEnv J))) (\<lambda>nsMap.
       case fmlookup nsMap ns of
         None \<Rightarrow> return_value ()
       | Some namespace \<Rightarrow>
           bind_ok (api_GetServiceIdMap (ceApi (jaEnv J)) (nsId namespace)) (\<lambda>svcIdMap.
             bind_ok (\<lambda>w. clean_services J ns (map_entries (ceOrder (jaEnv J) w) svcIdMap) w) (\<lambda>_.
               bind_ok (api_DeleteNamespace (jaFacade J) (nsId namespace)) (\<lambda>opId w.
                 bind_ok (Poll (api_GetOperation (ceApi (jaEnv J))) (cePolls (jaEnv J) w 0) opId) (\<lambda>_.
                   return_value ()) w))))"

text \<open>
  The command: \<open>args\<close> are the arguments with the program's name first. Loading the AWS configuration is a
  parameter, and so are the clients made of it.
\<close>

definition NewDefaultJanitor ::
  "('w \<Rightarrow> 'cfg outcome \<times> 'w) \<Rightarrow> ('cfg \<Rightarrow> 'w client_env \<times> 'w sdk_janitor_facade) \<Rightarrow> string \<Rightarrow> string \<Rightarrow> 'w
    \<Rightarrow> 'w cloud_map_janitor outcome \<times> 'w" where
  "NewDefaultJanitor loadDefaultConfig clients clusterId clusterSetId =
     bind_ok loadDefaultConfig (\<lambda>awsCfg.
       return_value \<lparr>jaClusterId = clusterId, jaClusterSetId = clusterSetId,
         jaEnv = fst (clients awsCfg), jaFacade = snd (clients awsCfg)\<rparr>)"

definition janitor_main ::
  "('w \<Rightarrow> 'cfg outcome \<times> 'w) \<Rightarrow> ('cfg \<Rightarrow> 'w client_env \<times> 'w sdk_janitor_facade) \<Rightarrow> string list \<Rightarrow> 'w
    \<Rightarrow> unit outcome \<times> 'w" where
  "janitor_main loadDefaultConfig clients args =
     (if length args \<noteq> 4 then fail_with (ErrText ''Expected namespace name, clusterId, clusterSetId arguments'')
      else bind_ok (NewDefaultJanitor loadDefaultConfig clients (args ! 2) (args ! 3)) (\<lambda>j. Cleanup j (args ! 1)))"

section \<open>What a finished clean-up has done\<close>

text \<open>
  \<open>gone svcId w\<close>: the service is deleted. Deleting it makes it gone, and no call of the janitor brings
  a service back.
\<close>

definition janitor_contract :: "'w cloud_map_janitor \<Rightarrow> (string \<Rightarrow> 'w \<Rightarrow> bool) \<Rightarrow> bool" where
  "janitor_contract J gone \<longleftrightarrow>
     (\<forall>i w w'. jfDeleteService (jaFacade J) i w = (Ok (), w') \<longrightarrow> gone i w')
     \<and> (\<forall>i j. keeps (gone i) (jfDeleteService (jaFacade J) j))
     \<and> (\<forall>i j. keeps (gone i) (jfDeleteNamespace (jaFacade J) j))
     \<and> (\<forall>i n s q. keeps (gone i) (api_DiscoverInstances (ceApi (jaEnv J)) n s q))
     \<and> (\<forall>i j k. keeps (gone i) (api_DeregisterInstance (ceApi (jaEnv J)) j k))
     \<and> (\<forall>i opId. keeps (gone i) (poll_condition (api_GetOperation (ceApi (jaEnv J))) opId))
     \<and> (\<forall>j k w. fst (api_DeregisterInstance (ceApi (jaEnv J)) j k w) \<noteq> Panic)
     \<and> (\<forall>opId w. fst (poll_condition (api_GetOperation (ceApi (jaEnv J))) opId w) \<noteq> Panic)"

lemma keeps_deregisterInstances:
  assumes "janitor_contract J gone"
  shows "keeps (gone i) (deregisterInstances J ns svc svcId)"
  unfolding deregisterInstances_def Let_def
proof (rule keeps_bind)
  let ?A = "ceApi (jaEnv J)"
  show "keeps (gone i) (api_DiscoverInstances ?A ns svc (Some (fmupd ClusterSetIdAttr (jaClusterSetId J) fmempty)))"
    using assms by (simp add: janitor_contract_def)
  show "keeps (gone i) (\<lambda>w. SubmitAndAwait
      (poller_of (jaEnv J) (map (\<lambda>inst. api_DeregisterInstance ?A svcId (aws_ToString (instInstanceId inst))) insts) w)
      (ceSchedule (jaEnv J) w) w)" for insts
  proof (rule keepsI)
    fix w r w'
  let ?E = "poller_of (jaEnv J) (map (\<lambda>inst. api_DeregisterInstance ?A svcId (aws_ToString (instInstanceId inst))) insts) w"
  assume "gone i w" and "SubmitAndAwait ?E (ceSchedule (jaEnv J) w) w = (r, w')"
  moreover have "keeps (gone i) (SubmitAndAwait ?E (ceSchedule (jaEnv J) w))"
    using assms by (intro keeps_SubmitAndAwait)
      (auto simp: poller_of_def janitor_contract_def api_never_panics_def)
  ultimately show "gone i w'" by (auto dest: keepsD)
  qed
qed

lemma clean_services_deletes:
  assumes "janitor_contract J gone" and "clean_services J ns entries w = (Ok (), w')"
  shows "\<forall>(svc, i) \<in> set entries. gone i w'"
proof -
  have c: "gone i w'" if "clean_services J ns es w = (Ok (), w')" "gone i w" for i es w
    using that
  proof (induction es arbitrary: w)
    case (Cons e es)
    obtain svc j where e: "e = (svc, j)" by (rule prod.exhaust)
    obtain w1 w2 where 1: "deregisterInstances J ns svc j w = (Ok (), w1)"
      and 2: "api_DeleteService (jaFacade J) j w1 = (Ok (), w2)" and 3: "clean_services J ns es w2 = (Ok (), w')"
      using Cons.prems(1) by (auto simp: e bind_ok_eq_Ok)
    have "gone i w1" using keepsD [OF keeps_deregisterInstances [OF assms(1)] Cons.prems(2) 1] .
    moreover have "keeps (gone i) (jfDeleteService (jaFacade J) j)"
      using assms(1) by (simp add: janitor_contract_def)
    ultimately have "gone i w2" using 2 by (auto simp: api_DeleteService_def dest: keepsD)
    with 3 show ?case by (rule Cons.IH)
  qed (simp add: return_value_def)
  show ?thesis
    using assms(2)
  proof (induction entries arbitrary: w)
    case (Cons e es)
    obtain svc j where e: "e = (svc, j)" by (rule prod.exhaust)
    obtain w1 w2 where 2: "api_DeleteService (jaFacade J) j w1 = (Ok (), w2)"
      and 3: "clean_services J ns es w2 = (Ok (), w')"
      using Cons.prems by (auto simp: e bind_ok_eq_Ok)
    have "gone j w2" using 2 assms(1) by (simp add: api_DeleteService_def janitor_contract_def)
    then have "gone j w'" by (rule c [OF 3])
    with Cons.IH [OF 3] show ?case by (simp add: e)
  qed simp
qed


lemma keeps_Poll:
  assumes "keeps I (poll_condition getOperation opId)"
  shows "keeps I (Poll getOperation n opId)"
proof (induction n)
  case (Suc n)
  with assms show ?case
    by (auto simp: keeps_def split: prod.splits outcome.splits option.splits)
qed (simp add: keeps_def)

lemma Cleanup_deletes:
  assumes con: "janitor_contract J gone" and run: "Cleanup J ns w = (Ok (), w')"
    and nm: "api_GetNamespaceMap (ceApi (jaEnv J)) w = (Ok nsMap, w1)" "fmlookup nsMap ns = Some N"
    and ids: "api_GetServiceIdMap (ceApi (jaEnv J)) (nsId N) w1 = (Ok svcIdMap, w2)"
    and ord: "\<forall>v. is_range_order (ceOrder (jaEnv J) v)" and svc: "fmlookup svcIdMap svc = Some i"
  shows "gone i w'"
proof -
  let ?A = "ceApi (jaEnv J)"
  obtain w3 opId w4 op where clean: "clean_services J ns (map_entries (ceOrder (jaEnv J) w2) svcIdMap) w2 = (Ok (), w3)"
    and del: "api_DeleteNamespace (jaFacade J) (nsId N) w3 = (Ok opId, w4)"
    and poll: "Poll (api_GetOperation ?A) (cePolls (jaEnv J) w4 0) opId w4 = (Ok op, w')"
    using run nm ids by (auto simp: Cleanup_def bind_ok_eq_Ok return_value_def)
  have "(svc, i) \<in> set (map_entries (ceOrder (jaEnv J) w2) svcIdMap)"
    using ord svc by (simp add: set_map_entries)
  then have "gone i w3" using clean_services_deletes [OF con clean] by blast
  moreover have "keeps (gone i) (api_DeleteNamespace (jaFacade J) (nsId N))"
    using con unfolding api_DeleteNamespace_def
    by (intro keeps_bind) (auto simp: janitor_contract_def id_result_def keeps_def)
  moreover have "keeps (gone i) (Poll (api_GetOperation ?A) n opId)" for n
    using con by (intro keeps_Poll) (simp add: janitor_contract_def)
  ultimately show ?thesis using del poll by (blast dest: keepsD)
qed

end
