(* ===== verification/CloudContract.thy ===== *)
theory CloudContract
  imports SdClient ModelPlan K8sTypes
begin

text \<open>
  What the Cloud Map client promises to the controllers, proved of the model of \<open>client.go\<close> from what
  Cloud Map promises to the client. The cache may be stale, but it is never wrong about the endpoints of
  this cluster: they are only written through this client, which evicts what it changes. That is the
  invariant \<open>coherent\<close> of a client; every operation keeps it.
\<close>

section \<open>Triples\<close>

text \<open>
  \<open>triple P f Q R\<close>: from a state with \<open>P\<close>, the call \<open>f\<close> ends with \<open>Q\<close> of its value and state, or with \<open>R\<close> of
  its error (\<open>None\<close> for a panic) and state.
\<close>

definition triple ::
  "('s \<Rightarrow> bool) \<Rightarrow> ('s \<Rightarrow> 'a outcome \<times> 's) \<Rightarrow> ('a \<Rightarrow> 's \<Rightarrow> bool) \<Rightarrow> (goerror option \<Rightarrow> 's \<Rightarrow> bool) \<Rightarrow> bool" where
  "triple P f Q R \<longleftrightarrow> (\<forall>s. P s \<longrightarrow>
     (case f s of (Ok x, s') \<Rightarrow> Q x s' | (Err e, s') \<Rightarrow> R (Some e) s' | (Panic, s') \<Rightarrow> R None s'))"

named_theorems triple_rules \<open>triples of composed calls\<close>

lemma tripleI:
  assumes "\<And>s r s'. \<lbrakk>P s; f s = (r, s')\<rbrakk> \<Longrightarrow> (case r of Ok x \<Rightarrow> Q x s' | Err e \<Rightarrow> R (Some e) s' | Panic \<Rightarrow> R None s')"
  shows "triple P f Q R"
  unfolding triple_def
proof (intro allI impI)
  fix s
  assume "P s"
  obtain r s' where "f s = (r, s')" by fastforce
  with assms [OF \<open>P s\<close> this]
  show "case f s of (Ok x, s') \<Rightarrow> Q x s' | (Err e, s') \<Rightarrow> R (Some e) s' | (Panic, s') \<Rightarrow> R None s'"
    by (cases r) simp_all
qed

lemma tripleD:
  assumes "triple P f Q R" and "P s" and "f s = (r, s')"
  shows "r = Ok x \<Longrightarrow> Q x s'" and "r = Err e \<Longrightarrow> R (Some e) s'" and "r = Panic \<Longrightarrow> R None s'"
  using assms by (auto simp: triple_def)

lemma triple_bind [triple_rules]:
  assumes "triple P f Q R" and "\<And>x. triple (Q x) (g x) Q' R"
  shows "triple P (bind_ok f g) Q' R"
proof (rule tripleI)
  fix s r s'
  assume "P s" and b: "bind_ok f g s = (r, s')"
  obtain r1 s1 where f: "f s = (r1, s1)" by fastforce
  note d = tripleD [OF assms(1) \<open>P s\<close> f]
  show "case r of Ok x \<Rightarrow> Q' x s' | Err e \<Rightarrow> R (Some e) s' | Panic \<Rightarrow> R None s'"
  proof (cases r1)
    case (Ok x)
    note d' = tripleD [OF assms(2) d(1) [OF Ok], of r s']
    show ?thesis using b f Ok d' by (cases r) simp_all
  qed (use b f d in \<open>auto simp: bind_ok_def\<close>)
qed

lemma triple_return [triple_rules]:
  "(\<And>s. P s \<Longrightarrow> Q v s) \<Longrightarrow> triple P (return_value v) Q R"
  "(\<And>s. P s \<Longrightarrow> R (Some e) s) \<Longrightarrow> triple P (fail_with e) Q R"
  by (simp_all add: triple_def)

lemma triple_conseq:
  assumes "triple P f Q R" and "\<And>s. P' s \<Longrightarrow> P s" and "\<And>x s. Q x s \<Longrightarrow> Q' x s" and "\<And>e s. R e s \<Longrightarrow> R' e s"
  shows "triple P' f Q' R'"
proof (rule tripleI)
  fix s r s'
  assume "P' s" and f: "f s = (r, s')"
  note d = tripleD [OF assms(1) assms(2) [OF \<open>P' s\<close>] f]
  show "case r of Ok x \<Rightarrow> Q' x s' | Err e \<Rightarrow> R' (Some e) s' | Panic \<Rightarrow> R' None s'"
    using d assms(3,4) by (cases r) simp_all
qed

lemma triple_option [triple_rules]:
  assumes "v = None \<Longrightarrow> triple P f Q R" and "\<And>x. v = Some x \<Longrightarrow> triple P (g x) Q R"
  shows "triple P (case v of None \<Rightarrow> f | Some x \<Rightarrow> g x) Q R"
  using assms by (cases v) simp_all

lemma triple_if [triple_rules]:
  "\<lbrakk>b \<Longrightarrow> triple P f Q R; \<not> b \<Longrightarrow> triple P g Q R\<rbrakk> \<Longrightarrow> triple P (if b then f else g) Q R"
  by simp

lemma triple_fact: "(b \<Longrightarrow> triple P f Q R) \<Longrightarrow> triple (\<lambda>s. P s \<and> b) f Q R"
  by (simp add: triple_def)

text \<open>Reading through the cache.\<close>

lemma triple_cached:
  assumes "triple P f (\<lambda>found s. case found of Some v \<Rightarrow> Q v s | None \<Rightarrow> P' s) R"
    and "\<And>v. triple (Q v) (hit v) Q' R" and "triple P' rest Q' R"
  shows "triple P (bind_ok f (\<lambda>found. case found of None \<Rightarrow> rest | Some v \<Rightarrow> hit v)) Q' R"
  by (rule triple_bind [OF assms(1)]) (auto intro: assms(2,3) split: option.splits)

lemma triple_in_world:
  assumes "\<And>s r w. \<lbrakk>P s; f (clWorld s) = (r, w)\<rbrakk> \<Longrightarrow>
    (case r of Ok x \<Rightarrow> Q x (s\<lparr>clWorld := w\<rparr>) | Err e \<Rightarrow> R (Some e) (s\<lparr>clWorld := w\<rparr>) | Panic \<Rightarrow> R None (s\<lparr>clWorld := w\<rparr>))"
  shows "triple P (in_world f) Q R"
proof (rule tripleI)
  fix s r s'
  assume "P s" and f: "in_world f s = (r, s')"
  then obtain w where "f (clWorld s) = (r, w)" "s' = s\<lparr>clWorld := w\<rparr>"
    by (auto simp: in_world_def split: prod.splits)
  with assms [OF \<open>P s\<close> this(1)]
  show "case r of Ok x \<Rightarrow> Q x s' | Err e \<Rightarrow> R (Some e) s' | Panic \<Rightarrow> R None s'" by (cases r) simp_all
qed


section \<open>What Cloud Map promises\<close>

text \<open>
  What can be seen of the world outside: the instances registered for each service, by instance id; the
  ids of services and of namespaces; the ServiceExports of the API server. \<open>coAccepted opId svcId i v\<close>:
  operation \<open>opId\<close> gives instance \<open>i\<close> the attributes \<open>v\<close>, or removes it, and none later does otherwise.
\<close>

record 'w cloud_observer =
  coInstances :: "'w \<Rightarrow> string \<times> string \<Rightarrow> (string, attrs) fmap"
  coServiceId :: "'w \<Rightarrow> string \<times> string \<Rightarrow> string option"
  coNamespaceId :: "'w \<Rightarrow> string \<Rightarrow> string option"
  coExports :: "'w \<Rightarrow> string \<times> string \<Rightarrow> service_export option"
  coAccepted :: "string \<Rightarrow> string \<Rightarrow> string \<Rightarrow> attrs option \<Rightarrow> 'w \<Rightarrow> bool"

definition same_cloud :: "'w cloud_observer \<Rightarrow> 'w \<Rightarrow> 'w \<Rightarrow> bool" where
  "same_cloud C w w' \<longleftrightarrow> coInstances C w' = coInstances C w \<and> coServiceId C w' = coServiceId C w
     \<and> coNamespaceId C w' = coNamespaceId C w"

text \<open>A call that changes nothing that is seen, and one that may only add namespaces and services.\<close>

definition still :: "'w cloud_observer \<Rightarrow> ('w \<Rightarrow> 'a \<times> 'w) \<Rightarrow> bool" where
  "still C f \<longleftrightarrow> (\<forall>w. same_cloud C w (snd (f w)) \<and> coExports C (snd (f w)) = coExports C w)"

definition grows :: "'w cloud_observer \<Rightarrow> ('w \<Rightarrow> 'a \<times> 'w) \<Rightarrow> bool" where
  "grows C f \<longleftrightarrow> (\<forall>w. coInstances C (snd (f w)) = coInstances C w \<and> coExports C (snd (f w)) = coExports C w
     \<and> (\<forall>k i. coServiceId C w k = Some i \<longrightarrow> coServiceId C (snd (f w)) k = Some i)
     \<and> (\<forall>n i. coNamespaceId C w n = Some i \<longrightarrow> coNamespaceId C (snd (f w)) n = Some i))"

text \<open>
  The same services and exports, and the same instances but perhaps for the instance \<open>i\<close> of the service
  with id \<open>svcId\<close>, which may have become \<open>v\<close>.
\<close>

definition wrote :: "'w cloud_observer \<Rightarrow> string \<Rightarrow> string \<Rightarrow> attrs option \<Rightarrow> 'w \<Rightarrow> 'w \<Rightarrow> bool" where
  "wrote C svcId i v w w' \<longleftrightarrow> coExports C w' = coExports C w
     \<and> coServiceId C w' = coServiceId C w \<and> coNamespaceId C w' = coNamespaceId C w
     \<and> (\<forall>k. coServiceId C w k \<noteq> Some svcId \<longrightarrow> coInstances C w' k = coInstances C w k)
     \<and> (\<forall>k j. j \<noteq> i \<longrightarrow> fmlookup (coInstances C w' k) j = fmlookup (coInstances C w k) j)
     \<and> (\<forall>k. fmlookup (coInstances C w' k) i = fmlookup (coInstances C w k) i \<or> fmlookup (coInstances C w' k) i = v)"

definition writes_instance ::
  "'w cloud_observer \<Rightarrow> string \<Rightarrow> string \<Rightarrow> attrs option \<Rightarrow> ('w \<Rightarrow> string outcome \<times> 'w) \<Rightarrow> bool" where
  "writes_instance C svcId i v f \<longleftrightarrow> (\<forall>w r w'. f w = (r, w') \<longrightarrow>
     r \<noteq> Panic \<and> wrote C svcId i v w w' \<and> (\<forall>opId. r = Ok opId \<longrightarrow> coAccepted C opId svcId i v w')
     \<and> (\<forall>opId i' v'. i' \<noteq> i \<or> v' = v \<longrightarrow> coAccepted C opId svcId i' v' w \<longrightarrow> coAccepted C opId svcId i' v' w'))"

text \<open>What a read answers: what is there. No error of it is the sentinel of \<open>pkg/common\<close>.\<close>

definition answers :: "('w \<Rightarrow> 'a outcome \<times> 'w) \<Rightarrow> ('a \<Rightarrow> 'w \<Rightarrow> bool) \<Rightarrow> bool" where
  "answers f Q \<longleftrightarrow> (\<forall>w. (\<forall>x. fst (f w) = Ok x \<longrightarrow> Q x w) \<and> (\<forall>e. fst (f w) = Err e \<longrightarrow> \<not> errors_is_notFound e))"

definition instance_of :: "string \<Rightarrow> attrs \<Rightarrow> http_instance" where
  "instance_of i a = \<lparr>instInstanceId = Some i, instAttributes = a\<rparr>"

definition set_query :: "string \<Rightarrow> (string, string) fmap option" where
  "set_query cs = Some (fmupd ClusterSetIdAttr cs fmempty)"

definition reads_truly :: "'w client_env \<Rightarrow> 'w cloud_observer \<Rightarrow> cluster_properties \<Rightarrow> bool" where
  "reads_truly E C props \<longleftrightarrow>
     lists_truly (ceListProps E) props \<and> answers (ceListProps E) (\<lambda>_ _. True)
     \<and> answers (api_GetNamespaceMap (ceApi E)) (\<lambda>nm w. \<forall>n. map_option nsId (fmlookup nm n) = coNamespaceId C w n)
     \<and> (\<forall>i. answers (api_GetServiceIdMap (ceApi E) i) (\<lambda>ids w. \<forall>n v. coNamespaceId C w n = Some i \<longrightarrow>
          fmlookup ids v = coServiceId C w (n, v)))
     \<and> (\<forall>n v. answers (api_DiscoverInstances (ceApi E) n v (set_query (cpClusterSetId props))) (\<lambda>insts w.
          set insts = {instance_of i a |i a. fmlookup (coInstances C w (n, v)) i = Some a
            \<and> fmlookup a ClusterSetIdAttr = Some (cpClusterSetId props)}))"

text \<open>Services belong to namespaces and instances to services; no two services share an id.\<close>

definition well_founded_cloud :: "'w cloud_observer \<Rightarrow> bool" where
  "well_founded_cloud C \<longleftrightarrow>
     (\<forall>w n v. coNamespaceId C w n = None \<longrightarrow> coServiceId C w (n, v) = None)
     \<and> (\<forall>w k. coServiceId C w k = None \<longrightarrow> coInstances C w k = fmempty)
     \<and> (\<forall>w k k' i. coServiceId C w k = Some i \<longrightarrow> coServiceId C w k' = Some i \<longrightarrow> k' = k)"

definition calls_are_still :: "'w client_env \<Rightarrow> 'w cloud_observer \<Rightarrow> bool" where
  "calls_are_still E C \<longleftrightarrow>
     still C (ceNow E) \<and> still C (ceListProps E) \<and> still C (api_GetNamespaceMap (ceApi E))
     \<and> (\<forall>i. still C (api_GetServiceIdMap (ceApi E) i))
     \<and> (\<forall>n v q. still C (api_DiscoverInstances (ceApi E) n v q))
     \<and> (\<forall>opId. still C (poll_condition (api_GetOperation (ceApi E)) opId))"

definition operations_apply :: "'w client_env \<Rightarrow> 'w cloud_observer \<Rightarrow> bool" where
  "operations_apply E C \<longleftrightarrow>
     (\<forall>n. grows C (api_CreateHttpNamespace (ceApi E) n)) \<and> (\<forall>N v. grows C (api_CreateService (ceApi E) N v))
     \<and> (\<forall>svcId i a. writes_instance C svcId i (Some a) (api_RegisterInstance (ceApi E) svcId i a))
     \<and> (\<forall>svcId i. writes_instance C svcId i None (api_DeregisterInstance (ceApi E) svcId i))
     \<and> (\<forall>opId w. fst (poll_condition (api_GetOperation (ceApi E)) opId w) \<noteq> Panic)
     \<and> (\<forall>opId opId' svcId i v w. coAccepted C opId svcId i v w \<longrightarrow>
          coAccepted C opId svcId i v (snd (poll_condition (api_GetOperation (ceApi E)) opId' w)))
     \<and> (\<forall>opId svcId i v w op w' k. coAccepted C opId svcId i v w \<longrightarrow> coServiceId C w k = Some svcId
          \<longrightarrow> poll_condition (api_GetOperation (ceApi E)) opId w = (Ok (Some op), w')
          \<longrightarrow> fmlookup (coInstances C w' k) i = v)"

definition cloud_laws :: "'w client_env \<Rightarrow> 'w cloud_observer \<Rightarrow> cluster_properties \<Rightarrow> bool" where
  "cloud_laws E C props \<longleftrightarrow> reads_truly E C props \<and> well_founded_cloud C \<and> calls_are_still E C \<and> operations_apply E C"

section \<open>The endpoints that are registered\<close>

text \<open>The endpoint that an instance of the cluster set stands for, and all of a service, by instance id.\<close>

definition instance_endpoint :: "string \<Rightarrow> string \<Rightarrow> attrs \<Rightarrow> endpoint option" where
  "instance_endpoint cs i a =
     (if fmlookup a ClusterSetIdAttr = Some cs
      then (case NewEndpointFromInstance (instance_of i a) of Ok e \<Rightarrow> Some e | _ \<Rightarrow> None) else None)"

definition endpoints_of_instances :: "string \<Rightarrow> (string, attrs) fmap \<Rightarrow> (string, endpoint) fmap" where
  "endpoints_of_instances cs m =
     fmmap_keys (\<lambda>i a. the (instance_endpoint cs i a))
       (fmfilter (\<lambda>i. Option.bind (fmlookup m i) (instance_endpoint cs i) \<noteq> None) m)"

lemma lookup_endpoints_of_instances [simp]:
  "fmlookup (endpoints_of_instances cs m) i = Option.bind (fmlookup m i) (instance_endpoint cs i)"
  by (cases "fmlookup m i"; cases "Option.bind (fmlookup m i) (instance_endpoint cs i)")
    (simp_all add: endpoints_of_instances_def)

lemma instance_endpoint_Some:
  "instance_endpoint cs i a = Some e \<longleftrightarrow>
     fmlookup a ClusterSetIdAttr = Some cs \<and> NewEndpointFromInstance (instance_of i a) = Ok e"
  by (auto simp: instance_endpoint_def split: outcome.splits)

lemma decoded_id: "NewEndpointFromInstance (instance_of i a) = Ok e \<Longrightarrow> epId e = i"
  by (simp add: decode_eq_Ok instance_describes_def instance_of_def Let_def)

lemma endpoint_of_registered:
  assumes "registrable e" and "epClusterSetId e = cs"
  shows "instance_endpoint cs (epId e) (GetCloudMapAttributes e) = Some e"
  using decode_registered [OF assms(1)] registered_cluster_set [OF assms(1)] assms(2)
  by (simp add: instance_endpoint_Some as_instance_def instance_of_def)

definition own_of :: "cluster_properties \<Rightarrow> (string, attrs) fmap \<Rightarrow> endpoint set" where
  "own_of props m =
     {e. fmlookup (endpoints_of_instances (cpClusterSetId props) m) (epId e) = Some e
        \<and> epClusterId e = cpClusterId props}"

lemma own_of_empty [simp]: "own_of props fmempty = {}"
  by (simp add: own_of_def)

lemma decode_instances_set:
  "decode_instances insts = Ok es \<Longrightarrow> set es = {e. \<exists>inst \<in> set insts. NewEndpointFromInstance inst = Ok e}"
proof (induction insts arbitrary: es)
  case (Cons inst insts)
  then show ?case by (cases "NewEndpointFromInstance inst") (auto split: outcome.splits)
qed simp

lemma decode_instances_not_Err: "decode_instances insts \<noteq> Err e"
  by (induction insts) (auto split: outcome.splits)

lemma discovered_own:
  assumes "decode_instances insts = Ok es"
    and "set insts = {instance_of i a |i a. fmlookup m i = Some a \<and> fmlookup a ClusterSetIdAttr = Some (cpClusterSetId props)}"
  shows "{e \<in> set es. epClusterId e = cpClusterId props} = own_of props m"
proof -
  have "e \<in> set es \<longleftrightarrow> (\<exists>a. fmlookup m (epId e) = Some a \<and> instance_endpoint (cpClusterSetId props) (epId e) a = Some e)" for e
    by (auto simp: decode_instances_set [OF assms(1)] assms(2) instance_endpoint_Some dest: decoded_id)
  then show ?thesis by (auto simp: own_of_def bind_eq_Some_conv)
qed


section \<open>The cache is never wrong about this cluster\<close>

definition own :: "'w cloud_observer \<Rightarrow> cluster_properties \<Rightarrow> 'w \<Rightarrow> string \<times> string \<Rightarrow> endpoint set" where
  "own C props w k = own_of props (coInstances C w k)"

text \<open>
  What an entry of each table must tell: ids are those of the world; a namespace or service that is not
  listed has no endpoints of this cluster; the endpoints of this cluster are the registered ones.
\<close>

definition namespaces_right ::
  "'w cloud_observer \<Rightarrow> cluster_properties \<Rightarrow> 'w \<Rightarrow> (string, namespace) fmap \<Rightarrow> bool" where
  "namespaces_right C props w m \<longleftrightarrow>
     (\<forall>n N. fmlookup m n = Some N \<longrightarrow> coNamespaceId C w n = Some (nsId N))
     \<and> (\<forall>n v. fmlookup m n = None \<longrightarrow> own C props w (n, v) = {})"

definition service_ids_right ::
  "'w cloud_observer \<Rightarrow> cluster_properties \<Rightarrow> 'w \<Rightarrow> string \<Rightarrow> (string, string) fmap \<Rightarrow> bool" where
  "service_ids_right C props w n m \<longleftrightarrow> coNamespaceId C w n \<noteq> None
     \<and> (\<forall>v i. fmlookup m v = Some i \<longrightarrow> coServiceId C w (n, v) = Some i)
     \<and> (\<forall>v. fmlookup m v = None \<longrightarrow> own C props w (n, v) = {})"

definition endpoints_right ::
  "'w cloud_observer \<Rightarrow> cluster_properties \<Rightarrow> 'w \<Rightarrow> string \<times> string \<Rightarrow> endpoint list \<Rightarrow> bool" where
  "endpoints_right C props w k es \<longleftrightarrow> {e \<in> set es. epClusterId e = cpClusterId props} = own C props w k"

definition cache_right :: "'w cloud_observer \<Rightarrow> cluster_properties \<Rightarrow> 'w \<Rightarrow> 'c sd_cache \<Rightarrow> bool" where
  "cache_right C props w c \<longleftrightarrow> cache_valid c
     \<and> (\<forall>m t. ns_view c () = Some (m, t) \<longrightarrow> namespaces_right C props w m
          \<and> (\<forall>n. fmlookup m n = None \<longrightarrow> svc_view c n = None))
     \<and> (\<forall>n m t. svc_view c n = Some (m, t) \<longrightarrow> service_ids_right C props w n m)
     \<and> (\<forall>k es t. plain_namespace k \<longrightarrow> endpts_view c k = Some (es, t) \<longrightarrow> endpoints_right C props w k es)"

lemma cache_rightD:
  assumes "cache_right C props w c"
  shows "cache_valid c" "ns_view c () = Some (m, t) \<Longrightarrow> namespaces_right C props w m"
    "ns_view c () = Some (m, t) \<Longrightarrow> fmlookup m n = None \<Longrightarrow> svc_view c n = None"
    "svc_view c n = Some (ids, t) \<Longrightarrow> service_ids_right C props w n ids"
    "\<lbrakk>plain_namespace k; endpts_view c k = Some (es, t)\<rbrakk> \<Longrightarrow> endpoints_right C props w k es"
  using assms unfolding cache_right_def by blast+

definition coherent :: "'w cloud_observer \<Rightarrow> cluster_properties \<Rightarrow> ('c, 'w) client \<Rightarrow> bool" where
  "coherent C props s \<longleftrightarrow> props_within (clProps s) props \<and> cache_right C props (clWorld s) (clCache s)"

text \<open>The world goes on, as far as the cache is concerned.\<close>

definition later :: "'w cloud_observer \<Rightarrow> cluster_properties \<Rightarrow> 'w \<Rightarrow> 'w \<Rightarrow> bool" where
  "later C props w w' \<longleftrightarrow>
     (\<forall>k i. coServiceId C w k = Some i \<longrightarrow> coServiceId C w' k = Some i)
     \<and> (\<forall>n i. coNamespaceId C w n = Some i \<longrightarrow> coNamespaceId C w' n = Some i)
     \<and> (\<forall>k. own C props w' k = own C props w k)"

lemma right_later:
  assumes "later C props w w'"
  shows "namespaces_right C props w m \<Longrightarrow> namespaces_right C props w' m"
    and "service_ids_right C props w n ids \<Longrightarrow> service_ids_right C props w' n ids"
    and "endpoints_right C props w k es \<Longrightarrow> endpoints_right C props w' k es"
  using assms
  by (auto simp: later_def namespaces_right_def service_ids_right_def endpoints_right_def simp del: split_paired_All)

lemma cache_right_later:
  assumes "later C props w w'" and "cache_right C props w c"
  shows "cache_right C props w' c"
  using assms(2) right_later [OF assms(1)] unfolding cache_right_def by meson

text \<open>What a read or an eviction leaves of a cache.\<close>

definition forgets :: "'c sd_cache \<Rightarrow> 'c sd_cache \<Rightarrow> bool" where
  "forgets c c' \<longleftrightarrow> cache_valid c' \<and> (ns_view c' () = None \<or> ns_view c' () = ns_view c ())
     \<and> (\<forall>n. svc_view c' n = None \<or> svc_view c' n = svc_view c n)
     \<and> (\<forall>k. endpts_view c' k = None \<or> endpts_view c' k = endpts_view c k)"

lemma forgetsD:
  assumes "forgets c c'"
  shows "ns_view c' () = Some x \<Longrightarrow> ns_view c () = Some x" "svc_view c' n = Some y \<Longrightarrow> svc_view c n = Some y"
    "endpts_view c' k = Some z \<Longrightarrow> endpts_view c k = Some z" "svc_view c n = None \<Longrightarrow> svc_view c' n = None"
  using assms unfolding forgets_def by (metis option.distinct(1))+

lemma cache_right_forgets:
  assumes "forgets c c'" and "cache_right C props w c"
  shows "cache_right C props w c'"
proof -
  have v: "cache_valid c'" using assms(1) by (simp add: forgets_def)
  show ?thesis
    using assms(2) v forgetsD [OF assms(1)] unfolding cache_right_def by meson
qed

lemma forgetsI:
  assumes "cache_valid c" and "scLru c' = scLru c"
    and "fewer (lruEntries (scLru c) (scDefault c)) (lruEntries (scLru c) (scDefault c'))"
    and "fewer (lruEntries (scLru c) (scEndpoints c)) (lruEntries (scLru c) (scEndpoints c'))"
  shows "forgets c c'"
proof -
  note d = assms(3) [unfolded fewer_def, rule_format] and e = assms(4) [unfolded fewer_def, rule_format]
  have "ns_view c' () = None \<or> ns_view c' () = ns_view c ()"
    using d [of nsKey] assms(2) by (auto simp: ns_view_def)
  moreover have "svc_view c' n = None \<or> svc_view c' n = svc_view c n" for n
    using d [of "buildSvcKey n"] assms(2) by (auto simp: svc_view_def)
  moreover have "endpts_view c' k = None \<or> endpts_view c' k = endpts_view c k" for k
    using e [of "buildEndptsKey (fst k) (snd k)"] assms(2) by (auto simp: endpts_view_def)
  ultimately show ?thesis using assms(1,2) by (simp add: forgets_def cache_valid_def)
qed

lemma fewer_refl [simp]: "fewer m m"
  by (simp add: fewer_def)

lemma fewer_trans: "\<lbrakk>fewer a b; fewer b c\<rbrakk> \<Longrightarrow> fewer a c"
  unfolding fewer_def by metis

lemma lru_fewer:
  assumes "lru_laws L"
  shows "fewer (lruEntries L c) (lruEntries L (snd (lruGet L k now c)))"
    and "fewer (lruEntries L c) (lruEntries L (lruRemove L k c))"
    and "fewer (lruEntries L c) (lruEntries L (lruRemove L k (snd (lruGet L k' now c))))"
  using assms fewer_trans unfolding lru_laws_def by meson+

lemma cache_ops_forget:
  assumes v: "cache_valid c"
  shows "forgets c (snd (GetNamespaceMap now c))" "forgets c (snd (GetServiceIdMap n now c))"
    "forgets c (snd (GetCachedEndpoints n m now c))" "forgets c (EvictNamespaceMap c)"
    "forgets c (EvictServiceIdMap n c)" "forgets c (EvictEndpoints n m c)"
proof -
  note f = lru_fewer [OF v [unfolded cache_valid_def]]
  note get = f(1,3) [where now = now]
  show "forgets c (snd (GetNamespaceMap now c))"
    using get(1) [of "scDefault c" nsKey] get(2) [of "scDefault c" nsKey nsKey]
    by (intro forgetsI [OF v]) (auto simp: GetNamespaceMap_def split: prod.splits option.splits cache_entry.splits)
  show "forgets c (snd (GetServiceIdMap n now c))"
    using get(1) [of "scDefault c" "buildSvcKey n"] get(2) [of "scDefault c" "buildSvcKey n" "buildSvcKey n"]
    by (intro forgetsI [OF v]) (auto simp: GetServiceIdMap_def Let_def split: prod.splits option.splits cache_entry.splits)
  show "forgets c (snd (GetCachedEndpoints n m now c))"
    using get(1) [of "scEndpoints c" "buildEndptsKey n m"] get(2) [of "scEndpoints c" "buildEndptsKey n m" "buildEndptsKey n m"]
    by (intro forgetsI [OF v]) (auto simp: GetCachedEndpoints_def Let_def split: prod.splits option.splits cache_entry.splits)
qed (use v lru_fewer [OF v [unfolded cache_valid_def]] in
  \<open>auto intro!: forgetsI simp: EvictNamespaceMap_def EvictServiceIdMap_def EvictEndpoints_def\<close>)


section \<open>Reads\<close>

text \<open>A coherent client in a world with the instances \<open>I\<close> and the exports \<open>X\<close>.\<close>

definition client_sees ::
  "'w cloud_observer \<Rightarrow> cluster_properties \<Rightarrow> (string \<times> string \<Rightarrow> (string, attrs) fmap)
    \<Rightarrow> (string \<times> string \<Rightarrow> service_export option) \<Rightarrow> ('c, 'w) client \<Rightarrow> bool" where
  "client_sees C props I X s \<longleftrightarrow> coherent C props s \<and> coInstances C (clWorld s) = I \<and> coExports C (clWorld s) = X"

lemma client_seesD:
  assumes "client_sees C props I X s"
  shows "cache_valid (clCache s)" "cache_right C props (clWorld s) (clCache s)" "props_within (clProps s) props"
    "own C props (clWorld s) k = own_of props (I k)" "coherent C props s"
    "coInstances C (clWorld s) = I" "coExports C (clWorld s) = X"
  using assms by (auto simp: client_sees_def coherent_def cache_right_def own_def)

lemma cloud_lawsD:
  assumes "cloud_laws E C props"
  shows "still C (ceNow E)" "still C (ceListProps E)" "still C (api_GetNamespaceMap (ceApi E))"
    "still C (api_GetServiceIdMap (ceApi E) i)" "still C (api_DiscoverInstances (ceApi E) n v q)"
    "still C (poll_condition (api_GetOperation (ceApi E)) opId)"
    "grows C (api_CreateHttpNamespace (ceApi E) n)" "grows C (api_CreateService (ceApi E) N v)"
  using assms by (simp_all add: cloud_laws_def calls_are_still_def operations_apply_def)

lemma stillD:
  assumes "still C f" and "f w = (r, w')"
  shows "same_cloud C w w'" "coExports C w' = coExports C w"
  using assms unfolding still_def by (metis snd_conv)+

lemma still_grows: "still C f \<Longrightarrow> grows C f"
  by (simp add: still_def grows_def same_cloud_def)

lemma same_cloud_later: "same_cloud C w w' \<Longrightarrow> later C props w w'"
  by (simp add: same_cloud_def later_def own_def)

lemma sees_still:
  assumes "client_sees C props I X s" and "same_cloud C (clWorld s) w" and "coExports C w = coExports C (clWorld s)"
  shows "client_sees C props I X (s\<lparr>clWorld := w\<rparr>)"
  using assms cache_right_later [OF same_cloud_later [OF assms(2)], of props "clCache s"]
  by (simp add: client_sees_def coherent_def same_cloud_def)

lemma sees_grows:
  assumes "client_sees C props I X s" and "grows C f" and "f (clWorld s) = (r, w)"
  shows "client_sees C props I X (s\<lparr>clWorld := w\<rparr>)"
proof -
  have "later C props (clWorld s) w"
    using assms(2) [unfolded grows_def, rule_format, of "clWorld s"] assms(3) by (simp add: later_def own_def)
  moreover have "coInstances C w = coInstances C (clWorld s)" "coExports C w = coExports C (clWorld s)"
    using assms(2) [unfolded grows_def, rule_format, of "clWorld s"] assms(3) by simp_all
  ultimately show ?thesis
    using assms(1) cache_right_later [of C props "clWorld s" w "clCache s"]
    by (simp add: client_sees_def coherent_def)
qed

lemma sees_forgets:
  assumes "client_sees C props I X s" and "forgets (clCache s) c"
  shows "client_sees C props I X (s\<lparr>clCache := c\<rparr>)"
  using assms cache_right_forgets [OF assms(2), of C props "clWorld s"] by (simp add: client_sees_def coherent_def)

text \<open>\<open>moved s s'\<close>: from \<open>s\<close> to \<open>s'\<close> nothing has changed but the cache.\<close>

definition moved :: "'w cloud_observer \<Rightarrow> ('c, 'w) client \<Rightarrow> ('c, 'w) client \<Rightarrow> bool" where
  "moved C s s' \<longleftrightarrow> same_cloud C (clWorld s) (clWorld s') \<and> coExports C (clWorld s') = coExports C (clWorld s)
     \<and> clProps s' = clProps s"

lemma triple_cache_read:
  assumes laws: "cloud_laws E C props" and f: "\<And>now c. cache_valid c \<Longrightarrow> forgets c (snd (get now c))"
    and post: "\<And>s s' now v. \<lbrakk>client_sees C props I X s; P s; get now (clCache s) = (v, clCache s');
      forgets (clCache s) (clCache s'); client_sees C props I X s'; moved C s s'\<rbrakk> \<Longrightarrow> Q v s'"
  shows "triple (\<lambda>s. client_sees C props I X s \<and> P s) (cache_read E get) Q R"
proof (rule tripleI)
  fix s r s'
  assume s: "client_sees C props I X s \<and> P s" and r: "cache_read E get s = (r, s')"
  obtain now w v c where n: "ceNow E (clWorld s) = (now, w)" and g: "get now (clCache s) = (v, c)" by fastforce
  with r have r': "r = Ok v" "s' = s\<lparr>clWorld := w, clCache := c\<rparr>" by (cases s; simp add: cache_read_def)+
  have fc: "forgets (clCache s) c" using f [of "clCache s" now] g s client_seesD(1) by fastforce
  note w = stillD [OF cloud_lawsD(1) [OF laws] n]
  have "client_sees C props I X (s\<lparr>clWorld := w\<rparr>)" using sees_still [OF _ w] s by simp
  from sees_forgets [OF this, of c] have "client_sees C props I X s'" using fc r' by simp
  then have "Q v s'" using post [of s now v s'] s g fc w r' by (simp add: moved_def)
  then show "case r of Ok x \<Rightarrow> Q x s' | Err e \<Rightarrow> R (Some e) s' | Panic \<Rightarrow> R None s'" by (simp add: r')
qed

lemma triple_cache_write:
  assumes laws: "cloud_laws E C props"
    and post: "\<And>s s' now. \<lbrakk>P s; clCache s' = put now (clCache s); moved C s s'\<rbrakk> \<Longrightarrow> Q () s'"
  shows "triple P (cache_write E put) Q R"
proof (rule tripleI)
  fix s r s'
  assume s: "P s" and r: "cache_write E put s = (r, s')"
  obtain now w where n: "ceNow E (clWorld s) = (now, w)" by fastforce
  with r have r': "r = Ok ()" "s' = s\<lparr>clCache := put now (clCache s), clWorld := w\<rparr>" by (simp_all add: cache_write_def)
  have "Q () s'" using post [OF s, of s' now] stillD [OF cloud_lawsD(1) [OF laws] n] r' by (simp add: moved_def)
  then show "case r of Ok x \<Rightarrow> Q x s' | Err e \<Rightarrow> R (Some e) s' | Panic \<Rightarrow> R None s'" by (simp add: r')
qed

lemma triple_still:
  assumes "still C f" and "answers f A"
    and post: "\<And>s s' x. \<lbrakk>client_sees C props I X s; P s; A x (clWorld s); client_sees C props I X s';
      clCache s' = clCache s; moved C s s'\<rbrakk> \<Longrightarrow> Q x s'"
    and err: "\<And>s e. \<lbrakk>client_sees C props I X s; \<not> errors_is_notFound e\<rbrakk> \<Longrightarrow> R (Some e) s"
    and panic: "\<And>s. client_sees C props I X s \<Longrightarrow> R None s"
  shows "triple (\<lambda>s. client_sees C props I X s \<and> P s) (in_world f) Q R"
proof (rule triple_in_world)
  fix s r w
  assume s: "client_sees C props I X s \<and> P s" and f: "f (clWorld s) = (r, w)"
  note w = stillD [OF assms(1) f]
  have seen: "client_sees C props I X (s\<lparr>clWorld := w\<rparr>)" using sees_still [OF _ w] s by simp
  have "A x (clWorld s)" if "r = Ok x" for x using assms(2) f that unfolding answers_def by (metis fst_conv)
  moreover have "\<not> errors_is_notFound e" if "r = Err e" for e using assms(2) f that unfolding answers_def by (metis fst_conv)
  ultimately show "case r of Ok x \<Rightarrow> Q x (s\<lparr>clWorld := w\<rparr>) | Err e \<Rightarrow> R (Some e) (s\<lparr>clWorld := w\<rparr>) | Panic \<Rightarrow> R None (s\<lparr>clWorld := w\<rparr>)"
    using post [of s _ "s\<lparr>clWorld := w\<rparr>"] err [OF seen] panic [OF seen] seen s w by (cases r) (simp_all add: moved_def)
qed


subsection \<open>What is put into the cache is right\<close>

lemma put_namespaces_right:
  assumes c: "cache_right C props w c" and wf: "well_founded_cloud C"
    and m: "\<forall>n. map_option nsId (fmlookup m n) = coNamespaceId C w n"
  shows "namespaces_right C props w m" and "cache_right C props w (CacheNamespaceMap m now c)"
    and "ns_view (CacheNamespaceMap m now c) () = Some (m, now + NsTTL (scConfig c))"
proof -
  have v: "cache_valid c" using c by (simp add: cache_right_def)
  have none: "coNamespaceId C w n = None" if "fmlookup m n = None" for n
    using m [rule_format, of n] that by simp
  have "own C props w (n, v) = {}" if "fmlookup m n = None" for n v
    using none [OF that] wf by (simp add: own_def well_founded_cloud_def)
  moreover have "coNamespaceId C w n = Some (nsId N)" if "fmlookup m n = Some N" for n N
    using m [rule_format, of n] that by simp
  ultimately show right: "namespaces_right C props w m" by (simp add: namespaces_right_def)
  show put: "ns_view (CacheNamespaceMap m now c) () = Some (m, now + NsTTL (scConfig c))"
    using ns_cache.put_same [OF v, of m now] by simp
  have svc: "svc_view (CacheNamespaceMap m now c) n = None \<or> svc_view (CacheNamespaceMap m now c) n = svc_view c n" for n
    using cache_tables_independent [OF v, of m now n] by blast
  have "svc_view c n = None" if "fmlookup m n = None" for n
    using none [OF that] c unfolding cache_right_def service_ids_right_def by (metis option.exhaust prod.exhaust)
  then have "svc_view (CacheNamespaceMap m now c) n = None" if "fmlookup m n = None" for n using svc [of n] that by auto
  moreover have "cache_valid (CacheNamespaceMap m now c)" using v by (simp add: cache_valid_def)
  moreover have "service_ids_right C props w n ids"
    if "svc_view (CacheNamespaceMap m now c) n = Some (ids, t)" for n ids t
    using svc [of n] that cache_rightD(4) [OF c, of n ids t] by auto
  ultimately show "cache_right C props w (CacheNamespaceMap m now c)"
    using c right put by (simp add: cache_right_def)
qed

lemma put_service_ids_right:
  assumes c: "cache_right C props w c" and wf: "well_founded_cloud C" and n: "coNamespaceId C w n \<noteq> None"
    and m: "\<forall>v. fmlookup ids v = coServiceId C w (n, v)"
    and listed: "\<forall>m t. ns_view c () = Some (m, t) \<longrightarrow> fmlookup m n \<noteq> None"
  shows "service_ids_right C props w n ids" and "cache_right C props w (CacheServiceIdMap n ids now c)"
    and "svc_view (CacheServiceIdMap n ids now c) n = Some (ids, now + SvcTTL (scConfig c))"
    and "ns_view (CacheServiceIdMap n ids now c) () = None \<or> ns_view (CacheServiceIdMap n ids now c) () = ns_view c ()"
proof -
  have v: "cache_valid c" using c by (simp add: cache_right_def)
  show right: "service_ids_right C props w n ids"
    using n m wf by (simp add: service_ids_right_def own_def well_founded_cloud_def)
  show put: "svc_view (CacheServiceIdMap n ids now c) n = Some (ids, now + SvcTTL (scConfig c))"
    using svc_cache.put_same [OF v] by simp
  have other: "svc_view (CacheServiceIdMap n ids now c) n' = None
      \<or> svc_view (CacheServiceIdMap n ids now c) n' = svc_view c n'" if "n' \<noteq> n" for n'
    using svc_cache.put_other [OF v _ _ that, of ids now] by simp
  show ns: "ns_view (CacheServiceIdMap n ids now c) () = None \<or> ns_view (CacheServiceIdMap n ids now c) () = ns_view c ()"
    using cache_tables_independent [OF v, of _ now n ids] by blast
  have "service_ids_right C props w n' ids'"
    if "svc_view (CacheServiceIdMap n ids now c) n' = Some (ids', t)" for n' ids' t
    using other [of n'] put right that cache_rightD(4) [OF c, of n' ids' t] by (cases "n' = n") auto
  moreover have "svc_view (CacheServiceIdMap n ids now c) n' = None"
    if "ns_view c () = Some (m, t)" "fmlookup m n' = None" for n' m t
  proof -
    have "n' \<noteq> n" using listed that by blast
    moreover have "svc_view c n' = None" using c that by (auto simp: cache_right_def)
    ultimately show ?thesis using other by fastforce
  qed
  moreover have "cache_valid (CacheServiceIdMap n ids now c)" using v by (simp add: cache_valid_def)
  ultimately show "cache_right C props w (CacheServiceIdMap n ids now c)"
    using c ns by (auto simp: cache_right_def)
qed

lemma put_endpoints_right:
  assumes c: "cache_right C props w c" and k: "plain_namespace (n, v)" and es: "endpoints_right C props w (n, v) es"
  shows "cache_right C props w (CacheEndpoints n v es now c)"
proof -
  have valid: "cache_valid c" using c by (simp add: cache_right_def)
  have same: "ns_view (CacheEndpoints n v es now c) () = ns_view c ()" "svc_view (CacheEndpoints n v es now c) = svc_view c"
    by (simp_all add: ns_view_def svc_view_def CacheEndpoints_def fun_eq_iff)
  have "endpoints_right C props w k' es'"
    if "plain_namespace k'" "endpts_view (CacheEndpoints n v es now c) k' = Some (es', t)" for k' es' t
  proof (cases "k' = (n, v)")
    case True
    then show ?thesis using endpts_cache.put_same [OF valid k, of es now] that(2) es by simp
  next
    case False
    then show ?thesis
      using endpts_cache.put_other [OF valid k that(1) False, of es now] that cache_rightD(5) [OF c that(1), of es' t] by auto
  qed
  then show ?thesis using c same by (simp add: cache_right_def cache_valid_def)
qed


subsection \<open>What the reads of the client return\<close>

definition lists_namespace :: "string \<Rightarrow> ('c, 'w) client \<Rightarrow> bool" where
  "lists_namespace n s \<longleftrightarrow> (\<forall>m t. ns_view (clCache s) () = Some (m, t) \<longrightarrow> fmlookup m n \<noteq> None)"

text \<open>After an error: if it says that something was not found, there are no endpoints of this cluster there.\<close>

definition sees_or_absent ::
  "'w cloud_observer \<Rightarrow> cluster_properties \<Rightarrow> (string \<times> string \<Rightarrow> (string, attrs) fmap)
    \<Rightarrow> (string \<times> string \<Rightarrow> service_export option) \<Rightarrow> (string \<times> string) set \<Rightarrow> goerror option \<Rightarrow> ('c, 'w) client \<Rightarrow> bool" where
  "sees_or_absent C props I X K e s \<longleftrightarrow> client_sees C props I X s
     \<and> (\<forall>x. e = Some x \<longrightarrow> errors_is_notFound x \<longrightarrow> (\<forall>k \<in> K. own_of props (I k) = {}))"

lemma reads_trulyD:
  assumes "cloud_laws E C props"
  shows "well_founded_cloud C"
    and "answers (api_GetNamespaceMap (ceApi E)) (\<lambda>nm w. \<forall>n. map_option nsId (fmlookup nm n) = coNamespaceId C w n)"
    and "answers (api_GetServiceIdMap (ceApi E) i) (\<lambda>ids w. \<forall>n v. coNamespaceId C w n = Some i \<longrightarrow>
          fmlookup ids v = coServiceId C w (n, v))"
    and "answers (api_DiscoverInstances (ceApi E) n v (set_query (cpClusterSetId props))) (\<lambda>insts w.
          set insts = {instance_of i a |i a. fmlookup (coInstances C w (n, v)) i = Some a
            \<and> fmlookup a ClusterSetIdAttr = Some (cpClusterSetId props)})"
  using assms by (simp_all add: cloud_laws_def reads_truly_def)

lemma moved_right:
  assumes "moved C s s'"
  shows "cache_right C props (clWorld s) c \<Longrightarrow> cache_right C props (clWorld s') c"
    and "coServiceId C (clWorld s') = coServiceId C (clWorld s)" "coNamespaceId C (clWorld s') = coNamespaceId C (clWorld s)"
    and "namespaces_right C props (clWorld s') m = namespaces_right C props (clWorld s) m"
    and "service_ids_right C props (clWorld s') n ids = service_ids_right C props (clWorld s) n ids"
  using assms cache_right_later [OF same_cloud_later, of C "clWorld s" "clWorld s'" props c]
  by (auto simp: moved_def same_cloud_def namespaces_right_def service_ids_right_def own_def)

lemma sees_put:
  assumes "client_sees C props I X s" and "moved C s s'"
    and "cache_right C props (clWorld s) (clCache s')"
  shows "client_sees C props I X s'"
  using assms moved_right(1) [OF assms(2), of props "clCache s'"]
  by (auto simp: client_sees_def coherent_def moved_def same_cloud_def)

lemma getNamespaces_triple:
  assumes laws: "cloud_laws E C props"
  shows "triple (client_sees C props I X) (getNamespaces E)
    (\<lambda>m s. client_sees C props I X s \<and> namespaces_right C props (clWorld s) m
       \<and> (\<forall>m' t. ns_view (clCache s) () = Some (m', t) \<longrightarrow> m' = m))
    (sees_or_absent C props I X UNIV)"
proof -
  let ?sees = "client_sees C props I X" and ?R = "sees_or_absent C props I X UNIV"
  let ?Q = "\<lambda>m s. ?sees s \<and> namespaces_right C props (clWorld s) m
       \<and> (\<forall>m' t. ns_view (clCache s) () = Some (m', t) \<longrightarrow> m' = m)"
  let ?true = "\<lambda>m s. ?sees s \<and> (\<forall>n. map_option nsId (fmlookup m n) = coNamespaceId C (clWorld s) n)"
  have read: "triple (\<lambda>s. ?sees s \<and> True) (cache_read E GetNamespaceMap)
      (\<lambda>found s. case found of Some m \<Rightarrow> ?Q m s | None \<Rightarrow> ?sees s) ?R"
  proof (rule triple_cache_read [OF laws])
    fix s s' now v
    assume s: "?sees s" and g: "GetNamespaceMap now (clCache s) = (v, clCache s')"
      and f: "forgets (clCache s) (clCache s')" and s': "?sees s'" and m: "moved C s s'"
    have v: "v = unexpired now (ns_view (clCache s) ())"
      using ns_cache.get_value [of "clCache s" now] client_seesD(1) [OF s] g by simp
    show "case v of Some m \<Rightarrow> ?Q m s' | None \<Rightarrow> ?sees s'"
    proof (cases v)
      case (Some x)
      then obtain t where "ns_view (clCache s) () = Some (x, t)"
        using v by (auto simp: unexpired_def split: option.splits if_splits)
      moreover from this have "namespaces_right C props (clWorld s) x"
        using cache_rightD(2) [OF client_seesD(2) [OF s]] by blast
      ultimately show ?thesis
        using Some s' moved_right(4) [OF m, of props x] forgetsD(1) [OF f] by fastforce
    qed (use s' in simp)
  qed (rule cache_ops_forget)
  have fetch: "triple (\<lambda>s. ?sees s \<and> True) (in_world (api_GetNamespaceMap (ceApi E))) ?true ?R"
    by (rule triple_still [OF cloud_lawsD(3) [OF laws] reads_trulyD(2) [OF laws]])
      (auto simp: moved_right(3) sees_or_absent_def)
  have store: "triple (?true m) (cache_write E (CacheNamespaceMap m)) (\<lambda>_. ?Q m) ?R" for m
  proof (rule triple_cache_write [OF laws])
    fix s s' now
    assume s: "?true m s" and c: "clCache s' = CacheNamespaceMap m now (clCache s)" and mv: "moved C s s'"
    from s have true': "\<forall>n. map_option nsId (fmlookup m n) = coNamespaceId C (clWorld s) n" by simp
    from s have "cache_right C props (clWorld s) (clCache s)" using client_seesD(2) by blast
    note put = put_namespaces_right [OF this reads_trulyD(1) [OF laws] true']
    show "?Q m s'"
      using sees_put [of C props I X s s'] s mv put c moved_right(4) [OF mv, of props m] by simp
  qed
  have rest: "triple ?sees (bind_ok (in_world (api_GetNamespaceMap (ceApi E))) (\<lambda>namespaces.
             bind_ok (cache_write E (CacheNamespaceMap namespaces)) (\<lambda>_. return_value namespaces))) ?Q ?R"
    by (rule triple_bind [OF fetch [simplified]], rule triple_bind [OF store]) (simp add: triple_return)
  show ?thesis
    unfolding getNamespaces_def
    by (rule triple_cached [OF read [simplified] _ rest]) (simp add: triple_return)
qed


lemma getNamespace_triple:
  assumes laws: "cloud_laws E C props"
  shows "triple (client_sees C props I X) (getNamespace E n)
    (\<lambda>N s. client_sees C props I X s \<and> coNamespaceId C (clWorld s) n = Some (nsId N) \<and> lists_namespace n s)
    (sees_or_absent C props I X ({n} \<times> UNIV))"
  unfolding getNamespace_def
proof (rule triple_bind)
  show "triple (client_sees C props I X) (getNamespaces E)
    (\<lambda>m s. client_sees C props I X s \<and> namespaces_right C props (clWorld s) m
       \<and> (\<forall>m' t. ns_view (clCache s) () = Some (m', t) \<longrightarrow> m' = m))
    (sees_or_absent C props I X ({n} \<times> UNIV))"
    by (rule triple_conseq [OF getNamespaces_triple [OF laws]]) (auto simp: sees_or_absent_def)
qed (auto intro!: triple_rules simp: namespaces_right_def lists_namespace_def sees_or_absent_def client_seesD(4))

text \<open>What is known when the id of a service has been found.\<close>

definition knows_ids :: "string \<Rightarrow> (string, string) fmap \<Rightarrow> ('c, 'w) client \<Rightarrow> bool" where
  "knows_ids n ids s \<longleftrightarrow> lists_namespace n s \<and> (\<forall>m t. svc_view (clCache s) n = Some (m, t) \<longrightarrow> m = ids)"

lemma getServiceIds_triple:
  assumes laws: "cloud_laws E C props"
  shows "triple (client_sees C props I X) (getServiceIds E n)
    (\<lambda>ids s. client_sees C props I X s \<and> service_ids_right C props (clWorld s) n ids \<and> knows_ids n ids s)
    (sees_or_absent C props I X ({n} \<times> UNIV))"
proof -
  let ?sees = "client_sees C props I X" and ?R = "sees_or_absent C props I X ({n} \<times> UNIV)"
  let ?Q = "\<lambda>ids s. ?sees s \<and> service_ids_right C props (clWorld s) n ids \<and> knows_ids n ids s"
  let ?ns = "\<lambda>N s. ?sees s \<and> coNamespaceId C (clWorld s) n = Some (nsId N) \<and> lists_namespace n s"
  let ?true = "\<lambda>ids s. ?sees s \<and> coNamespaceId C (clWorld s) n \<noteq> None \<and> lists_namespace n s
    \<and> (\<forall>v. fmlookup ids v = coServiceId C (clWorld s) (n, v))"
  have read: "triple (\<lambda>s. ?sees s \<and> True) (cache_read E (GetServiceIdMap n))
      (\<lambda>found s. case found of Some ids \<Rightarrow> ?Q ids s | None \<Rightarrow> ?sees s) ?R"
  proof (rule triple_cache_read [OF laws])
    fix s s' now v
    assume s: "?sees s" and g: "GetServiceIdMap n now (clCache s) = (v, clCache s')"
      and f: "forgets (clCache s) (clCache s')" and s': "?sees s'" and m: "moved C s s'"
    note right = cache_rightD [OF client_seesD(2) [OF s]]
    have v: "v = unexpired now (svc_view (clCache s) n)"
      using svc_cache.get_value [of "clCache s" n now] client_seesD(1) [OF s] g by simp
    show "case v of Some ids \<Rightarrow> ?Q ids s' | None \<Rightarrow> ?sees s'"
    proof (cases v)
      case (Some ids)
      then obtain t where t: "svc_view (clCache s) n = Some (ids, t)"
        using v by (auto simp: unexpired_def split: option.splits if_splits)
      then have "fmlookup m' n \<noteq> None" if "ns_view (clCache s') () = Some (m', t')" for m' t'
        using right(3) [of m' t' n] forgetsD(1) [OF f that] by auto
      moreover have "service_ids_right C props (clWorld s) n ids" using right(4) t by blast
      moreover have "m' = ids" if "svc_view (clCache s') n = Some (m', t')" for m' t'
        using forgetsD(2) [OF f that] t by simp
      ultimately have "service_ids_right C props (clWorld s') n ids \<and> knows_ids n ids s'"
        unfolding moved_right(5) [OF m] knows_ids_def lists_namespace_def by blast
      then show ?thesis using Some s' by simp
    qed (use s' in simp)
  qed (rule cache_ops_forget)
  have fetch: "triple (?ns N) (in_world (api_GetServiceIdMap (ceApi E) (nsId N))) ?true ?R" for N
    by (rule triple_still [OF cloud_lawsD(4) [OF laws] reads_trulyD(3) [OF laws]])
      (auto simp: moved_right(2,3) sees_or_absent_def lists_namespace_def)
  have store: "triple (?true ids) (cache_write E (CacheServiceIdMap n ids)) (\<lambda>_. ?Q ids) ?R" for ids
  proof (rule triple_cache_write [OF laws])
    fix s s' now
    assume s: "?true ids s" and c: "clCache s' = CacheServiceIdMap n ids now (clCache s)" and mv: "moved C s s'"
    from s have right: "cache_right C props (clWorld s) (clCache s)" using client_seesD(2) by blast
    have listed: "\<forall>m t. ns_view (clCache s) () = Some (m, t) \<longrightarrow> fmlookup m n \<noteq> None"
      using s by (simp add: lists_namespace_def)
    note put = put_service_ids_right [OF right reads_trulyD(1) [OF laws] _ _ listed]
    have put': "service_ids_right C props (clWorld s) n ids" "cache_right C props (clWorld s) (clCache s')"
      "\<exists>t. svc_view (clCache s') n = Some (ids, t)" "ns_view (clCache s') () = None \<or> ns_view (clCache s') () = ns_view (clCache s) ()"
      using put(1) [of ids] put(2-4) [of ids now] s c by auto
    have "lists_namespace n s'" using put'(4) listed unfolding lists_namespace_def by (metis option.distinct(1))
    then show "?Q ids s'"
      using sees_put [of C props I X s s'] s mv put' moved_right(5) [OF mv]
      by (auto simp: knows_ids_def)
  qed
  have rest: "triple ?sees (bind_ok (getNamespace E n) (\<lambda>N.
      bind_ok (in_world (api_GetServiceIdMap (ceApi E) (nsId N))) (\<lambda>ids.
        bind_ok (cache_write E (CacheServiceIdMap n ids)) (\<lambda>_. return_value ids)))) ?Q ?R"
    by (rule triple_bind [OF getNamespace_triple [OF laws]], rule triple_bind [OF fetch], rule triple_bind [OF store])
      (simp add: triple_return)
  show ?thesis
    unfolding getServiceIds_def
    by (rule triple_cached [OF read [simplified] _ rest]) (simp add: triple_return)
qed

definition found_service ::
  "'w cloud_observer \<Rightarrow> string \<Rightarrow> string \<Rightarrow> string \<Rightarrow> ('c, 'w) client \<Rightarrow> bool" where
  "found_service C n v i s \<longleftrightarrow> coServiceId C (clWorld s) (n, v) = Some i
     \<and> (\<exists>ids. knows_ids n ids s \<and> fmlookup ids v = Some i)"

lemma getServiceId_triple:
  assumes laws: "cloud_laws E C props"
  shows "triple (client_sees C props I X) (getServiceId E n v)
    (\<lambda>i s. client_sees C props I X s \<and> found_service C n v i s)
    (sees_or_absent C props I X {(n, v)})"
  unfolding getServiceId_def
proof (rule triple_bind)
  show "triple (client_sees C props I X) (getServiceIds E n)
    (\<lambda>ids s. client_sees C props I X s \<and> service_ids_right C props (clWorld s) n ids \<and> knows_ids n ids s)
    (sees_or_absent C props I X {(n, v)})"
    by (rule triple_conseq [OF getServiceIds_triple [OF laws]]) (auto simp: sees_or_absent_def)
qed (auto intro!: triple_rules simp: service_ids_right_def found_service_def sees_or_absent_def client_seesD(4))


lemma cached_endpoints_triple:
  assumes laws: "cloud_laws E C props" and k: "plain_namespace (n, v)"
  shows "triple (client_sees C props I X) (cache_read E (GetCachedEndpoints n v))
      (\<lambda>found s. case found of
         Some es \<Rightarrow> client_sees C props I X s
           \<and> {e \<in> set es. epClusterId e = cpClusterId props} = own_of props (I (n, v))
       | None \<Rightarrow> client_sees C props I X s) R"
proof (rule triple_cache_read [OF laws, where P = "\<lambda>_. True", simplified])
  fix s s' now found
  assume s: "client_sees C props I X s" and g: "GetCachedEndpoints n v now (clCache s) = (found, clCache s')"
    and s': "client_sees C props I X s'"
  have "found = unexpired now (endpts_view (clCache s) (n, v))"
    using endpts_cache.get_value [of "clCache s" "(n, v)" now] client_seesD(1) [OF s] g k by simp
  moreover have "{e \<in> set es. epClusterId e = cpClusterId props} = own_of props (I (n, v))"
    if "endpts_view (clCache s) (n, v) = Some (es, t)" for es t
    using cache_rightD(5) [OF client_seesD(2) [OF s] k that] client_seesD(4) [OF s] by (simp add: endpoints_right_def)
  ultimately show "case found of Some es \<Rightarrow> client_sees C props I X s'
      \<and> {e \<in> set es. epClusterId e = cpClusterId props} = own_of props (I (n, v)) | None \<Rightarrow> client_sees C props I X s'"
    using s' by (auto simp: unexpired_def split: option.splits if_splits)
qed (rule cache_ops_forget)

lemma sees_moved_props:
  assumes "client_sees C props I X s" and "same_cloud C (clWorld s) w" and "coExports C w = coExports C (clWorld s)"
    and "props_within p props"
  shows "client_sees C props I X (s\<lparr>clProps := p, clWorld := w\<rparr>)"
  using sees_still [OF assms(1-3)] assms(4) by (simp add: client_sees_def coherent_def)

lemma client_properties_triple:
  assumes laws: "cloud_laws E C props"
  shows "triple (client_sees C props I X) (client_properties E) (\<lambda>p s. client_sees C props I X s \<and> p = props)
    (sees_or_absent C props I X K)"
proof (rule tripleI)
  fix s r s'
  assume s: "client_sees C props I X s" and "client_properties E s = (r, s')"
  then obtain p w where g: "GetClusterProperties (ceListProps E) (clProps s, clWorld s) = (r, p, w)"
    and s': "s' = s\<lparr>clProps := p, clWorld := w\<rparr>"
    by (auto simp: client_properties_def split: prod.splits)
  have lists: "lists_truly (ceListProps E) props" and ans: "answers (ceListProps E) (\<lambda>_ _. True)"
    using laws by (simp_all add: cloud_laws_def reads_truly_def)
  note d = GetClusterProperties_within [OF lists _ g, simplified, OF client_seesD(3) [OF s]]
  obtain l w1 where l: "ceListProps E (clWorld s) = (l, w1)" by fastforce
  have "same_cloud C (clWorld s) w" "coExports C w = coExports C (clWorld s)"
    using d(3) stillD [OF cloud_lawsD(2) [OF laws] l] l by (auto simp: same_cloud_def)
  from sees_moved_props [OF s this d(1)] have seen: "client_sees C props I X s'" by (simp add: s')
  have "\<not> errors_is_notFound e" if "r = Err e" for e
    using GetClusterProperties_Err [of "ceListProps E" "(clProps s, clWorld s)" e] g that ans by (auto simp: answers_def)
  then show "case r of Ok p \<Rightarrow> client_sees C props I X s' \<and> p = props | Err e \<Rightarrow> sees_or_absent C props I X K (Some e) s'
    | Panic \<Rightarrow> sees_or_absent C props I X K None s'"
    using seen d(2) by (cases r) (auto simp: sees_or_absent_def)
qed

lemma getEndpoints_triple:
  assumes laws: "cloud_laws E C props" and k: "plain_namespace (n, v)"
  shows "triple (client_sees C props I X) (getEndpoints E n v)
    (\<lambda>es s. client_sees C props I X s \<and> {e \<in> set es. epClusterId e = cpClusterId props} = own_of props (I (n, v)))
    (sees_or_absent C props I X K)"
proof -
  let ?sees = "client_sees C props I X" and ?R = "sees_or_absent C props I X K"
  let ?q = "set_query (cpClusterSetId props)"
  let ?own = "\<lambda>es. {e \<in> set es. epClusterId e = cpClusterId props} = own_of props (I (n, v))"
  let ?found = "\<lambda>insts. set insts = {instance_of i a |i a. fmlookup (I (n, v)) i = Some a
            \<and> fmlookup a ClusterSetIdAttr = Some (cpClusterSetId props)}"
  have read: "triple ?sees (cache_read E (GetCachedEndpoints n v))
      (\<lambda>found s. case found of Some es \<Rightarrow> ?sees s \<and> ?own es | None \<Rightarrow> ?sees s) ?R"
    by (rule cached_endpoints_triple [OF laws k])
  have discover: "triple ?sees (in_world (api_DiscoverInstances (ceApi E) n v ?q)) (\<lambda>insts s. ?sees s \<and> ?found insts) ?R"
    by (rule triple_still [OF cloud_lawsD(5) [OF laws] reads_trulyD(4) [OF laws], where P = "\<lambda>_. True", simplified])
      (auto simp: sees_or_absent_def client_sees_def)
  have decode: "triple (\<lambda>s. ?sees s \<and> ?found insts) (Pair (decode_instances insts)) (\<lambda>es s. ?sees s \<and> ?own es) ?R" for insts
  proof (rule tripleI)
    fix s r s'
    assume s: "?sees s \<and> ?found insts" and r: "(decode_instances insts, s) = (r, s')"
    then show "case r of Ok es \<Rightarrow> ?sees s' \<and> ?own es | Err e \<Rightarrow> ?R (Some e) s' | Panic \<Rightarrow> ?R None s'"
      using discovered_own [of insts _ "I (n, v)" props] decode_instances_not_Err [of insts]
      by (cases r) (auto simp: sees_or_absent_def)
  qed
  have store: "triple (\<lambda>s. ?sees s \<and> ?own es) (cache_write E (CacheEndpoints n v es)) (\<lambda>_ s. ?sees s \<and> ?own es) ?R" for es
  proof (rule triple_cache_write [OF laws])
    fix s s' now
    assume s: "?sees s \<and> ?own es" and c: "clCache s' = CacheEndpoints n v es now (clCache s)" and mv: "moved C s s'"
    then have "endpoints_right C props (clWorld s) (n, v) es" using client_seesD(4) unfolding endpoints_right_def by blast
    from put_endpoints_right [OF _ k this, of "clCache s" now] s c
    have "cache_right C props (clWorld s) (clCache s')" using client_seesD(2) by fastforce
    then show "?sees s' \<and> ?own es" using sees_put mv s by blast
  qed
  have rest: "triple ?sees (bind_ok (client_properties E) (\<lambda>p.
      bind_ok (in_world (api_DiscoverInstances (ceApi E) n v (set_query (cpClusterSetId p)))) (\<lambda>insts.
        bind_ok (Pair (decode_instances insts)) (\<lambda>es.
          bind_ok (cache_write E (CacheEndpoints n v es)) (\<lambda>_. return_value es))))) (\<lambda>es s. ?sees s \<and> ?own es) ?R"
  proof (rule triple_bind [OF client_properties_triple [OF laws]])
    fix p
    have "triple (\<lambda>s. ?sees s \<and> p = props) (in_world (api_DiscoverInstances (ceApi E) n v (set_query (cpClusterSetId p))))
        (\<lambda>insts s. ?sees s \<and> ?found insts) ?R"
      by (rule triple_fact) (use discover in simp)
    then show "triple (\<lambda>s. ?sees s \<and> p = props) (bind_ok (in_world (api_DiscoverInstances (ceApi E) n v
        (set_query (cpClusterSetId p)))) (\<lambda>insts. bind_ok (Pair (decode_instances insts)) (\<lambda>es.
          bind_ok (cache_write E (CacheEndpoints n v es)) (\<lambda>_. return_value es)))) (\<lambda>es s. ?sees s \<and> ?own es) ?R"
      by (rule triple_bind, intro triple_bind [OF decode] triple_bind [OF store]) (simp add: triple_return)
  qed
  show ?thesis
    unfolding getEndpoints_def
    by (rule triple_cached [OF read _ rest [unfolded set_query_def]]) (simp add: triple_return)
qed


lemma GetService_triple:
  assumes laws: "cloud_laws E C props" and k: "plain_namespace (n, v)"
  shows "triple (client_sees C props I X) (GetService E n v)
    (\<lambda>sv s. client_sees C props I X s \<and> svcNamespace sv = n \<and> svcName sv = v
       \<and> set (GetEndpoints sv (cpClusterId props)) = own_of props (I (n, v)))
    (sees_or_absent C props I X {(n, v)})"
  unfolding GetService_def
proof (rule triple_cached [OF cached_endpoints_triple [OF laws k]])
  let ?sees = "client_sees C props I X" and ?R = "sees_or_absent C props I X {(n, v)}"
  let ?own = "\<lambda>es. {e \<in> set es. epClusterId e = cpClusterId props} = own_of props (I (n, v))"
  let ?Q = "\<lambda>sv s. ?sees s \<and> svcNamespace sv = n \<and> svcName sv = v
       \<and> set (GetEndpoints sv (cpClusterId props)) = own_of props (I (n, v))"
  have hit: "triple (\<lambda>s. ?sees s \<and> ?own es) (return_value (make_service n v es)) ?Q ?R" for es
    by (rule triple_return) (simp add: make_service_def GetEndpoints_def)
  then show "triple (\<lambda>s. ?sees s \<and> ?own es) (return_value (make_service n v es)) ?Q ?R" for es .
  have "triple (\<lambda>s. ?sees s \<and> found_service C n v i s) (getEndpoints E n v) (\<lambda>es s. ?sees s \<and> ?own es) ?R" for i
    by (rule triple_conseq [OF getEndpoints_triple [OF laws k]]) simp_all
  then show "triple ?sees (bind_ok (getServiceId E n v) (\<lambda>_. bind_ok (getEndpoints E n v)
      (\<lambda>es. return_value (make_service n v es)))) ?Q ?R"
    by (rule triple_bind [OF getServiceId_triple [OF laws] triple_bind]) (rule hit)
qed

lemma keeps_triple:
  assumes "triple P f Q R" and "\<And>x s. Q x s \<Longrightarrow> P s" and "\<And>e s. R e s \<Longrightarrow> P s"
  shows "keeps P f"
proof (rule keepsI)
  fix s r s'
  assume "P s" "f s = (r, s')"
  then show "P s'" using tripleD [OF assms(1)] assms(2,3) by (cases r) blast+
qed

lemma keeps_reads:
  assumes laws: "cloud_laws E C props"
  shows "keeps (client_sees C props I X) (getNamespace E n)"
    and "keeps (client_sees C props I X) (getServiceIds E n)"
    and "plain_namespace (n, v) \<Longrightarrow> keeps (client_sees C props I X) (getEndpoints E n v)"
  by (rule keeps_triple [OF getNamespace_triple [OF laws]] keeps_triple [OF getServiceIds_triple [OF laws]]
      keeps_triple [OF getEndpoints_triple [OF laws, where K = "{}"]]; simp add: sees_or_absent_def)+

lemma keeps_list_loop:
  assumes "cloud_laws E C props" and k: "CHR '':'' \<notin> set n"
  shows "keeps (client_sees C props I X) (list_loop E n svcs)"
proof (induction svcs)
  case Nil
  show ?case by (simp add: keeps_def)
next
  case (Cons v svcs)
  have "list_loop E n (v # svcs) = bind_ok (getEndpoints E n v) (\<lambda>es.
      bind_ok (list_loop E n svcs) (\<lambda>svs. return_value (make_service n v es # svs)))"
    by (simp add: fun_eq_iff)
  with Cons k show ?case
    using keeps_reads(3) [OF assms(1)] by (auto simp: plain_namespace_def intro!: keeps_rules)
qed

lemma keeps_ListServices:
  assumes laws: "cloud_laws E C props" and k: "CHR '':'' \<notin> set n"
  shows "keeps (client_sees C props I X) (ListServices E n)"
proof (rule keepsI)
  fix s r s'
  assume s: "client_sees C props I X s" and r: "ListServices E n s = (r, s')"
  obtain r1 s1 where g: "getServiceIds E n s = (r1, s1)" by fastforce
  have s1: "client_sees C props I X s1" using keeps_reads(2) [OF laws] s g by (rule keepsD)
  show "client_sees C props I X s'"
    using r g s1 keepsD [OF keeps_list_loop [OF laws k] s1]
    by (cases r1) (auto simp: ListServices_def split: if_splits)
qed

subsection \<open>Creating services\<close>

lemma still_Poll:
  assumes "\<And>opId. still C (poll_condition get_op opId)"
  shows "still C (Poll get_op n opId)"
proof (induction n)
  case 0
  show ?case by (simp add: still_def same_cloud_def)
next
  case (Suc n)
  show ?case
    unfolding still_def
  proof
    fix w
    obtain r w1 where p: "poll_condition get_op opId w = (r, w1)" by fastforce
    note w1 = stillD [OF assms p]
    have "same_cloud C w1 (snd (Poll get_op n opId w1)) \<and> coExports C (snd (Poll get_op n opId w1)) = coExports C w1"
      using Suc by (simp add: still_def)
    then show "same_cloud C w (snd (Poll get_op (Suc n) opId w)) \<and> coExports C (snd (Poll get_op (Suc n) opId w)) = coExports C w"
      using p w1 by (auto simp: same_cloud_def split: outcome.splits option.splits)
  qed
qed

lemma keeps_grows: "grows C f \<Longrightarrow> keeps (client_sees C props I X) (in_world f)"
  using sees_grows by (fastforce simp: keeps_def in_world_def split: prod.splits)

lemma keeps_evict:
  assumes "\<And>c. cache_valid c \<Longrightarrow> forgets c (evict c)"
  shows "keeps (client_sees C props I X) (cache_evict evict)"
  using assms client_seesD(1) sees_forgets by (fastforce simp: keeps_def cache_evict_def)

lemma keeps_reader: "(\<And>a. keeps I (h a)) \<Longrightarrow> keeps I (\<lambda>s. h s s)"
  by (simp add: keeps_def)

lemma keeps_createNamespace:
  assumes laws: "cloud_laws E C props"
  shows "keeps (client_sees C props I X) (createNamespace E n)"
  unfolding createNamespace_def
proof (rule keeps_bind)
  fix opId
  have "keeps (client_sees C props I X)
      (bind_ok (in_world (Poll (api_GetOperation (ceApi E)) polls opId)) (\<lambda>op.
         bind_ok (cache_evict EvictNamespaceMap) (\<lambda>_.
           return_value \<lparr>nsId = aws_ToString (fmlookup (opTargets op) OperationTargetTypeNamespace),
             nsName = n, nsType = HttpNamespaceType\<rparr>)))" for polls
    by (intro keeps_bind keeps_grows keeps_evict keeps_return still_grows still_Poll cloud_lawsD(6) [OF laws]
        cache_ops_forget)
  then show "keeps (client_sees C props I X)
      (\<lambda>s. bind_ok (in_world (Poll (api_GetOperation (ceApi E)) (cePolls E (clWorld s) 0) opId)) (\<lambda>op.
         bind_ok (cache_evict EvictNamespaceMap) (\<lambda>_.
           return_value \<lparr>nsId = aws_ToString (fmlookup (opTargets op) OperationTargetTypeNamespace),
             nsName = n, nsType = HttpNamespaceType\<rparr>)) s)"
    by (rule keeps_reader)
qed (rule keeps_grows [OF cloud_lawsD(7) [OF laws]])

lemma keeps_CreateService:
  assumes laws: "cloud_laws E C props"
  shows "keeps (client_sees C props I X) (client_CreateService E n v)"
  unfolding client_CreateService_def
proof (rule keeps_bind)
  show "keeps (client_sees C props I X)
    (\<lambda>s. case getNamespace E n s of
          (Ok namespace, s') \<Rightarrow> (Ok namespace, s')
        | (Err e, s') \<Rightarrow> (if IsUnknown (Some e) then (Err e, s') else createNamespace E n s')
        | (Panic, s') \<Rightarrow> (Panic, s'))"
    using keeps_reads(1) [OF laws, of I X n] keeps_createNamespace [OF laws, of I X n]
    by (auto simp: keeps_def split: prod.splits outcome.splits)
qed (intro keeps_bind keeps_grows keeps_evict cloud_lawsD(8) [OF laws] cache_ops_forget)


section \<open>Writes\<close>

text \<open>
  A list of writes to the instances of one service: instance ids with their new attributes, or \<open>None\<close>.
  \<open>touched\<close>: from \<open>w0\<close> to \<open>w\<close> at most these writes were made.
\<close>

definition touched :: "'w cloud_observer \<Rightarrow> string \<Rightarrow> (string \<times> attrs option) list \<Rightarrow> 'w \<Rightarrow> 'w \<Rightarrow> bool" where
  "touched C svcId ws w0 w \<longleftrightarrow> coExports C w = coExports C w0
     \<and> coServiceId C w = coServiceId C w0 \<and> coNamespaceId C w = coNamespaceId C w0
     \<and> (\<forall>k. coServiceId C w0 k \<noteq> Some svcId \<longrightarrow> coInstances C w k = coInstances C w0 k)
     \<and> (\<forall>k i. fmlookup (coInstances C w k) i = fmlookup (coInstances C w0 k) i
          \<or> (i, fmlookup (coInstances C w k) i) \<in> set ws)"

lemma touched_refl: "touched C svcId ws w w"
  by (simp add: touched_def)

lemma touched_wrote:
  assumes "touched C svcId ws w0 w" and "wrote C svcId i v w w'" and "(i, v) \<in> set ws"
  shows "touched C svcId ws w0 w'"
proof -
  have "fmlookup (coInstances C w' k) j = fmlookup (coInstances C w0 k) j
      \<or> (j, fmlookup (coInstances C w' k) j) \<in> set ws" for k j
  proof (cases "j = i")
    case True
    then show ?thesis using assms unfolding touched_def wrote_def by metis
  next
    case False
    then show ?thesis using assms(1,2) unfolding touched_def wrote_def by metis
  qed
  then show ?thesis using assms(1,2) by (simp add: touched_def wrote_def del: split_paired_All)
qed

definition provides ::
  "'w cloud_observer \<Rightarrow> string \<Rightarrow> (string \<times> attrs option) list \<Rightarrow> ('w \<Rightarrow> string outcome \<times> 'w) list \<Rightarrow> bool" where
  "provides C svcId ws ps \<longleftrightarrow> list_all2 (\<lambda>(i, v) p. writes_instance C svcId i v p) ws ps"

lemma provides_nth:
  assumes "provides C svcId ws ps" and "j < length ps"
  shows "j < length ws" "writes_instance C svcId (fst (ws ! j)) (snd (ws ! j)) (ps ! j)"
  using assms list_all2_nthD2 [OF assms(1) [unfolded provides_def] assms(2)]
  by (auto simp: provides_def list_all2_lengthD case_prod_beta)

lemma provides_mem:
  assumes "provides C svcId ws ps" and "p \<in> set ps"
  obtains i v where "(i, v) \<in> set ws" "writes_instance C svcId i v p"
proof -
  from assms(2) obtain j where j: "j < length ps" "p = ps ! j" by (auto simp: in_set_conv_nth)
  show thesis
    using that [of "fst (ws ! j)" "snd (ws ! j)"] provides_nth [OF assms(1) j(1)] j(2) by simp
qed

lemma writes_instanceD:
  assumes "writes_instance C svcId i v f" and "f w = (r, w')"
  shows "r \<noteq> Panic" "wrote C svcId i v w w'" "r = Ok opId \<Longrightarrow> coAccepted C opId svcId i v w'"
    and "i' \<noteq> i \<or> v' = v \<Longrightarrow> coAccepted C opId' svcId i' v' w \<Longrightarrow> coAccepted C opId' svcId i' v' w'"
  using assms unfolding writes_instance_def by blast+

lemma operations_applyD:
  assumes "cloud_laws E C props"
  shows "writes_instance C svcId i (Some a) (api_RegisterInstance (ceApi E) svcId i a)"
    and "writes_instance C svcId i None (api_DeregisterInstance (ceApi E) svcId i)"
    and "fst (poll_condition (api_GetOperation (ceApi E)) opId w) \<noteq> Panic"
    and "coAccepted C opId svcId i v w \<Longrightarrow>
          coAccepted C opId svcId i v (snd (poll_condition (api_GetOperation (ceApi E)) opId' w))"
    and "\<lbrakk>coAccepted C opId svcId i v w; coServiceId C w k = Some svcId;
          poll_condition (api_GetOperation (ceApi E)) opId w = (Ok (Some op), w')\<rbrakk>
          \<Longrightarrow> fmlookup (coInstances C w' k) i = v"
  using assms unfolding cloud_laws_def operations_apply_def by (simp, simp, simp, simp, metis)

lemma providers_never_panic:
  assumes "cloud_laws E C props" and "provides C svcId ws ps"
  shows "api_never_panics (poller_of E ps w)"
  unfolding api_never_panics_def poller_of_def poller_env.simps
proof (intro conjI ballI allI operations_applyD(3) [OF assms(1)])
  fix p w
  assume "p \<in> set ps"
  then obtain i v where "writes_instance C svcId i v p" by (rule provides_mem [OF assms(2)])
  then show "fst (p w) \<noteq> Panic" using writes_instanceD(1) by (metis prod.collapse)
qed

lemma writes_touch:
  assumes laws: "cloud_laws E C props" and ps: "provides C svcId ws ps"
    and r: "SubmitAndAwait (poller_of E ps w0) sched w0 = (r, w')"
  shows "touched C svcId ws w0 w'"
proof -
  have "keeps (touched C svcId ws w0) (SubmitAndAwait (poller_of E ps w0) sched)"
  proof (rule keeps_SubmitAndAwait [OF providers_never_panic [OF laws ps]], unfold poller_of_def poller_env.simps)
    show "\<forall>p \<in> set ps. keeps (touched C svcId ws w0) p"
    proof
      fix p
      assume "p \<in> set ps"
      then obtain i v where "(i, v) \<in> set ws" "writes_instance C svcId i v p" by (rule provides_mem [OF ps])
      note iv = this
      show "keeps (touched C svcId ws w0) p"
      proof (rule keepsI)
        fix w r w'
        assume w: "touched C svcId ws w0 w" and p: "p w = (r, w')"
        show "touched C svcId ws w0 w'" by (rule touched_wrote [OF w writes_instanceD(2) [OF iv(2) p] iv(1)])
      qed
    qed
    have "touched C svcId ws w0 w2" if "touched C svcId ws w0 w1" "same_cloud C w1 w2" "coExports C w2 = coExports C w1" for w1 w2
      using that by (simp add: touched_def same_cloud_def)
    then show "\<forall>opId. keeps (touched C svcId ws w0) (poll_condition (api_GetOperation (ceApi E)) opId)"
      using stillD [OF cloud_lawsD(6) [OF laws]] by (intro allI keepsI) blast
  qed
  then show ?thesis using touched_refl r by (rule keepsD)
qed

lemma writes_effects:
  assumes laws: "cloud_laws E C props" and ps: "provides C svcId ws ps"
    and compat: "\<forall>a \<in> set ws. \<forall>b \<in> set ws. fst a = fst b \<longrightarrow> snd a = snd b"
  shows "operation_effects (poller_of E ps w)
    (\<lambda>j opId w. j < length ps \<longrightarrow> coServiceId C w k = Some svcId \<longrightarrow> coAccepted C opId svcId (fst (ws ! j)) (snd (ws ! j)) w)
    (\<lambda>j w. j < length ps \<longrightarrow> coServiceId C w k = Some svcId \<longrightarrow> fmlookup (coInstances C w k) (fst (ws ! j)) = snd (ws ! j))"
    (is "operation_effects _ ?pending ?applied")
proof -
  let ?poll = "poll_condition (api_GetOperation (ceApi E))"
  have p: "?pending j opId w \<longrightarrow> ?pending j opId (snd (p w))" "?applied j w \<longrightarrow> ?applied j (snd (p w))"
    if mem: "p \<in> set ps" for p j opId w
  proof -
    obtain i v where iv: "(i, v) \<in> set ws" "writes_instance C svcId i v p" by (rule provides_mem [OF ps mem])
    obtain r w' where w': "p w = (r, w')" by fastforce
    note d = writes_instanceD [OF iv(2) w']
    have other: "fst (ws ! j) \<noteq> i \<or> snd (ws ! j) = v" if "j < length ps"
      using compat iv(1) nth_mem [OF provides_nth(1) [OF ps that]] by fastforce
    have id: "coServiceId C w' = coServiceId C w" using d(2) by (simp add: wrote_def)
    show "?pending j opId w \<longrightarrow> ?pending j opId (snd (p w))" using d(4) [OF other] id w' by simp
    show "?applied j w \<longrightarrow> ?applied j (snd (p w))" using other d(2) id w' unfolding wrote_def by (metis snd_conv)
  qed
  have poll: "?pending j opId w \<longrightarrow> ?pending j opId (snd (?poll opId' w))" "?applied j w \<longrightarrow> ?applied j (snd (?poll opId' w))"
    for j opId opId' w
    using stillD(1) [OF cloud_lawsD(6) [OF laws, of opId'] surjective_pairing, of w] operations_applyD(4) [OF laws]
    by (simp_all add: same_cloud_def)
  show ?thesis
    unfolding operation_effects_def poller_of_def poller_env.simps
  proof (intro conjI allI impI ballI)
    fix i w opId w'
    assume "i < length ps" "(ps ! i) w = (Ok opId, w')" "coServiceId C w' k = Some svcId"
    then show "coAccepted C opId svcId (fst (ws ! i)) (snd (ws ! i)) w'"
      using writes_instanceD(3) [OF provides_nth(2) [OF ps]] by blast
  next
    fix i opId w op w'
    assume "?pending i opId w" "?poll opId w = (Ok (Some op), w')" "i < length ps" "coServiceId C w' k = Some svcId"
    moreover from this have "coServiceId C w k = Some svcId"
      using stillD(1) [OF cloud_lawsD(6) [OF laws]] by (simp add: same_cloud_def)
    ultimately show "fmlookup (coInstances C w' k) (fst (ws ! i)) = snd (ws ! i)"
      using operations_applyD(5) [OF laws] by blast
  qed (use p poll in blast)+
qed

lemma writes_applied:
  assumes laws: "cloud_laws E C props" and ps: "provides C svcId ws ps"
    and compat: "\<forall>a \<in> set ws. \<forall>b \<in> set ws. fst a = fst b \<longrightarrow> snd a = snd b"
    and ok: "SubmitAndAwait (poller_of E ps w0) sched w0 = (Ok (), w')"
    and k: "coServiceId C w0 k = Some svcId" and iv: "(i, v) \<in> set ws"
  shows "fmlookup (coInstances C w' k) i = v"
proof -
  have len: "length ps = length ws" using ps by (simp add: provides_def list_all2_lengthD)
  from iv obtain j where j: "j < length ps" "ws ! j = (i, v)" by (auto simp: in_set_conv_nth len)
  have "coServiceId C w' k = Some svcId" using writes_touch [OF laws ps ok] k by (simp add: touched_def)
  then show ?thesis
    using SubmitAndAwait_applied [OF writes_effects [OF laws ps compat] providers_never_panic [OF laws ps] ok, of j] j
    by (simp add: poller_of_def)
qed


subsection \<open>Registering and de-registering\<close>

lemma own_touched:
  assumes "well_founded_cloud C" and "coServiceId C w0 k = Some svcId" and "touched C svcId ws w0 w" and "k' \<noteq> k"
  shows "coInstances C w k' = coInstances C w0 k'" and "own C props w k' = own C props w0 k'"
proof -
  have "coServiceId C w0 k' \<noteq> Some svcId" using assms(1,2,4) unfolding well_founded_cloud_def by metis
  then show "coInstances C w k' = coInstances C w0 k'" using assms(3) by (simp add: touched_def del: split_paired_All)
  then show "own C props w k' = own C props w0 k'" by (simp add: own_def)
qed

text \<open>
  After writes to a service the cache is right again, because the entry of the service has been evicted
  and the cached tables list the service.
\<close>

lemma coherent_after_writes:
  assumes wf: "well_founded_cloud C" and s: "coherent C props s" and found: "found_service C n v svcId s"
    and t: "touched C svcId ws (clWorld s) w" and k: "plain_namespace (n, v)"
  shows "coherent C props (s\<lparr>clCache := EvictEndpoints n v (clCache s), clWorld := w\<rparr>)"
proof -
  let ?w = "clWorld s" and ?c = "clCache s" and ?c' = "EvictEndpoints n v (clCache s)"
  have right: "cache_right C props ?w ?c" using s by (simp add: coherent_def)
  note r = cache_rightD [OF right]
  have f: "forgets ?c ?c'" using r(1) by (rule cache_ops_forget)
  note f' = forgetsD [OF f]
  have ids: "coServiceId C w = coServiceId C ?w" "coNamespaceId C w = coNamespaceId C ?w" using t by (simp_all add: touched_def)
  have id: "coServiceId C ?w (n, v) = Some svcId" using found by (simp add: found_service_def)
  note same = own_touched(2) [OF wf id t, of _ props]
  obtain svcs where svcs: "fmlookup svcs v = Some svcId" "knows_ids n svcs s" using found by (auto simp: found_service_def)
  have "namespaces_right C props w m" if m: "ns_view ?c' () = Some (m, e)" for m e
  proof -
    have listed: "fmlookup m n \<noteq> None" using svcs(2) f'(1) [OF m] by (auto simp: knows_ids_def lists_namespace_def)
    have "own C props w (n', v') = own C props ?w (n', v')" if "fmlookup m n' = None" for n' v'
      by (rule same) (use listed that in auto)
    then show ?thesis using r(2) [OF f'(1) [OF m]] ids by (simp add: namespaces_right_def)
  qed
  moreover have "svc_view ?c' n' = None" if "ns_view ?c' () = Some (m, e)" "fmlookup m n' = None" for m e n'
    using r(3) [OF f'(1) [OF that(1)] that(2)] by (rule f'(4))
  moreover have "service_ids_right C props w n' m" if m: "svc_view ?c' n' = Some (m, e)" for n' m e
  proof -
    have "(n', v') \<noteq> (n, v)" if "fmlookup m v' = None" for v'
      using that svcs f'(2) [OF m] by (auto simp: knows_ids_def)
    then have "own C props w (n', v') = own C props ?w (n', v')" if "fmlookup m v' = None" for v'
      using same [of "(n', v')"] that by simp
    then show ?thesis using r(4) [OF f'(2) [OF m]] ids by (simp add: service_ids_right_def)
  qed
  moreover have "endpoints_right C props w k' es" if "plain_namespace k'" "endpts_view ?c' k' = Some (es, e)" for k' es e
  proof -
    have "k' \<noteq> (n, v)" using endpts_cache.evict_same [OF r(1) k] that(2) by auto
    then show ?thesis using same [of k'] r(5) [OF that(1) f'(3) [OF that(2)]] by (simp add: endpoints_right_def)
  qed
  moreover have "cache_valid ?c'" using f by (simp add: forgets_def)
  ultimately have "cache_right C props w ?c'" unfolding cache_right_def by blast
  then show ?thesis using s by (simp add: coherent_def)
qed

text \<open>What the calls that write show to the controllers.\<close>

lemma run_operations_writes:
  assumes laws: "cloud_laws E C props" and s: "coherent C props s" and found: "found_service C n v svcId s"
    and k: "plain_namespace (n, v)" and ps: "provides C svcId ws ps"
    and r: "run_operations E n v msg ps s = (r, s')"
  shows "coherent C props s'" and "touched C svcId ws (clWorld s) (clWorld s')"
    and "\<lbrakk>r = Ok (); \<forall>a \<in> set ws. \<forall>b \<in> set ws. fst a = fst b \<longrightarrow> snd a = snd b; (i, x) \<in> set ws\<rbrakk>
      \<Longrightarrow> fmlookup (coInstances C (clWorld s') (n, v)) i = x"
proof -
  let ?w = "clWorld s"
  obtain r1 w where sub: "SubmitAndAwait (poller_of E ps ?w) (ceSchedule E ?w) ?w = (r1, w)" by fastforce
  with r have s': "s' = s\<lparr>clCache := EvictEndpoints n v (clCache s), clWorld := w\<rparr>" and ok: "r = Ok () \<Longrightarrow> r1 = Ok ()"
    by (auto simp: run_operations_def in_world_def split: outcome.splits)
  have t: "touched C svcId ws ?w w" using writes_touch [OF laws ps sub] .
  show "coherent C props s'"
    unfolding s' by (rule coherent_after_writes [OF reads_trulyD(1) [OF laws] s found t k])
  show "touched C svcId ws (clWorld s) (clWorld s')" using t s' by simp
  have id: "coServiceId C ?w (n, v) = Some svcId" using found by (simp add: found_service_def)
  show "fmlookup (coInstances C (clWorld s') (n, v)) i = x"
    if "r = Ok ()" "\<forall>a \<in> set ws. \<forall>b \<in> set ws. fst a = fst b \<longrightarrow> snd a = snd b" "(i, x) \<in> set ws"
    using writes_applied [OF laws ps that(2) _ id that(3), of "ceSchedule E ?w" w] sub ok [OF that(1)] s' by simp
qed

text \<open>
  A call that looks a service up and writes to it, as \<open>RegisterEndpoints\<close> and \<open>DeleteEndpoints\<close> do: \<open>ps\<close>
  are the providers of the writes \<open>ws\<close>.
\<close>

lemma write_call:
  assumes laws: "cloud_laws E C props" and s: "coherent C props s" and k: "plain_namespace (n, v)"
    and ps: "\<And>svcId. provides C svcId ws (ps svcId)"
    and r: "(if ws = [] then (Ok (), s)
      else bind_ok (getServiceId E n v) (\<lambda>svcId. run_operations E n v msg (ps svcId)) s) = (r, s')"
  shows "coherent C props s'" and "coExports C (clWorld s') = coExports C (clWorld s)"
    and "\<forall>k. k \<noteq> (n, v) \<longrightarrow> coInstances C (clWorld s') k = coInstances C (clWorld s) k"
    and "\<forall>i. fmlookup (coInstances C (clWorld s') (n, v)) i = fmlookup (coInstances C (clWorld s) (n, v)) i
      \<or> (i, fmlookup (coInstances C (clWorld s') (n, v)) i) \<in> set ws"
    and "\<lbrakk>r = Ok (); \<forall>a \<in> set ws. \<forall>b \<in> set ws. fst a = fst b \<longrightarrow> snd a = snd b; (i, x) \<in> set ws\<rbrakk>
      \<Longrightarrow> fmlookup (coInstances C (clWorld s') (n, v)) i = x"
proof -
  let ?I = "coInstances C (clWorld s)" and ?X = "coExports C (clWorld s)"
  let ?goal = "coherent C props s' \<and> coExports C (clWorld s') = ?X
    \<and> (\<forall>k. k \<noteq> (n, v) \<longrightarrow> coInstances C (clWorld s') k = ?I k)
    \<and> (\<forall>i. fmlookup (coInstances C (clWorld s') (n, v)) i = fmlookup (?I (n, v)) i
        \<or> (i, fmlookup (coInstances C (clWorld s') (n, v)) i) \<in> set ws)
    \<and> (r = Ok () \<longrightarrow> (\<forall>a \<in> set ws. \<forall>b \<in> set ws. fst a = fst b \<longrightarrow> snd a = snd b) \<longrightarrow> (i, x) \<in> set ws
        \<longrightarrow> fmlookup (coInstances C (clWorld s') (n, v)) i = x)"
  have sees: "client_sees C props ?I ?X s" using s by (simp add: client_sees_def)
  obtain r0 s0 where g: "getServiceId E n v s = (r0, s0)" by fastforce
  note d = tripleD [OF getServiceId_triple [OF laws] sees g]
  have ?goal
  proof (cases "ws = []")
    case True
    then show ?thesis using r s by simp
  next
    case False
    show ?thesis
    proof (cases r0)
      case (Ok svcId)
      then have run: "run_operations E n v msg (ps svcId) s0 = (r, s')" using r g False by simp
      have s0: "client_sees C props ?I ?X s0" and found: "found_service C n v svcId s0" using d(1) [OF Ok] by blast+
      have id: "coServiceId C (clWorld s0) (n, v) = Some svcId" using found by (simp add: found_service_def)
      note w = run_operations_writes [OF laws client_seesD(5) [OF s0] found k ps run]
      note seen = client_seesD(6,7) [OF s0]
      have b: "coExports C (clWorld s') = ?X" using w(2) seen(2) by (simp add: touched_def)
      have c: "coInstances C (clWorld s') k' = ?I k'" if "k' \<noteq> (n, v)" for k'
        using own_touched(1) [OF reads_trulyD(1) [OF laws] id w(2) that] seen(1) by simp
      have e: "fmlookup (coInstances C (clWorld s') (n, v)) j = fmlookup (?I (n, v)) j
          \<or> (j, fmlookup (coInstances C (clWorld s') (n, v)) j) \<in> set ws" for j
        using w(2) [unfolded touched_def] unfolding seen(1) by blast
      show ?thesis using w(1,3) b c e by blast
    next
      case (Err e)
      then have "s' = s0" "r = Err e" using r g False by simp_all
      then show ?thesis using d(2) [OF Err] by (auto simp: sees_or_absent_def client_sees_def)
    next
      case Panic
      then have "s' = s0" "r = Panic" using r g False by simp_all
      then show ?thesis using d(3) [OF Panic] by (auto simp: sees_or_absent_def client_sees_def)
    qed
  qed
  then show "coherent C props s'" and "coExports C (clWorld s') = ?X"
    and "\<forall>k. k \<noteq> (n, v) \<longrightarrow> coInstances C (clWorld s') k = ?I k"
    and "\<forall>i. fmlookup (coInstances C (clWorld s') (n, v)) i = fmlookup (?I (n, v)) i
      \<or> (i, fmlookup (coInstances C (clWorld s') (n, v)) i) \<in> set ws"
    and "\<lbrakk>r = Ok (); \<forall>a \<in> set ws. \<forall>b \<in> set ws. fst a = fst b \<longrightarrow> snd a = snd b; (i, x) \<in> set ws\<rbrakk>
      \<Longrightarrow> fmlookup (coInstances C (clWorld s') (n, v)) i = x"
    by blast+
qed


text \<open>The endpoints of the cluster set that are registered for a service, by instance id.\<close>

definition registry_view ::
  "'w cloud_observer \<Rightarrow> cluster_properties \<Rightarrow> ('c, 'w) client \<Rightarrow> string \<times> string \<Rightarrow> (string, endpoint) fmap" where
  "registry_view C props s k = endpoints_of_instances (cpClusterSetId props) (coInstances C (clWorld s) k)"

lemma own_of_view:
  "own_of props (coInstances C (clWorld s) k)
     = {e. fmlookup (registry_view C props s k) (epId e) = Some e \<and> epClusterId e = cpClusterId props}"
  by (simp add: own_of_def registry_view_def)

definition fits_registry :: "cluster_properties \<Rightarrow> endpoint \<Rightarrow> bool" where
  "fits_registry props e \<longleftrightarrow> registrable e \<and> epClusterSetId e = cpClusterSetId props"

lemma register_providers_provide:
  assumes "cloud_laws E C props"
  shows "provides C svcId (map (\<lambda>e. (epId e, Some (GetCloudMapAttributes e))) es) (register_providers E svcId es)"
  using operations_applyD(1) [OF assms] by (simp add: provides_def list_all2_map1 list_all2_map2 list_all2_same)

lemma deregister_providers_provide:
  assumes "cloud_laws E C props"
  shows "provides C svcId (map (\<lambda>e. (epId e, None)) es)
    (map (\<lambda>e. api_DeregisterInstance (ceApi E) svcId (epId e)) es)"
  using operations_applyD(2) [OF assms] by (simp add: provides_def list_all2_map1 list_all2_map2 list_all2_same)

text \<open>\<open>RegisterEndpoints\<close> and \<open>DeleteEndpoints\<close> refine registering and de-registering in a map.\<close>

lemma RegisterEndpoints_contract:
  assumes laws: "cloud_laws E C props" and s: "coherent C props s" and k: "plain_namespace (n, v)"
    and r: "RegisterEndpoints E n v es s = (r, s')"
  shows "coherent C props s'" and "coExports C (clWorld s') = coExports C (clWorld s)"
    and "\<forall>k. k \<noteq> (n, v) \<longrightarrow> registry_view C props s' k = registry_view C props s k"
    and "\<lbrakk>r = Ok (); \<forall>e \<in> set es. fits_registry props e; distinct (map epId es)\<rbrakk>
      \<Longrightarrow> registry_view C props s' (n, v) = registered (registry_view C props s (n, v)) es"
proof -
  let ?ws = "map (\<lambda>e. (epId e, Some (GetCloudMapAttributes e))) es"
  from r have call: "(if ?ws = [] then (Ok (), s) else bind_ok (getServiceId E n v) (\<lambda>svcId.
      run_operations E n v ''failure while registering endpoints'' (register_providers E svcId es)) s) = (r, s')"
    by (simp add: RegisterEndpoints_def)
  note w = write_call [OF laws s k register_providers_provide [OF laws] call]
  show "coherent C props s'" "coExports C (clWorld s') = coExports C (clWorld s)" by (rule w(1,2))+
  show "\<forall>k. k \<noteq> (n, v) \<longrightarrow> registry_view C props s' k = registry_view C props s k"
    using w(3) by (simp add: registry_view_def del: split_paired_All)
  assume ok: "r = Ok ()" and fits: "\<forall>e \<in> set es. fits_registry props e" and d: "distinct (map epId es)"
  have compat: "\<forall>a \<in> set ?ws. \<forall>b \<in> set ?ws. fst a = fst b \<longrightarrow> snd a = snd b"
    using same_id_same_endpoint [OF d] by auto
  show "registry_view C props s' (n, v) = registered (registry_view C props s (n, v)) es"
  proof (rule fmap_ext)
    fix i
    show "fmlookup (registry_view C props s' (n, v)) i = fmlookup (registered (registry_view C props s (n, v)) es) i"
    proof (cases "i \<in> epId ` set es")
      case True
      then obtain e where e: "e \<in> set es" "i = epId e" by blast
      then have "fmlookup (coInstances C (clWorld s') (n, v)) i = Some (GetCloudMapAttributes e)"
        using w(5) [OF ok compat, of i "Some (GetCloudMapAttributes e)"] by auto
      moreover have "fmlookup (registered (registry_view C props s (n, v)) es) i = Some e"
        using registered_member [OF e(1) same_id_same_endpoint [OF d _ e(1)]] e(2) by simp
      ultimately show ?thesis
        using endpoint_of_registered [of e "cpClusterSetId props"] fits e by (simp add: registry_view_def fits_registry_def)
    next
      case False
      then have "fmlookup (coInstances C (clWorld s') (n, v)) i = fmlookup (coInstances C (clWorld s) (n, v)) i"
        using w(4) by force
      then show ?thesis using registered_other [OF False] by (simp add: registry_view_def)
    qed
  qed
qed

lemma DeleteEndpoints_contract:
  assumes laws: "cloud_laws E C props" and s: "coherent C props s" and k: "plain_namespace (n, v)"
    and r: "DeleteEndpoints E n v es s = (r, s')"
  shows "coherent C props s'" and "coExports C (clWorld s') = coExports C (clWorld s)"
    and "\<forall>k. k \<noteq> (n, v) \<longrightarrow> registry_view C props s' k = registry_view C props s k"
    and "r = Ok () \<Longrightarrow> registry_view C props s' (n, v) = deregistered (registry_view C props s (n, v)) es"
    and "fmlookup (registry_view C props s' (n, v)) i = fmlookup (registry_view C props s (n, v)) i
      \<or> fmlookup (registry_view C props s' (n, v)) i = None"
proof -
  let ?ws = "map (\<lambda>e. (epId e, None :: attrs option)) es"
  from r have call: "(if ?ws = [] then (Ok (), s) else bind_ok (getServiceId E n v) (\<lambda>svcId.
      run_operations E n v ''failure while de-registering endpoints''
        (map (\<lambda>e. api_DeregisterInstance (ceApi E) svcId (epId e)) es)) s) = (r, s')"
    by (simp add: DeleteEndpoints_def)
  note w = write_call [OF laws s k deregister_providers_provide [OF laws] call]
  show "coherent C props s'" "coExports C (clWorld s') = coExports C (clWorld s)" by (rule w(1,2))+
  show "\<forall>k. k \<noteq> (n, v) \<longrightarrow> registry_view C props s' k = registry_view C props s k"
    using w(3) by (simp add: registry_view_def del: split_paired_All)
  show "fmlookup (registry_view C props s' (n, v)) i = fmlookup (registry_view C props s (n, v)) i
      \<or> fmlookup (registry_view C props s' (n, v)) i = None"
    using w(4) by (auto simp: registry_view_def dest: spec [of _ i])
  assume ok: "r = Ok ()"
  show "registry_view C props s' (n, v) = deregistered (registry_view C props s (n, v)) es"
  proof (rule fmap_ext)
    fix i
    show "fmlookup (registry_view C props s' (n, v)) i = fmlookup (deregistered (registry_view C props s (n, v)) es) i"
    proof (cases "i \<in> epId ` set es")
      case True
      then have "fmlookup (coInstances C (clWorld s') (n, v)) i = None"
        by (intro w(5) [OF ok]) auto
      then show ?thesis using True by (simp add: registry_view_def lookup_deregistered)
    next
      case False
      then have "fmlookup (coInstances C (clWorld s') (n, v)) i = fmlookup (coInstances C (clWorld s) (n, v)) i"
        using w(4) by force
      then show ?thesis using False by (simp add: registry_view_def lookup_deregistered)
    qed
  qed
qed

section \<open>What others do\<close>

text \<open>
  The invariant survives what the rest of the world does, as long as it neither changes the endpoints
  of this cluster nor renames namespaces and services: other clusters may register and de-register
  their endpoints and create services, and users may change their exports.
\<close>

lemma coherent_others:
  assumes "coherent C props s" and "later C props (clWorld s) w"
  shows "coherent C props (s\<lparr>clWorld := w\<rparr>)"
  using assms cache_right_later [OF assms(2), of "clCache s"] by (simp add: coherent_def)

text \<open>A new client is coherent: it has read no properties and cached nothing.\<close>

lemma coherent_new:
  assumes "lru_laws L"
  shows "coherent C props (NewDefaultServiceDiscoveryClient L empty_properties w)"
proof -
  let ?c = "NewDefaultServiceDiscoveryClientCache L"
  have "ns_view ?c () = None"
    using assms by (simp add: ns_view_def NewDefaultServiceDiscoveryClientCache_def NewServiceDiscoveryClientCache_def lru_lawsD)
  then show ?thesis
    using new_cache_empty [OF assms]
    by (simp add: coherent_def cache_right_def NewDefaultServiceDiscoveryClient_def
        NewDefaultServiceDiscoveryClientCache_def props_within_def empty_properties_def)
qed

end
