(* ===== verification/ImportCalls.thy ===== *)
theory ImportCalls
  imports ImportState
begin

text \<open>
  The import controller touches the world through its two clients only: what each of their calls keeps, a
  whole round keeps, whatever fails on the way. The Cloud Map client is only asked for the services of
  namespaces that the API server has listed.
\<close>

section \<open>The calls of the import controller\<close>

definition import_calls_keep :: "'w reconciler \<Rightarrow> ('w \<Rightarrow> bool) \<Rightarrow> bool" where
  "import_calls_keep R I \<longleftrightarrow> (let K = reClient R in
     keeps I (kListNamespaces K) \<and> keeps I (kListClusterProperties K)
     \<and> (\<forall>k. keeps I (kGetServiceImport K k)) \<and> (\<forall>k. keeps I (kGetService K k))
     \<and> (\<forall>n. keeps I (kListServiceImports K n)) \<and> (\<forall>n l. keeps I (kListServices K n l))
     \<and> (\<forall>n l. keeps I (kListEndpointSlices K n l))
     \<and> (\<forall>x. keeps I (kCreateServiceImport K x)) \<and> (\<forall>x. keeps I (kUpdateServiceImport K x))
     \<and> (\<forall>x. keeps I (kDeleteServiceImport K x)) \<and> (\<forall>x. keeps I (kCreateService K x))
     \<and> (\<forall>x. keeps I (kUpdateService K x)) \<and> (\<forall>x. keeps I (kDeleteService K x))
     \<and> (\<forall>x. keeps I (kCreateEndpointSlice K x)) \<and> (\<forall>x. keeps I (kUpdateEndpointSlice K x))
     \<and> (\<forall>x. keeps I (kDeleteEndpointSlice K x)) \<and> (\<forall>n l. keeps I (kDeleteAllOfEndpointSlices K n l)))"

lemma import_calls:
  assumes "import_calls_keep R I"
  shows "keeps (\<lambda>s. I (snd s)) (on_world (kListNamespaces (reClient R)))"
    and "keeps (\<lambda>s. I (snd s)) (on_world (kGetServiceImport (reClient R) k))"
    and "keeps (\<lambda>s. I (snd s)) (on_world (kGetService (reClient R) k))"
    and "keeps (\<lambda>s. I (snd s)) (on_world (kListServiceImports (reClient R) n))"
    and "keeps (\<lambda>s. I (snd s)) (on_world (kListServices (reClient R) n l))"
    and "keeps (\<lambda>s. I (snd s)) (on_world (kListEndpointSlices (reClient R) n l))"
    and "keeps (\<lambda>s. I (snd s)) (on_world (kCreateServiceImport (reClient R) si))"
    and "keeps (\<lambda>s. I (snd s)) (on_world (kUpdateServiceImport (reClient R) si))"
    and "keeps (\<lambda>s. I (snd s)) (on_world (kDeleteServiceImport (reClient R) si))"
    and "keeps (\<lambda>s. I (snd s)) (on_world (kCreateService (reClient R) d))"
    and "keeps (\<lambda>s. I (snd s)) (on_world (kUpdateService (reClient R) d))"
    and "keeps (\<lambda>s. I (snd s)) (on_world (kDeleteService (reClient R) d))"
    and "keeps (\<lambda>s. I (snd s)) (on_world (kCreateEndpointSlice (reClient R) sl))"
    and "keeps (\<lambda>s. I (snd s)) (on_world (kUpdateEndpointSlice (reClient R) sl))"
    and "keeps (\<lambda>s. I (snd s)) (on_world (kDeleteEndpointSlice (reClient R) sl))"
    and "keeps (\<lambda>s. I (snd s)) (on_world (kDeleteAllOfEndpointSlices (reClient R) n l))"
  using assms by (auto simp: import_calls_keep_def Let_def intro: keeps_on_world simp del: split_paired_All)

section \<open>What a round keeps\<close>

lemma keeps_update_slices:
  assumes "import_calls_keep R I"
  shows "keeps (\<lambda>s. I (snd s)) (update_slices R rs h)"
proof (rule keepsI)
  fix s r s' assume "I (snd s)" and "update_slices R rs h s = (r, s')"
  then show "I (snd s')"
  proof (induction rs arbitrary: h s)
    case (Cons x rs)
    obtain q s1 where q: "on_world (kUpdateEndpointSlice (reClient R) (h ! x)) s = (q, s1)" by (rule prod.exhaust)
    have "I (snd s1)" using keepsD [OF import_calls(14) [OF assms] Cons.prems(1) q] .
    with q Cons show ?case by (cases q) auto
  qed simp
qed

lemma keeps_updateEndpointSlices:
  assumes calls: "import_calls_keep R I"
  shows "keeps (\<lambda>s. I (snd s)) (updateEndpointSlices R si es svc c)"
proof -
  have a: "keeps (\<lambda>s. I (snd s)) (apply_slice_changes R ch h)" for ch h
    unfolding apply_slice_changes_def
    by (intro keeps_bind keeps_each_slice keeps_update_slices [OF calls] import_calls [OF calls])
  have "keeps (\<lambda>s. I (snd s)) (\<lambda>s. case f s of Some (Ok c, h) \<Rightarrow> apply_slice_changes R c h s
      | Some (Err e, h) \<Rightarrow> (Err e, s) | Some (Panic, h) \<Rightarrow> (Panic, s) | None \<Rightarrow> (Panic, s))"
    for f :: "'a reconciler_state \<Rightarrow> (slice_changes outcome \<times> slices) option"
    using a by (auto simp: keeps_def split: option.splits outcome_splits)
  then show ?thesis
    unfolding updateEndpointSlices_def by (intro keeps_bind import_calls [OF calls])
qed

lemma keeps_reconcile_cluster:
  assumes calls: "import_calls_keep R I"
  shows "keeps (\<lambda>s. I (snd s)) (reconcile_cluster R svc si m c)"
proof -
  have "keeps (\<lambda>s. I (snd s)) (bind_ok (get_or_create (getDerivedService R (svcNamespace svc) (svcName svc) c)
          (createAndGetDerivedService R si c ports)) (\<lambda>d.
        bind_ok (updateDerivedService R d ports) (\<lambda>d'.
          bind_ok (updateEndpointSlices R si es d' c) (\<lambda>_. return_value d'))))" for ports es
    unfolding createAndGetDerivedService_def getDerivedService_def updateDerivedService_def
    by (intro kept_intros import_calls [OF calls] keeps_updateEndpointSlices [OF calls])
  then show ?thesis unfolding reconcile_cluster_def Let_def by (simp add: keeps_def)
qed

lemma keeps_clusters_loop:
  assumes "import_calls_keep R I"
  shows "keeps (\<lambda>s. I (snd s)) (clusters_loop R svc si m cs)"
  by (induction cs) (auto intro!: keeps_bind keeps_return keeps_reconcile_cluster [OF assms])

lemma keeps_delete_stale:
  assumes calls: "import_calls_keep R I"
  shows "keeps (\<lambda>s. I (snd s)) (delete_stale R m ds)"
proof (induction ds)
  case (Cons d ds)
  have "keeps (\<lambda>s. I (snd s)) (DeleteDerivedServiceAndEndpointSlices R d)"
    unfolding DeleteDerivedServiceAndEndpointSlices_def by (intro keeps_bind import_calls [OF calls])
  with Cons show ?case by (auto intro!: keeps_bind keeps_return split: option.split)
qed (simp add: keeps_return)

lemma keeps_updateServiceImport:
  assumes calls: "import_calls_keep R I"
  shows "keeps (\<lambda>s. I (snd s)) (updateServiceImport R si ds ports)"
  unfolding updateServiceImport_def Let_def
  by (intro keeps_if keeps_bind keeps_return import_calls [OF calls])

lemma keeps_reconcileService:
  assumes calls: "import_calls_keep R I"
  shows "keeps (\<lambda>s. I (snd s)) (reconcileService R svc)"
proof -
  have "keeps (\<lambda>s. I (snd s)) (bind_ok (get_or_create (getServiceImport R (svcNamespace svc) (svcName svc))
        (createAndGetServiceImport R svc ports cs)) (\<lambda>svcImport.
      bind_ok (clusters_loop R svc svcImport m cs) (\<lambda>derivedServices.
        bind_ok (on_world (kListServices (reClient R) (omNamespace (siMeta svcImport))
            (LabelDerivedServiceOriginatingName, omName (siMeta svcImport)))) (\<lambda>existing.
          bind_ok (delete_stale R m existing) (\<lambda>_.
            updateServiceImport R svcImport derivedServices ports)))))" for ports cs m
    unfolding createAndGetServiceImport_def getServiceImport_def
    by (intro kept_intros import_calls [OF calls] keeps_clusters_loop [OF calls] keeps_delete_stale [OF calls]
        keeps_updateServiceImport [OF calls])
  then show ?thesis unfolding reconcileService_def Let_def by (simp add: keeps_def)
qed

lemma keeps_reconcileNamespace:
  assumes calls: "import_calls_keep R I" and list: "keeps I (sdListServices (reCloudMap R) n)"
  shows "keeps (\<lambda>s. I (snd s)) (reconcileNamespace R n)"
  unfolding reconcileNamespace_def
proof (intro keeps_bind keeps_on_world [OF list] import_calls [OF calls] keeps_collect_errors
    keeps_reconcileService [OF calls])
  fix svcs existing and err :: "goerror option"
  have "keeps (\<lambda>s. I (snd s)) (bind_ok (collect_errors (\<lambda>i. on_world (kDeleteServiceImport (reClient R) i)) is err)
      (\<lambda>err'. Pair (error_result err')))" for "is"
    by (intro keeps_bind keeps_return keeps_collect_errors import_calls [OF calls])
  then show "keeps (\<lambda>s. I (snd s)) (\<lambda>s. let rest = foldl (\<lambda>m svc. fmdrop (svcName svc) m) (existing_imports existing)
        (listed_services svcs)
      in bind_ok (collect_errors (\<lambda>i. on_world (kDeleteServiceImport (reClient R) i))
            (map_values (reOrder R (snd s)) rest) err) (\<lambda>err'. Pair (error_result err')) s)"
    by (simp add: keeps_def)
qed

lemma keeps_ReconcileCloudMap:
  assumes calls: "import_calls_keep R I"
    and named: "\<And>w ns. fst (kListNamespaces (reClient R) w) = Ok ns \<Longrightarrow> \<forall>n \<in> set ns. ok n"
    and list: "\<And>n. ok n \<Longrightarrow> keeps I (sdListServices (reCloudMap R) n)"
  shows "keeps (\<lambda>s. I (snd s)) (ReconcileCloudMap R)"
  unfolding ReconcileCloudMap_def
proof (rule keeps_bind)
  show "keeps (\<lambda>s. I (snd s)) (reconciler_properties R)"
    by (rule keeps_reconciler_properties) (use calls in \<open>simp add: import_calls_keep_def Let_def\<close>)
  fix cp
  show "keeps (\<lambda>s. I (snd s)) (bind_ok (on_world (kListNamespaces (reClient R))) (\<lambda>namespaces.
      bind_ok (collect_errors (reconcileNamespace R) namespaces None) (\<lambda>err. Pair (error_result err))))"
  proof (rule keepsI)
    fix s r s'
    assume s: "I (snd s)" and b: "bind_ok (on_world (kListNamespaces (reClient R))) (\<lambda>namespaces.
      bind_ok (collect_errors (reconcileNamespace R) namespaces None) (\<lambda>err. Pair (error_result err))) s = (r, s')"
    obtain q s1 where q: "on_world (kListNamespaces (reClient R)) s = (q, s1)" by (rule prod.exhaust)
    have s1: "I (snd s1)" using keepsD [OF import_calls(1) [OF calls] s q] .
    show "I (snd s')"
    proof (cases q)
      case (Ok ns)
      have "fst (kListNamespaces (reClient R) (snd s)) = Ok ns" using q Ok by (simp add: on_world_eq)
      then have "keeps (\<lambda>s. I (snd s)) (bind_ok (collect_errors (reconcileNamespace R) ns None) (\<lambda>err. Pair (error_result err)))"
        using named list by (intro keeps_bind keeps_return keeps_collect_errors keeps_reconcileNamespace [OF calls]) blast
      from keepsD [OF this s1] show ?thesis using b q Ok by simp
    qed (use b q s1 in simp_all)
  qed
qed

end
