(* ===== verification/ControllerMain.thy ===== *)
theory ControllerMain
  imports CloudContract ExportSpec ImportCalls
begin

text \<open>
  \<open>main.go\<close>: how the controller is put together, and what the whole of it achieves. One Cloud Map client
  is shared by the two reconcilers; each of the three has its own copy of the cluster properties. The
  world of a reconciler is then the client: its cache, its properties and the world outside.

  The laws that \<open>ExportSpec\<close> asks of a Cloud Map client are proved here of the modelled one
  (\<open>CloudContract\<close>), so that the safety of the export controller holds of the assembled program.
\<close>

section \<open>Putting the controller together\<close>

definition cloud_map_ops :: "'w client_env \<Rightarrow> ('c, 'w) client sd_client_ops" where
  "cloud_map_ops E =
     \<lparr>sdListServices = ListServices E, sdCreateService = client_CreateService E, sdGetService = GetService E,
      sdRegisterEndpoints = RegisterEndpoints E, sdDeleteEndpoints = DeleteEndpoints E\<rparr>"

definition client_ops_beside :: "'w k8s_ops \<Rightarrow> ('c, 'w) client k8s_ops" where
  "client_ops_beside K =
     \<lparr>kGetServiceExport = (\<lambda>k. in_world (kGetServiceExport K k)),
      kGetService = (\<lambda>k. in_world (kGetService K k)),
      kGetServiceImport = (\<lambda>k. in_world (kGetServiceImport K k)),
      kListNamespaces = in_world (kListNamespaces K),
      kListServiceExports = in_world (kListServiceExports K),
      kListServiceImports = (\<lambda>n. in_world (kListServiceImports K n)),
      kListServices = (\<lambda>n l. in_world (kListServices K n l)),
      kListEndpointSlices = (\<lambda>n l. in_world (kListEndpointSlices K n l)),
      kListClusterProperties = in_world (kListClusterProperties K),
      kUpdateServiceExport = (\<lambda>x. in_world (kUpdateServiceExport K x)),
      kUpdateService = (\<lambda>x. in_world (kUpdateService K x)),
      kUpdateServiceImport = (\<lambda>x. in_world (kUpdateServiceImport K x)),
      kUpdateEndpointSlice = (\<lambda>x. in_world (kUpdateEndpointSlice K x)),
      kCreateService = (\<lambda>x. in_world (kCreateService K x)),
      kCreateServiceImport = (\<lambda>x. in_world (kCreateServiceImport K x)),
      kCreateEndpointSlice = (\<lambda>x. in_world (kCreateEndpointSlice K x)),
      kDeleteService = (\<lambda>x. in_world (kDeleteService K x)),
      kDeleteServiceImport = (\<lambda>x. in_world (kDeleteServiceImport K x)),
      kDeleteEndpointSlice = (\<lambda>x. in_world (kDeleteEndpointSlice K x)),
      kDeleteAllOfEndpointSlices = (\<lambda>n l. in_world (kDeleteAllOfEndpointSlices K n l))\<rparr>"

record 'w manager =
  mgClient :: "'w k8s_ops"
  mgEnv :: "'w client_env"
  mgExt :: ext
  mgBuild :: build_info
  mgSetControllerReference :: "k8s_service \<Rightarrow> service_export \<Rightarrow> service_export outcome"

definition main_reconciler :: "'w manager \<Rightarrow> ('c, 'w) client reconciler" where
  "main_reconciler M =
     \<lparr>reClient = client_ops_beside (mgClient M), reCloudMap = cloud_map_ops (mgEnv M),
      reOrder = (\<lambda>s. ceOrder (mgEnv M) (clWorld s)), reExt = mgExt M, reBuild = mgBuild M,
      reSetControllerReference = mgSetControllerReference M\<rparr>"

text \<open>The start: no cluster properties have been read and nothing is cached.\<close>

definition main_client :: "'c lru_ops \<Rightarrow> 'w \<Rightarrow> ('c, 'w) client" where
  "main_client L w = NewDefaultServiceDiscoveryClient L empty_properties w"

text \<open>
  The state of the program between reconciles: the properties that each reconciler has read, and the
  client with the world outside.
\<close>

record ('c, 'w) main_state =
  msExportProps :: cluster_properties
  msImportProps :: cluster_properties
  msClient :: "('c, 'w) client"

definition main_start :: "'c lru_ops \<Rightarrow> 'w \<Rightarrow> ('c, 'w) main_state" where
  "main_start L w =
     \<lparr>msExportProps = empty_properties, msImportProps = empty_properties, msClient = main_client L w\<rparr>"

section \<open>What the API server promises\<close>

definition api_read_laws :: "'w manager \<Rightarrow> 'w cloud_observer \<Rightarrow> cluster_properties \<Rightarrow> bool" where
  "api_read_laws M C props \<longleftrightarrow> (let K = mgClient M in
     (\<forall>k. still C (kGetServiceExport K k)) \<and> (\<forall>k. still C (kGetService K k))
     \<and> (\<forall>n l. still C (kListEndpointSlices K n l))
     \<and> still C (kListClusterProperties K) \<and> still C (kListServiceExports K)
     \<and> lists_truly (kListClusterProperties K) props
     \<and> (\<forall>k w ex. fst (kGetServiceExport K k w) = Ok ex \<longrightarrow>
          coExports C w k = Some ex \<and> meta_key (sxMeta ex) = k \<and> plain_namespace k)
     \<and> (\<forall>k w svc. fst (kGetService K k w) = Ok svc \<longrightarrow> meta_key (svMeta svc) = k))"

definition api_update_laws :: "'w manager \<Rightarrow> 'w cloud_observer \<Rightarrow> bool" where
  "api_update_laws M C \<longleftrightarrow>
     finalizer_laws (mgExt M)
     \<and> (\<forall>svc ex ex'. mgSetControllerReference M svc ex = Ok ex' \<longrightarrow> same_object ex ex')
     \<and> (\<forall>ex w r w'. kUpdateServiceExport (mgClient M) ex w = (r, w') \<longrightarrow>
          same_cloud C w w'
          \<and> (\<forall>k. k \<noteq> meta_key (sxMeta ex) \<longrightarrow> coExports C w' k = coExports C w k)
          \<and> (case r of
               Ok ex' \<Rightarrow> same_object ex ex' \<and> coExports C w' (meta_key (sxMeta ex)) = stored ex'
             | _ \<Rightarrow> coExports C w' (meta_key (sxMeta ex)) = coExports C w (meta_key (sxMeta ex))
                 \<or> (\<exists>ex'. same_object ex ex' \<and> coExports C w' (meta_key (sxMeta ex)) = stored ex')))"

section \<open>The assembled client keeps the laws of the export controller\<close>

definition main_observer :: "'w cloud_observer \<Rightarrow> cluster_properties \<Rightarrow> ('c, 'w) client observer" where
  "main_observer C props =
     \<lparr>obExports = (\<lambda>s. coExports C (clWorld s)), obView = registry_view C props, obValid = coherent C props,
      obKey = plain_namespace, obFits = fits_registry props\<rparr>"

lemma main_observer_simps [simp]:
  "obExports (main_observer C props) s = coExports C (clWorld s)"
  "obView (main_observer C props) = registry_view C props" "obValid (main_observer C props) = coherent C props"
  "obKey (main_observer C props) = plain_namespace" "obFits (main_observer C props) = fits_registry props"
  by (simp_all add: main_observer_def)

lemma main_reconciler_simps [simp]:
  "reClient (main_reconciler M) = client_ops_beside (mgClient M)"
  "reCloudMap (main_reconciler M) = cloud_map_ops (mgEnv M)"
  "reSetControllerReference (main_reconciler M) = mgSetControllerReference M"
  "reOrder (main_reconciler M) s = ceOrder (mgEnv M) (clWorld s)" "reExt (main_reconciler M) = mgExt M"
  by (simp_all add: main_reconciler_def)

lemma cloud_map_ops_simps [simp]:
  "sdListServices (cloud_map_ops E) = ListServices E" "sdCreateService (cloud_map_ops E) = client_CreateService E"
  "sdGetService (cloud_map_ops E) = GetService E" "sdRegisterEndpoints (cloud_map_ops E) = RegisterEndpoints E"
  "sdDeleteEndpoints (cloud_map_ops E) = DeleteEndpoints E"
  by (simp_all add: cloud_map_ops_def)

lemma client_ops_beside_simps [simp]:
  "kGetServiceExport (client_ops_beside K) k = in_world (kGetServiceExport K k)"
  "kGetService (client_ops_beside K) k = in_world (kGetService K k)"
  "kListEndpointSlices (client_ops_beside K) n l = in_world (kListEndpointSlices K n l)"
  "kListClusterProperties (client_ops_beside K) = in_world (kListClusterProperties K)"
  "kListServiceExports (client_ops_beside K) = in_world (kListServiceExports K)"
  "kUpdateServiceExport (client_ops_beside K) x = in_world (kUpdateServiceExport K x)"
  by (simp_all add: client_ops_beside_def)

lemma own_endpoints_main:
  "own_endpoints (main_observer C props) (cpClusterId props) s k = own_of props (coInstances C (clWorld s) k)"
  by (simp add: own_endpoints_def own_of_view)

text \<open>A call that leaves a coherent client coherent, and what it sees as it is, is not observed.\<close>

lemma unobserved_main:
  fixes f :: "('c, 'w) client \<Rightarrow> 'a outcome \<times> ('c, 'w) client"
  assumes "\<And>I X. keeps (client_sees C props I X) f"
  shows "unobserved (main_observer C props) f"
  unfolding unobserved_def
proof (intro allI impI)
  fix s :: "('c, 'w) client"
  assume "obValid (main_observer C props) s"
  then have "client_sees C props (coInstances C (clWorld s)) (coExports C (clWorld s)) s" by (simp add: client_sees_def)
  from keepsD [OF assms this, of "fst (f s)" "snd (f s)"]
  show "obValid (main_observer C props) (snd (f s))
      \<and> obExports (main_observer C props) (snd (f s)) = obExports (main_observer C props) s
      \<and> obView (main_observer C props) (snd (f s)) = obView (main_observer C props) s"
    by (simp add: client_sees_def registry_view_def fun_eq_iff)
qed

lemma unobserved_in_world: "still C f \<Longrightarrow> unobserved (main_observer C props) (in_world f)"
  by (intro unobserved_main keeps_grows still_grows)

lemma fst_in_world [simp]: "fst (in_world f s) = fst (f (clWorld s))"
  by (simp add: in_world_def case_prod_beta)

lemma main_read_laws:
  fixes M :: "'w manager"
  assumes "api_read_laws M C props"
  shows "read_laws (main_reconciler M :: ('c, 'w) client reconciler) (main_observer C props)"
  using assms
  by (auto simp: read_laws_def api_read_laws_def Let_def intro: unobserved_in_world)

lemma main_update_laws:
  fixes M :: "'w manager"
  assumes "api_update_laws M C"
  shows "update_laws (main_reconciler M :: ('c, 'w) client reconciler) (main_observer C props)"
proof -
  have up: "(coherent C props s \<longrightarrow> coherent C props s') \<and> registry_view C props s' = registry_view C props s
      \<and> (\<forall>k. k \<noteq> meta_key (sxMeta ex) \<longrightarrow> coExports C (clWorld s') k = coExports C (clWorld s) k)
      \<and> (case r of
           Ok ex' \<Rightarrow> same_object ex ex' \<and> coExports C (clWorld s') (meta_key (sxMeta ex)) = stored ex'
         | _ \<Rightarrow> coExports C (clWorld s') (meta_key (sxMeta ex)) = coExports C (clWorld s) (meta_key (sxMeta ex))
             \<or> (\<exists>ex'. same_object ex ex' \<and> coExports C (clWorld s') (meta_key (sxMeta ex)) = stored ex'))"
    if run: "in_world (kUpdateServiceExport (mgClient M) ex) s = (r, s')" for ex r and s s' :: "('c, 'w) client"
  proof -
    obtain w where u: "kUpdateServiceExport (mgClient M) ex (clWorld s) = (r, w)" and s': "s' = s\<lparr>clWorld := w\<rparr>"
      using run by (auto simp: in_world_def split: prod.splits)
    note l = assms [unfolded api_update_laws_def, THEN conjunct2, THEN conjunct2, rule_format, OF u]
    have same: "same_cloud C (clWorld s) w" using l by blast
    have "registry_view C props s' = registry_view C props s"
      using same s' by (simp add: registry_view_def same_cloud_def fun_eq_iff)
    then show ?thesis
      using l coherent_others [OF _ same_cloud_later [OF same], of props] s'
      by (cases r) (simp_all del: split_paired_All)
  qed
  have "same_object ex ex'" if "mgSetControllerReference M svc ex = Ok ex'" for svc ex ex'
    using assms that by (simp add: api_update_laws_def)
  moreover have "finalizer_laws (mgExt M)" using assms by (simp add: api_update_laws_def)
  ultimately show ?thesis
    unfolding update_laws_def main_observer_simps main_reconciler_simps client_ops_beside_simps using up by blast
qed

lemma main_registry_laws:
  fixes M :: "'w manager"
  assumes "cloud_laws (mgEnv M) C props"
  shows "registry_laws (main_reconciler M :: ('c, 'w) client reconciler) (main_observer C props)"
proof -
  note observed = main_observer_simps main_reconciler_simps cloud_map_ops_simps
  have reg: "coherent C props s' \<and> coExports C (clWorld s') = coExports C (clWorld s)
      \<and> (\<forall>k. k \<noteq> (n, v) \<longrightarrow> registry_view C props s' k = registry_view C props s k)
      \<and> (is_ok r \<and> Ball (set es) (fits_registry props) \<and> distinct (map epId es)
        \<longrightarrow> registry_view C props s' (n, v) = registered (registry_view C props s (n, v)) es)"
    if "plain_namespace (n, v)" "coherent C props s" "RegisterEndpoints (mgEnv M) n v es s = (r, s')"
    for n v es r and s s' :: "('c, 'w) client"
    using RegisterEndpoints_contract [OF assms that(2,1,3)] by (simp add: is_ok_iff del: split_paired_All)
  have del: "coherent C props s' \<and> coExports C (clWorld s') = coExports C (clWorld s)
      \<and> (\<forall>k. k \<noteq> (n, v) \<longrightarrow> registry_view C props s' k = registry_view C props s k)
      \<and> (is_ok r \<longrightarrow> registry_view C props s' (n, v) = deregistered (registry_view C props s (n, v)) es)
      \<and> (\<forall>i. fmlookup (registry_view C props s' (n, v)) i = fmlookup (registry_view C props s (n, v)) i
          \<or> fmlookup (registry_view C props s' (n, v)) i = None)"
    if "plain_namespace (n, v)" "coherent C props s" "DeleteEndpoints (mgEnv M) n v es s = (r, s')"
    for n v es r and s s' :: "('c, 'w) client"
    using DeleteEndpoints_contract [OF assms that(2,1,3)] by (simp add: is_ok_iff del: split_paired_All)
  show ?thesis
    unfolding registry_laws_def observed by (rule conjI; intro allI impI; (rule reg | rule del); assumption)
qed

lemma GetService_reads_own:
  assumes "cloud_laws E C props" and "plain_namespace (n, v)" and "coherent C props s" and "GetService E n v s = (r, s')"
  shows "case r of
      Ok svc \<Rightarrow> svcNamespace svc = n \<and> svcName svc = v
        \<and> set (GetEndpoints svc (cpClusterId props)) = own C props (clWorld s) (n, v)
    | Err e \<Rightarrow> errors_is_notFound e \<longrightarrow> own C props (clWorld s) (n, v) = {} | Panic \<Rightarrow> True"
proof -
  have "client_sees C props (coInstances C (clWorld s)) (coExports C (clWorld s)) s"
    using assms(3) by (simp add: client_sees_def)
  from tripleD [OF GetService_triple [OF assms(1,2)] this assms(4)]
  show ?thesis by (cases r) (simp_all add: sees_or_absent_def own_def)
qed

lemma main_service_laws:
  fixes M :: "'w manager"
  assumes laws: "cloud_laws (mgEnv M) C props"
  shows "service_laws (main_reconciler M :: ('c, 'w) client reconciler) (main_observer C props) (cpClusterId props)"
proof -
  note get = GetService_reads_own [OF laws, unfolded own_def]
  have "unobserved (main_observer C props) (GetService (mgEnv M) n v :: ('c, 'w) client \<Rightarrow> _)" if "plain_namespace (n, v)" for n v
    by (rule unobserved_main, rule keeps_triple [OF GetService_triple [OF laws that]]) (auto simp: sees_or_absent_def)
  moreover have "unobserved (main_observer C props) (client_CreateService (mgEnv M) n v :: ('c, 'w) client \<Rightarrow> _)" for n v
    by (rule unobserved_main) (rule keeps_CreateService [OF laws])
  moreover have "svcNamespace svc = n \<and> svcName svc = v
      \<and> set (GetEndpoints svc (cpClusterId props)) = own_endpoints (main_observer C props) (cpClusterId props) s (n, v)"
    if "plain_namespace (n, v)" "coherent C props s" "fst (GetService (mgEnv M) n v s) = Ok svc"
    for n v svc and s :: "('c, 'w) client"
    using get [OF that(1,2) surjective_pairing] that(3) by (simp add: own_endpoints_main)
  moreover have "own_endpoints (main_observer C props) (cpClusterId props) s (n, v) = {}"
    if "plain_namespace (n, v)" "coherent C props s" "fst (GetService (mgEnv M) n v s) = Err e" "errors_is_notFound e"
    for n v e and s :: "('c, 'w) client"
    using get [OF that(1,2) surjective_pairing] that(3,4) by (simp add: own_endpoints_main)
  ultimately show ?thesis by (simp add: service_laws_def)
qed

lemma main_export_laws:
  fixes M :: "'w manager"
  assumes "cloud_laws (mgEnv M) C props" and "api_read_laws M C props" and "api_update_laws M C"
  shows "export_laws (main_reconciler M :: ('c, 'w) client reconciler) (main_observer C props) (cpClusterId props)"
  unfolding export_laws_def
  by (intro conjI main_read_laws [OF assms(2)] main_update_laws [OF assms(3)] main_registry_laws [OF assms(1)]
      main_service_laws [OF assms(1)])


section \<open>Runs of the program\<close>

text \<open>
  The calls of the API server that the import controller makes do not touch Cloud Map or exports, and
  the names of namespaces are DNS labels, so they have no colon.
\<close>

definition api_import_laws :: "'w manager \<Rightarrow> 'w cloud_observer \<Rightarrow> bool" where
  "api_import_laws M C \<longleftrightarrow> (let K = mgClient M in
     still C (kListNamespaces K)
     \<and> (\<forall>k. still C (kGetServiceImport K k)) \<and> (\<forall>n. still C (kListServiceImports K n))
     \<and> (\<forall>n l. still C (kListServices K n l))
     \<and> (\<forall>x. still C (kCreateServiceImport K x)) \<and> (\<forall>x. still C (kUpdateServiceImport K x))
     \<and> (\<forall>x. still C (kDeleteServiceImport K x)) \<and> (\<forall>x. still C (kCreateService K x))
     \<and> (\<forall>x. still C (kUpdateService K x)) \<and> (\<forall>x. still C (kDeleteService K x))
     \<and> (\<forall>x. still C (kCreateEndpointSlice K x)) \<and> (\<forall>x. still C (kUpdateEndpointSlice K x))
     \<and> (\<forall>x. still C (kDeleteEndpointSlice K x)) \<and> (\<forall>n l. still C (kDeleteAllOfEndpointSlices K n l))
     \<and> (\<forall>w ns. fst (kListNamespaces K w) = Ok ns \<longrightarrow> (\<forall>n \<in> set ns. CHR '':'' \<notin> set n)))"

definition has_finalizer :: "service_export option \<Rightarrow> bool" where
  "has_finalizer x = (case x of None \<Rightarrow> False | Some ex \<Rightarrow> ServiceExportFinalizer \<in> set (omFinalizers (sxMeta ex)))"

text \<open>
  What others do: they neither change the endpoints of this cluster nor rename anything, and an export
  with the controller's finalizer stays, with its finalizer, whatever else they change of it.
\<close>

definition others_act :: "'w cloud_observer \<Rightarrow> cluster_properties \<Rightarrow> 'w \<Rightarrow> 'w \<Rightarrow> bool" where
  "others_act C props w w' \<longleftrightarrow> later C props w w'
     \<and> (\<forall>k. has_finalizer (coExports C w k) \<longrightarrow> has_finalizer (coExports C w' k))"

inductive main_step ::
  "'w manager \<Rightarrow> 'w cloud_observer \<Rightarrow> cluster_properties \<Rightarrow> ('c, 'w) main_state \<Rightarrow> ('c, 'w) main_state \<Rightarrow> bool"
  for M C props where
  export: "ReconcileExport (main_reconciler M) key (msExportProps s, msClient s) = (r, p, c)
    \<Longrightarrow> main_step M C props s (s\<lparr>msExportProps := p, msClient := c\<rparr>)"
| reload: "clusterPropertyMappingFunction (main_reconciler M) (msExportProps s, msClient s) = (keys, p, c)
    \<Longrightarrow> main_step M C props s (s\<lparr>msExportProps := p, msClient := c\<rparr>)"
| import_round: "ReconcileCloudMap (main_reconciler M) (msImportProps s, msClient s) = (r', p, c)
    \<Longrightarrow> main_step M C props s (s\<lparr>msImportProps := p, msClient := c\<rparr>)"
| others: "others_act C props (clWorld (msClient s)) w
    \<Longrightarrow> main_step M C props s (s\<lparr>msClient := (msClient s)\<lparr>clWorld := w\<rparr>\<rparr>)"

inductive_cases main_stepE: "main_step M C props s s'"

abbreviation main_run ::
  "'w manager \<Rightarrow> 'w cloud_observer \<Rightarrow> cluster_properties \<Rightarrow> ('c, 'w) main_state \<Rightarrow> ('c, 'w) main_state \<Rightarrow> bool" where
  "main_run M C props \<equiv> (main_step M C props)\<^sup>*\<^sup>*"

text \<open>Every instance in Cloud Map that stands for an endpoint of this cluster has an export with the finalizer.\<close>

definition covered :: "'w cloud_observer \<Rightarrow> cluster_properties \<Rightarrow> 'w \<Rightarrow> bool" where
  "covered C props w \<longleftrightarrow> (\<forall>k i a e. fmlookup (coInstances C w k) i = Some a
     \<longrightarrow> NewEndpointFromInstance (instance_of i a) = Ok e
     \<longrightarrow> epClusterId e = cpClusterId props \<longrightarrow> epClusterSetId e = cpClusterSetId props
     \<longrightarrow> has_finalizer (coExports C w k))"

lemma decoded_cluster_set:
  "NewEndpointFromInstance (instance_of i a) = Ok e \<Longrightarrow> fmlookup a ClusterSetIdAttr = Some (epClusterSetId e)"
  by (simp add: decode_eq_Ok instance_describes_def instance_of_def Let_def)

lemma own_of_iff:
  "e \<in> own_of props m \<longleftrightarrow> (\<exists>a. fmlookup m (epId e) = Some a \<and> NewEndpointFromInstance (instance_of (epId e) a) = Ok e)
     \<and> epClusterId e = cpClusterId props \<and> epClusterSetId e = cpClusterSetId props"
  unfolding own_of_def mem_Collect_eq lookup_endpoints_of_instances bind_eq_Some_conv instance_endpoint_Some
  using decoded_cluster_set [of "epId e" _ e] by auto

lemma own_instances:
  "own C props w k = {e. epClusterId e = cpClusterId props \<and> epClusterSetId e = cpClusterSetId props
     \<and> (\<exists>a. fmlookup (coInstances C w k) (epId e) = Some a \<and> NewEndpointFromInstance (instance_of (epId e) a) = Ok e)}"
  unfolding own_def by (rule set_eqI) (simp only: own_of_iff mem_Collect_eq, blast)

lemma covered_own: "covered C props w \<longleftrightarrow> (\<forall>k. own C props w k \<noteq> {} \<longrightarrow> has_finalizer (coExports C w k))"
proof -
  let ?mine = "\<lambda>k i a e. fmlookup (coInstances C w k) i = Some a \<and> NewEndpointFromInstance (instance_of i a) = Ok e
    \<and> epClusterId e = cpClusterId props \<and> epClusterSetId e = cpClusterSetId props"
  have "own C props w k \<noteq> {} \<longleftrightarrow> (\<exists>i a e. ?mine k i a e)" for k
  proof
    assume "own C props w k \<noteq> {}"
    then obtain e where "e \<in> own_of props (coInstances C w k)" unfolding own_def by blast
    then show "\<exists>i a e. ?mine k i a e" unfolding own_of_iff by blast
  next
    assume "\<exists>i a e. ?mine k i a e"
    then obtain i a e where e: "?mine k i a e" by blast
    then have "epId e = i" by (blast intro: decoded_id)
    with e have "e \<in> own_of props (coInstances C w k)" unfolding own_of_iff by blast
    then show "own C props w k \<noteq> {}" unfolding own_def by blast
  qed
  then show ?thesis unfolding covered_def by blast
qed

lemma covered_iff:
  "no_leak (main_observer C props) (cpClusterId props) s \<longleftrightarrow> covered C props (clWorld s)"
proof -
  have "protected (main_observer C props) k s = has_finalizer (coExports C (clWorld s) k)" for k
    by (simp add: protected_def has_finalizer_def split: option.splits)
  then show ?thesis by (simp add: no_leak_def covered_own own_endpoints_main own_def)
qed


definition main_inv :: "'w cloud_observer \<Rightarrow> cluster_properties \<Rightarrow> ('c, 'w) main_state \<Rightarrow> bool" where
  "main_inv C props s \<longleftrightarrow> props_within (msExportProps s) props \<and> coherent C props (msClient s)
     \<and> covered C props (clWorld (msClient s))"

lemma safe_world_main:
  "safe_world (main_observer C props) (cpClusterId props) c \<longleftrightarrow> coherent C props c \<and> covered C props (clWorld c)"
  by (simp add: safe_world_def covered_iff)

lemma main_inv_loading:
  "main_inv C props s \<longleftrightarrow>
     loading_inv props (safe_world (main_observer C props) (cpClusterId props)) (msExportProps s, msClient s)"
  by (simp add: main_inv_def loading_inv_def safe_world_main)

lemma lists_truly_main:
  assumes "api_read_laws M C props"
  shows "lists_truly (kListClusterProperties (reClient (main_reconciler M))) props"
  using assms by (simp add: api_read_laws_def lists_truly_def Let_def)

lemma safe_still:
  assumes "still C f"
  shows "keeps (safe_world (main_observer C props) (cpClusterId props)) (in_world f)"
  using unobserved_keeps(1) [OF unobserved_in_world [OF assms]] .

lemma main_import_calls:
  fixes M :: "'w manager"
  assumes "api_read_laws M C props" and "api_import_laws M C"
  shows "import_calls_keep (main_reconciler M :: ('c, 'w) client reconciler)
    (safe_world (main_observer C props) (cpClusterId props))"
  unfolding import_calls_keep_def main_reconciler_simps client_ops_beside_def k8s_ops.simps Let_def
  by (intro conjI allI safe_still) (use assms in \<open>simp_all add: api_read_laws_def api_import_laws_def Let_def del: split_paired_All\<close>)

lemma main_step_inv:
  assumes laws: "cloud_laws (mgEnv M) C props" "api_read_laws M C props" "api_update_laws M C" "api_import_laws M C"
    and props: "props_IsValid props" and step: "main_step M C props s s'" and s: "main_inv C props s"
  shows "main_inv C props s'"
  using step
proof (cases rule: main_step.cases)
  case (export key r p c)
  have "keeps (loading_inv props (safe_world (main_observer C props) (cpClusterId props)))
      (ReconcileExport (main_reconciler M) key)"
    by (rule ReconcileExport_keeps [OF main_export_laws [OF laws(1-3)] lists_truly_main [OF laws(2)] props refl])
  from keepsD [OF this s [unfolded main_inv_loading] export(2)] show ?thesis unfolding main_inv_loading export(1) by simp
next
  case (reload keys p c)
  have "keeps (loading_inv props (safe_world (main_observer C props) (cpClusterId props)))
      (clusterPropertyMappingFunction (main_reconciler M))"
    by (rule clusterPropertyMapping_keeps [OF main_export_laws [OF laws(1-3)] lists_truly_main [OF laws(2)]])
  from keepsD [OF this s [unfolded main_inv_loading] reload(2)] show ?thesis unfolding main_inv_loading reload(1) by simp
next
  case (import_round r p c)
  have "keeps (\<lambda>t. safe_world (main_observer C props) (cpClusterId props) (snd t)) (ReconcileCloudMap (main_reconciler M))"
  proof (rule keeps_ReconcileCloudMap [OF main_import_calls [OF laws(2,4)], where ok = "\<lambda>n. CHR '':'' \<notin> set n"])
    show "\<forall>n \<in> set ns. CHR '':'' \<notin> set n"
      if "fst (kListNamespaces (reClient (main_reconciler M)) w) = Ok ns" for w ns
      using laws(4) that by (auto simp: api_import_laws_def Let_def client_ops_beside_def)
    show "keeps (safe_world (main_observer C props) (cpClusterId props)) (sdListServices (reCloudMap (main_reconciler M)) n)"
      if "CHR '':'' \<notin> set n" for n
      unfolding main_reconciler_simps cloud_map_ops_simps
      by (rule unobserved_keeps(1) [OF unobserved_main [OF keeps_ListServices [OF laws(1) that]]])
  qed
  from keepsD [OF this _ import_round(2)] s show ?thesis
    by (simp add: main_inv_def safe_world_main import_round(1))
next
  case (others w)
  have later: "later C props (clWorld (msClient s)) w" using others(2) by (simp add: others_act_def)
  have "coherent C props ((msClient s)\<lparr>clWorld := w\<rparr>)" using s coherent_others [OF _ later] by (simp add: main_inv_def)
  moreover have "covered C props w"
  proof -
    have "own C props w k = own C props (clWorld (msClient s)) k" for k
      using later by (simp add: later_def del: split_paired_All)
    then show ?thesis using s others(2) unfolding covered_own main_inv_def others_act_def by blast
  qed
  ultimately show ?thesis using s by (simp add: main_inv_def others(1))
qed

lemma main_run_inv:
  assumes "cloud_laws (mgEnv M) C props" "api_read_laws M C props" "api_update_laws M C" "api_import_laws M C"
    and "props_IsValid props" and "main_run M C props s s'" and "main_inv C props s"
  shows "main_inv C props s'"
  using assms(6,7) by (induction rule: rtranclp_induct) (blast intro: main_step_inv [OF assms(1-5)])+

lemma main_start_inv:
  "\<lbrakk>lru_laws L; covered C props w\<rbrakk> \<Longrightarrow> main_inv C props (main_start L w)"
  using coherent_new by (simp add: main_inv_def main_start_def main_client_def NewDefaultServiceDiscoveryClient_def)


section \<open>After an update\<close>

lemma exported_own:
  assumes view: "\<And>i. fmlookup m' i = exported_registry es {e. fmlookup m (epId e) = Some e \<and> epClusterId e = cid} m i"
    and es: "\<forall>e \<in> set es. epClusterId e = cid" and dist: "distinct (map epId es)"
  shows "{e. fmlookup m' (epId e) = Some e \<and> epClusterId e = cid} = set es" (is "?own' = _")
proof -
  have "e \<in> ?own' \<longleftrightarrow> e \<in> set es" for e
  proof (cases "fmlookup (index_by epId es) (epId e)")
    case None
    then have "e \<notin> set es" by (auto simp: index_by_None)
    moreover have "e \<notin> ?own'" using None by (auto simp: view exported_registry_def)
    ultimately show ?thesis by blast
  next
    case (Some d)
    then have "e \<in> set es \<longleftrightarrow> d = e" using index_by_distinct [OF dist, of "epId e" e] by simp
    moreover have "d \<in> set es" using Some by (blast dest: index_by_Some)
    ultimately show ?thesis using Some es by (auto simp: view exported_registry_def)
  qed
  then show ?thesis by blast
qed

lemma own_after_update:
  fixes C :: "'w cloud_observer" and s s' :: "('c, 'w) client"
  assumes view: "\<And>i. fmlookup (registry_view C props s' k) i = exported_registry es (own C props (clWorld s) k) (registry_view C props s k) i"
    and es: "\<forall>e \<in> set es. epClusterId e = cpClusterId props" and dist: "distinct (map epId es)"
  shows "own C props (clWorld s') k = set es"
  using exported_own [OF view [unfolded own_def own_of_view] es dist] by (simp add: own_def own_of_view)

lemma extracted_cluster:
  "endpoints_of_slices (export_context_of R p svc ex) slices = Ok es \<Longrightarrow> e \<in> set es \<Longrightarrow> epClusterId e = cpClusterId p"
  using endpoints_of_slices_set [of "export_context_of R p svc ex" slices es]
  by (auto simp: exported_def make_endpoint_def export_context_of_def)

end
