(* ===== verification/ApiScheme.thy ===== *)
theory ApiScheme
  imports GoPrelude
begin

text \<open>
  Registering the types of the API: the two \<open>groupversion_info.go\<close>, the functions \<open>init\<close> beside the types, and \<open>init\<close>
  of \<open>main.go\<close>. The scheme and its builder are those of apimachinery and controller-runtime: a scheme is a value of an unknown type, and a
  builder is what has been registered with it.
\<close>

section \<open>Builders\<close>

record group_version =
  gvGroup :: string
  gvVersion :: string

text \<open>\<open>Register(&A{}, &B{})\<close> is kept as the list of the kinds, the names of the Go types.\<close>

record scheme_builder =
  sbGroupVersion :: group_version
  sbRegistered :: "string list list"

definition Register :: "string list \<Rightarrow> scheme_builder \<Rightarrow> scheme_builder" where
  "Register kinds b = b\<lparr>sbRegistered := sbRegistered b @ [kinds]\<rparr>"

definition about_GroupVersion :: group_version where
  "about_GroupVersion = \<lparr>gvGroup = ''about.k8s.io'', gvVersion = ''v1alpha1''\<rparr>"

definition multicluster_GroupVersion :: group_version where
  "multicluster_GroupVersion = \<lparr>gvGroup = ''multicluster.x-k8s.io'', gvVersion = ''v1alpha1''\<rparr>"

definition about_SchemeBuilder :: scheme_builder where
  "about_SchemeBuilder = \<lparr>sbGroupVersion = about_GroupVersion, sbRegistered = []\<rparr>"

definition multicluster_SchemeBuilder :: scheme_builder where
  "multicluster_SchemeBuilder = \<lparr>sbGroupVersion = multicluster_GroupVersion, sbRegistered = []\<rparr>"

definition clusterproperty_init :: "scheme_builder \<Rightarrow> scheme_builder" where
  "clusterproperty_init = Register [''ClusterProperty'', ''ClusterPropertyList'']"

definition serviceexport_init :: "scheme_builder \<Rightarrow> scheme_builder" where
  "serviceexport_init = Register [''ServiceExport'', ''ServiceExportList'']"

definition serviceimport_init :: "scheme_builder \<Rightarrow> scheme_builder" where
  "serviceimport_init = Register [''ServiceImport'', ''ServiceImportList'']"

section \<open>The scheme of the program\<close>

text \<open>
  \<open>suAddToScheme\<close> is \<open>Builder.AddToScheme\<close>, and \<open>suClientGo\<close> that of client-go. The packages of the types are
  initialised before \<open>main\<close>, each with its files in the order of their names. \<open>utilruntime.Must\<close> panics on an error.
\<close>

record 's scheme_ops =
  suNewScheme :: 's
  suClientGo :: "'s \<Rightarrow> 's outcome"
  suAddToScheme :: "scheme_builder \<Rightarrow> 's \<Rightarrow> 's outcome"

definition about_AddToScheme :: "'s scheme_ops \<Rightarrow> 's \<Rightarrow> 's outcome" where
  "about_AddToScheme U = suAddToScheme U (clusterproperty_init about_SchemeBuilder)"

definition multicluster_AddToScheme :: "'s scheme_ops \<Rightarrow> 's \<Rightarrow> 's outcome" where
  "multicluster_AddToScheme U = suAddToScheme U (serviceimport_init (serviceexport_init multicluster_SchemeBuilder))"

definition Must :: "'s outcome \<Rightarrow> ('s \<Rightarrow> 'a outcome) \<Rightarrow> 'a outcome" where
  "Must r f = (case r of Ok s \<Rightarrow> f s | _ \<Rightarrow> Panic)"

definition main_init :: "'s scheme_ops \<Rightarrow> 's outcome" where
  "main_init U =
     Must (suClientGo U (suNewScheme U)) (\<lambda>s.
       Must (multicluster_AddToScheme U s) (\<lambda>s'. Must (about_AddToScheme U s') Ok))"

section \<open>What the scheme knows\<close>

text \<open>
  \<open>knows s gv kind\<close>: the scheme can encode and decode the kind. Adding to a scheme is documented to register what was registered with
  the builder, and to forget nothing.
\<close>

definition scheme_laws :: "'s scheme_ops \<Rightarrow> ('s \<Rightarrow> group_version \<Rightarrow> string \<Rightarrow> bool) \<Rightarrow> bool" where
  "scheme_laws U knows \<longleftrightarrow> (\<forall>b s s'. suAddToScheme U b s = Ok s' \<longrightarrow>
     (\<forall>kind \<in> set (concat (sbRegistered b)). knows s' (sbGroupVersion b) kind)
     \<and> (\<forall>gv kind. knows s gv kind \<longrightarrow> knows s' gv kind))"

lemma main_init_Ok:
  assumes "main_init U = Ok s"
  obtains s1 s2 where "suClientGo U (suNewScheme U) = Ok s1" "multicluster_AddToScheme U s1 = Ok s2" "about_AddToScheme U s2 = Ok s"
  using assms by (auto simp: main_init_def Must_def split: outcome.splits)

text \<open>Every kind of the two API groups is known to the scheme, and so is all that client-go has added.\<close>

lemma scheme_knows_all_kinds:
  assumes "scheme_laws U knows" and "main_init U = Ok s"
  shows "kind \<in> {''ServiceExport'', ''ServiceExportList'', ''ServiceImport'', ''ServiceImportList''}
      \<Longrightarrow> knows s multicluster_GroupVersion kind"
    and "kind \<in> {''ClusterProperty'', ''ClusterPropertyList''} \<Longrightarrow> knows s about_GroupVersion kind"
    and "suClientGo U (suNewScheme U) = Ok s1 \<Longrightarrow> knows s1 gv kind \<Longrightarrow> knows s gv kind"
proof -
  obtain s1' s2 where steps: "suClientGo U (suNewScheme U) = Ok s1'" "multicluster_AddToScheme U s1' = Ok s2" "about_AddToScheme U s2 = Ok s"
    using assms(2) by (rule main_init_Ok)
  note laws = assms(1) [unfolded scheme_laws_def, rule_format]
  note m = laws [OF steps(2) [unfolded multicluster_AddToScheme_def]] and a = laws [OF steps(3) [unfolded about_AddToScheme_def]]
  show "knows s multicluster_GroupVersion kind"
    if "kind \<in> {''ServiceExport'', ''ServiceExportList'', ''ServiceImport'', ''ServiceImportList''}"
    using that m a by (auto simp: serviceimport_init_def serviceexport_init_def multicluster_SchemeBuilder_def Register_def)
  show "knows s about_GroupVersion kind" if "kind \<in> {''ClusterProperty'', ''ClusterPropertyList''}"
    using that a by (auto simp: clusterproperty_init_def about_SchemeBuilder_def Register_def)
  show "knows s gv kind" if "suClientGo U (suNewScheme U) = Ok s1" "knows s1 gv kind"
    using that steps(1) m a by simp
qed

end
