(* ===== verification/ProcessStart.thy ===== *)
theory ProcessStart
  imports ControllerMain ApiScheme
begin

text \<open>
  \<open>main.go\<close>, the function \<open>main\<close>: the flags, the steps of starting the process in their order, and the exits.
  The command-line parser, controller-runtime and the AWS SDK are parameters, in the record \<open>platform\<close>. Where
  the code logs an error and ends the process with \<open>os.Exit(1)\<close>, the model returns the error.
\<close>

section \<open>Options\<close>

record main_options =
  metricsAddr :: string
  probeAddr :: string
  enableLeaderElection :: bool

definition default_options :: main_options where
  "default_options = \<lparr>metricsAddr = '':8080'', probeAddr = '':8081'', enableLeaderElection = False\<rparr>"

record 's manager_options =
  Scheme :: 's
  MetricsBindAddress :: string
  ManagerPort :: nat
  HealthProbeBindAddress :: string
  LeaderElection :: bool
  LeaderElectionID :: string

definition manager_options_of :: "'s \<Rightarrow> main_options \<Rightarrow> 's manager_options" where
  "manager_options_of scheme opts =
     \<lparr>Scheme = scheme, MetricsBindAddress = metricsAddr opts, ManagerPort = 9443, HealthProbeBindAddress = probeAddr opts,
      LeaderElection = enableLeaderElection opts,
      LeaderElectionID = ''aws-cloud-map-mcs-controller-for-k8s-lock''\<rparr>"

section \<open>The platform\<close>

text \<open>
  \<open>ptParseFlags\<close> parses the arguments, with the options' defaults. \<open>ptNewManager\<close> gives the client of the new
  manager; \<open>ptSetup\<close>, \<open>ptAdd\<close> and the two checks register with it, and \<open>ptStart\<close> runs what is registered
  until the process is told to stop. The other fields are what \<open>client_env\<close> and \<open>reconciler\<close> leave open.
\<close>

record ('s, 'c, 'w) platform =
  ptScheme :: "'s scheme_ops"
  ptParseFlags :: "string list \<Rightarrow> main_options \<Rightarrow> main_options outcome"
  ptNewManager :: "'s manager_options \<Rightarrow> 'w \<Rightarrow> 'w k8s_ops outcome \<times> 'w"
  ptLoadDefaultConfig :: "'w \<Rightarrow> 'w aws_config outcome \<times> 'w"
  ptSetup :: "('c, 'w) client controller_setup \<Rightarrow> 'w \<Rightarrow> unit outcome \<times> 'w"
  ptAdd :: "('c, 'w) client reconciler \<Rightarrow> 'w \<Rightarrow> unit outcome \<times> 'w"
  ptAddHealthzCheck :: "'w \<Rightarrow> unit outcome \<times> 'w"
  ptAddReadyzCheck :: "'w \<Rightarrow> unit outcome \<times> 'w"
  ptStart :: "'w manager \<Rightarrow> ('c, 'w) main_state \<Rightarrow> unit outcome \<times> ('c, 'w) main_state"
  ptNow :: "'w \<Rightarrow> int \<times> 'w"
  ptOrder :: "'w \<Rightarrow> range_order"
  ptSchedule :: "'w \<Rightarrow> thread list"
  ptPolls :: "'w \<Rightarrow> nat \<Rightarrow> nat"
  ptExt :: ext
  ptBuild :: build_info
  ptSetControllerReference :: "k8s_service \<Rightarrow> service_export \<Rightarrow> service_export outcome"

definition manager_of :: "('s, 'c, 'w) platform \<Rightarrow> 'w k8s_ops \<Rightarrow> 'w aws_config \<Rightarrow> 'w manager" where
  "manager_of T k8sClient awsCfg =
     \<lparr>mgClient = k8sClient,
      mgEnv = \<lparr>ceApi = NewServiceDiscoveryApiFromConfig (NewAwsFacadeFromConfig (ptBuild T) awsCfg),
        ceListProps = kListClusterProperties k8sClient,
        ceNow = ptNow T, ceOrder = ptOrder T, ceSchedule = ptSchedule T, cePolls = ptPolls T\<rparr>,
      mgExt = ptExt T, mgBuild = ptBuild T, mgSetControllerReference = ptSetControllerReference T\<rparr>"

section \<open>Starting\<close>

definition run_manager ::
  "('s, 'c, 'w) platform \<Rightarrow> 'c lru_ops \<Rightarrow> 'w manager \<Rightarrow> 'w \<Rightarrow> unit outcome \<times> 'w" where
  "run_manager T L M w = (case ptStart T M (main_start L w) of (r, s) \<Rightarrow> (r, clWorld (msClient s)))"

definition main_program ::
  "('s, 'c, 'w) platform \<Rightarrow> 'c lru_ops \<Rightarrow> string list \<Rightarrow> 'w \<Rightarrow> unit outcome \<times> 'w" where
  "main_program T L args =
     bind_ok (Pair (main_init (ptScheme T))) (\<lambda>scheme.
       bind_ok (Pair (ptParseFlags T args default_options)) (\<lambda>opts.
         bind_ok (ptNewManager T (manager_options_of scheme opts)) (\<lambda>k8sClient.
           bind_ok (ptLoadDefaultConfig T) (\<lambda>awsCfg.
             if awsRegion awsCfg = '''' then fail_with (ErrText ''unable to configure AWS session'')
             else let M = manager_of T k8sClient awsCfg in
               bind_ok (ptSetup T (SetupWithManager (main_reconciler M))) (\<lambda>_.
                 bind_ok (ptAdd T (main_reconciler M)) (\<lambda>_.
                   bind_ok (ptAddHealthzCheck T) (\<lambda>_.
                     bind_ok (ptAddReadyzCheck T) (\<lambda>_. run_manager T L M))))))))"

section \<open>What the platform promises\<close>

text \<open>
  Setting up changes neither Cloud Map nor the exports; the clients it gives keep the laws; a running manager does
  nothing but to run the reconcilers, one at a time, while others act as they may.
\<close>

definition set_up_quietly :: "('s, 'c, 'w) platform \<Rightarrow> 'w cloud_observer \<Rightarrow> bool" where
  "set_up_quietly T C \<longleftrightarrow> (\<forall>opts. still C (ptNewManager T opts)) \<and> still C (ptLoadDefaultConfig T)
     \<and> (\<forall>setup. still C (ptSetup T setup)) \<and> (\<forall>R. still C (ptAdd T R))
     \<and> still C (ptAddHealthzCheck T) \<and> still C (ptAddReadyzCheck T)"

definition manager_laws :: "'w manager \<Rightarrow> 'w cloud_observer \<Rightarrow> cluster_properties \<Rightarrow> bool" where
  "manager_laws M C props \<longleftrightarrow> cloud_laws (mgEnv M) C props \<and> api_read_laws M C props
     \<and> api_update_laws M C \<and> api_import_laws M C"

definition platform_laws :: "('s, 'c, 'w) platform \<Rightarrow> 'w cloud_observer \<Rightarrow> cluster_properties \<Rightarrow> bool" where
  "platform_laws T C props \<longleftrightarrow> set_up_quietly T C
     \<and> (\<forall>opts w k8sClient v awsCfg. fst (ptNewManager T opts w) = Ok k8sClient
          \<longrightarrow> fst (ptLoadDefaultConfig T v) = Ok awsCfg \<longrightarrow> manager_laws (manager_of T k8sClient awsCfg) C props)
     \<and> (\<forall>M s r s'. ptStart T M s = (r, s') \<longrightarrow> main_run M C props s s')"

text \<open>A call that changes nothing that is seen keeps the cover.\<close>

lemma still_covered:
  assumes "still C f"
  shows "keeps (covered C props) f"
proof (rule keepsI)
  fix w r w'
  assume "covered C props w" "f w = (r, w')"
  moreover have "same_cloud C w w' \<and> coExports C w' = coExports C w"
    using assms \<open>f w = (r, w')\<close> by (auto simp: still_def dest: spec [of _ w])
  ultimately show "covered C props w'" by (simp add: covered_def same_cloud_def)
qed

lemma run_manager_covered:
  assumes "platform_laws T C props" and "manager_laws M C props" and "props_IsValid props" and "lru_laws L"
  shows "keeps (covered C props) (run_manager T L M)"
proof (rule keepsI)
  fix w r w'
  assume w: "covered C props w" and run: "run_manager T L M w = (r, w')"
  obtain s where s: "ptStart T M (main_start L w) = (r, s)" "w' = clWorld (msClient s)"
    using run by (auto simp: run_manager_def split: prod.splits)
  have "main_run M C props (main_start L w) s" using assms(1) s(1) by (simp add: platform_laws_def)
  from main_run_inv [OF _ _ _ _ assms(3) this main_start_inv [OF assms(4) w]] assms(2)
  show "covered C props w'" by (simp add: manager_laws_def main_inv_def s(2))
qed

lemma main_program_covered:
  fixes T :: "('s, 'c, 'w) platform"
  assumes laws: "platform_laws T C props" and "props_IsValid props" and "lru_laws L"
  shows "keeps (covered C props) (main_program T L args)"
proof (rule keepsI)
  fix w r w'
  assume w: "covered C props w" and run: "main_program T L args w = (r, w')"
  note quiet = laws [unfolded platform_laws_def set_up_quietly_def, THEN conjunct1]
  let ?I = "covered C props"
  have rest: "keeps ?I (\<lambda>w. bind_ok (ptSetup T (SetupWithManager (main_reconciler M))) (\<lambda>_.
      bind_ok (ptAdd T (main_reconciler M)) (\<lambda>_. bind_ok (ptAddHealthzCheck T) (\<lambda>_. bind_ok (ptAddReadyzCheck T) (\<lambda>_. run_manager T L M)))) w)"
    if "manager_laws M C props" for M
    using quiet by (intro keeps_bind still_covered run_manager_covered [OF laws that assms(2,3)]) blast+
  have main: "covered C props w'" if s: "main_init (ptScheme T) = Ok scheme" for scheme
  proof (cases "ptParseFlags T args default_options")
    case (Ok opts)
    obtain r1 w1 where 1: "ptNewManager T (manager_options_of scheme opts) w = (r1, w1)" by (rule prod.exhaust)
    have "still C (ptNewManager T (manager_options_of scheme opts))" using quiet by blast
    from keepsD [OF still_covered [OF this, of props] w 1] have w1: "?I w1" .
    show ?thesis
    proof (cases r1)
      case k: (Ok k8sClient)
      obtain r2 w2 where 2: "ptLoadDefaultConfig T w1 = (r2, w2)" by (rule prod.exhaust)
      have "still C (ptLoadDefaultConfig T)" using quiet by blast
      from keepsD [OF still_covered [OF this, of props] w1 2] have w2: "?I w2" .
      show ?thesis
      proof (cases r2)
        case c: (Ok awsCfg)
        have "manager_laws (manager_of T k8sClient awsCfg) C props"
          using laws 1 2 k c unfolding platform_laws_def by (metis fst_conv)
        from keepsD [OF rest [OF this] w2] show ?thesis
          using run w2 by (auto simp: main_program_def bind_ok_def s Ok 1 2 k c Let_def split: if_splits)
      qed (use run 1 2 k w2 in \<open>auto simp: main_program_def bind_ok_def s Ok\<close>)
    qed (use run 1 w1 in \<open>auto simp: main_program_def bind_ok_def s Ok\<close>)
  qed (use run w in \<open>auto simp: main_program_def bind_ok_def s\<close>)
  show "covered C props w'"
    using main run w by (cases "main_init (ptScheme T)") (auto simp: main_program_def bind_ok_def)
qed

text \<open>Nothing is run unless every step before it has succeeded.\<close>

lemma main_program_starts:
  assumes "main_program T L args w = (Ok (), w')"
  obtains scheme opts k8sClient awsCfg v where "main_init (ptScheme T) = Ok scheme" and "ptParseFlags T args default_options = Ok opts"
    and "fst (ptNewManager T (manager_options_of scheme opts) w) = Ok k8sClient" and "awsRegion awsCfg \<noteq> ''''"
    and "run_manager T L (manager_of T k8sClient awsCfg) v = (Ok (), w')"
  using assms by (auto simp: main_program_def bind_ok_eq_Ok Let_def split: if_splits)

end
