(* ===== verification/MainProperties.thy ===== *)
theory MainProperties
  imports ProcessStart ExportProperties
begin

text \<open>
  The properties of the assembled program, with a small world in which its hypotheses hold: one
  namespace with one service, whose operations Cloud Map applies at once.
\<close>

section \<open>A small world\<close>

record small_world =
  swInstances :: "(string, attrs) fmap"
  swExport :: "service_export option"

abbreviation small_key :: "string \<times> string" where
  "small_key \<equiv> (''default'', ''web'')"

definition small_facade :: "small_world aws_facade" where
  "small_facade =
     \<lparr>awsListNamespaces = (\<lambda>w. ([Ok [\<lparr>anId = Some ''ns-1'', anName = Some ''default'', anType = ''HTTP''\<rparr>]], w)),
      awsListServices = (\<lambda>i w. ([Ok (if i = ''ns-1'' then [\<lparr>asId = Some ''srv-1'', asName = Some ''web''\<rparr>] else [])], w)),
      awsDiscoverInstances = (\<lambda>d w.
        (if (diNamespaceName d, diServiceName d) = small_key
         then Ok (map (\<lambda>(i, a). instance_of i a)
           (filter (\<lambda>(i, a). fmlookup a ClusterSetIdAttr = Option.bind (diQueryParameters d) (\<lambda>q. fmlookup q ClusterSetIdAttr))
             (map_entries sorted_order (swInstances w))))
         else Err (ErrText ''service not found''), w)),
      awsGetOperation = (\<lambda>opId w. (Ok (Some \<lparr>opStatus = ''SUCCESS'', opErrorMessage = None, opTargets = fmempty\<rparr>), w)),
      awsCreateHttpNamespace = (\<lambda>n w. (Err (ErrText ''no''), w)),
      awsCreateService = (\<lambda>i w. (Err (ErrText ''no''), w)),
      awsRegisterInstance = (\<lambda>r w. (Ok (Some ''op''),
        if riServiceId r = ''srv-1'' then w\<lparr>swInstances := fmupd (riInstanceId r) (riAttributes r) (swInstances w)\<rparr> else w)),
      awsDeregisterInstance = (\<lambda>svcId i w. (Ok (Some ''op''),
        if svcId = ''srv-1'' then w\<lparr>swInstances := fmdrop i (swInstances w)\<rparr> else w)),
      awsLimiterWait = (\<lambda>l w. (Ok (), w))\<rparr>"

definition small_env :: "small_world client_env" where
  "small_env =
     \<lparr>ceApi = NewServiceDiscoveryApiFromConfig small_facade,
      ceListProps = (\<lambda>w. (Ok [\<lparr>propName = ClusterIdPropertyName, propValue = ''c1''\<rparr>,
        \<lparr>propName = ClusterSetIdPropertyName, propValue = ''set1''\<rparr>], w)),
      ceNow = (\<lambda>w. (0, w)), ceOrder = (\<lambda>w. sorted_order), ceSchedule = (\<lambda>w. []), cePolls = (\<lambda>w i. 30)\<rparr>"

definition small_k8s :: "small_world k8s_ops" where
  "small_k8s =
     \<lparr>kGetServiceExport = (\<lambda>k w. (case swExport w of
        Some ex \<Rightarrow> if k = small_key \<and> meta_key (sxMeta ex) = k then Ok ex else Err (ErrApi True ''no export'')
      | None \<Rightarrow> Err (ErrApi True ''no export''), w)),
      kGetService = (\<lambda>k w. (Ok (demo_service k), w)),
      kGetServiceImport = (\<lambda>k w. (Err (ErrApi True ''none''), w)),
      kListNamespaces = (\<lambda>w. (Ok [''default''], w)),
      kListServiceExports = (\<lambda>w. (Ok [], w)),
      kListServiceImports = (\<lambda>n w. (Ok [], w)),
      kListServices = (\<lambda>n l w. (Ok [], w)),
      kListEndpointSlices = (\<lambda>n l w. (Ok demo_slices, w)),
      kListClusterProperties = ceListProps small_env,
      kUpdateServiceExport = (\<lambda>ex w. if meta_key (sxMeta ex) = small_key then (Ok ex, w\<lparr>swExport := stored ex\<rparr>)
        else (Err (ErrApi True ''no export''), w)),
      kUpdateService = (\<lambda>x w. (Ok x, w)), kUpdateServiceImport = (\<lambda>x w. (Ok x, w)),
      kUpdateEndpointSlice = (\<lambda>x w. (Ok x, w)), kCreateService = (\<lambda>x w. (Ok (), w)),
      kCreateServiceImport = (\<lambda>x w. (Ok (), w)), kCreateEndpointSlice = (\<lambda>x w. (Ok (), w)),
      kDeleteService = (\<lambda>x w. (Ok (), w)), kDeleteServiceImport = (\<lambda>x w. (Ok (), w)),
      kDeleteEndpointSlice = (\<lambda>x w. (Ok (), w)), kDeleteAllOfEndpointSlices = (\<lambda>n l w. (Ok (), w))\<rparr>"

definition small_manager :: "small_world manager" where
  "small_manager =
     \<lparr>mgClient = small_k8s, mgEnv = small_env, mgExt = example_ext,
      mgBuild = \<lparr>GitVersion = ''v1.0'', GitCommit = ''abc'', PackageName = ''p''\<rparr>,
      mgSetControllerReference = (\<lambda>svc ex. Ok ex)\<rparr>"

definition small_observer :: "small_world cloud_observer" where
  "small_observer =
     \<lparr>coInstances = (\<lambda>w k. if k = small_key then swInstances w else fmempty),
      coServiceId = (\<lambda>w k. if k = small_key then Some ''srv-1'' else None),
      coNamespaceId = (\<lambda>w n. if n = ''default'' then Some ''ns-1'' else None),
      coExports = (\<lambda>w k. if k = small_key then swExport w else None),
      coAccepted = (\<lambda>opId svcId i v w. svcId = ''srv-1'' \<longrightarrow> fmlookup (swInstances w) i = v)\<rparr>"

lemma small_api:
  "api_GetNamespaceMap (ceApi small_env) w =
     (Ok (fmupd ''default'' \<lparr>nsId = ''ns-1'', nsName = ''default'', nsType = HttpNamespaceType\<rparr> fmempty), w)"
  "api_GetServiceIdMap (ceApi small_env) i w = (Ok (if i = ''ns-1'' then fmupd ''web'' ''srv-1'' fmempty else fmempty), w)"
  "api_DiscoverInstances (ceApi small_env) n v (set_query cs) w =
     (if (n, v) = small_key
      then Ok (map (\<lambda>(i, a). instance_of i a) (filter (\<lambda>(i, a). fmlookup a ClusterSetIdAttr = Some cs)
        (map_entries sorted_order (swInstances w))))
      else Err (ErrText ''service not found''), w)"
  "snd (api_DiscoverInstances (ceApi small_env) n v q w) = w"
  "poll_condition (api_GetOperation (ceApi small_env)) opId w =
     (Ok (Some \<lparr>opStatus = ''SUCCESS'', opErrorMessage = None, opTargets = fmempty\<rparr>), w)"
  "api_CreateHttpNamespace (ceApi small_env) n w = (Err (ErrText ''no''), w)"
  "api_CreateService (ceApi small_env) N v w = (Err (ErrText ''no''), w)"
  "api_RegisterInstance (ceApi small_env) s j a w =
     (Ok ''op'', if s = ''srv-1'' then w\<lparr>swInstances := fmupd j a (swInstances w)\<rparr> else w)"
  "api_DeregisterInstance (ceApi small_env) s j w =
     (Ok ''op'', if s = ''srv-1'' then w\<lparr>swInstances := fmdrop j (swInstances w)\<rparr> else w)"
proof -
  have wait: "api_wait (ceApi small_env) ev w = (Ok (), w)" if "\<forall>s. ev \<noteq> OtherEvent s" for ev and w :: small_world
    using default_limiter_defined [OF that]
    by (auto simp: api_wait_def rate_limiter_wait_def small_env_def NewServiceDiscoveryApiFromConfig_def small_facade_def)
  have f: "apiFacade (ceApi small_env) = small_facade" by (simp add: small_env_def NewServiceDiscoveryApiFromConfig_def)
  note defs = bind_ok_def wait f small_facade_def
  show "api_GetNamespaceMap (ceApi small_env) w =
     (Ok (fmupd ''default'' \<lparr>nsId = ''ns-1'', nsName = ''default'', nsType = HttpNamespaceType\<rparr> fmempty), w)"
    by (simp add: api_GetNamespaceMap_def defs add_namespace_def IsUnsupported_def ConvertNamespaceType_def
        aws_ToString_def HttpNamespaceType_def UnsupportedNamespaceType_def)
  show "api_GetServiceIdMap (ceApi small_env) i w = (Ok (if i = ''ns-1'' then fmupd ''web'' ''srv-1'' fmempty else fmempty), w)"
    by (simp add: api_GetServiceIdMap_def defs add_service_def aws_ToString_def)
  show "api_DiscoverInstances (ceApi small_env) n v (set_query cs) w =
     (if (n, v) = small_key
      then Ok (map (\<lambda>(i, a). instance_of i a) (filter (\<lambda>(i, a). fmlookup a ClusterSetIdAttr = Some cs)
        (map_entries sorted_order (swInstances w))))
      else Err (ErrText ''service not found''), w)"
    by (simp add: api_DiscoverInstances_def defs set_query_def)
  show "snd (api_DiscoverInstances (ceApi small_env) n v q w) = w"
    by (simp add: api_DiscoverInstances_def defs)
  show "poll_condition (api_GetOperation (ceApi small_env)) opId w =
     (Ok (Some \<lparr>opStatus = ''SUCCESS'', opErrorMessage = None, opTargets = fmempty\<rparr>), w)"
    by (simp add: poll_condition_def api_GetOperation_def defs OperationStatusSuccess_def)
  show "api_CreateHttpNamespace (ceApi small_env) n w = (Err (ErrText ''no''), w)"
    "api_CreateService (ceApi small_env) N v w = (Err (ErrText ''no''), w)"
    by (simp_all add: api_CreateHttpNamespace_def api_CreateService_def defs)
  show "api_RegisterInstance (ceApi small_env) s j a w =
     (Ok ''op'', if s = ''srv-1'' then w\<lparr>swInstances := fmupd j a (swInstances w)\<rparr> else w)"
    "api_DeregisterInstance (ceApi small_env) s j w =
     (Ok ''op'', if s = ''srv-1'' then w\<lparr>swInstances := fmdrop j (swInstances w)\<rparr> else w)"
    by (simp_all add: api_RegisterInstance_def api_DeregisterInstance_def defs id_result_def aws_ToString_def)
qed

lemma small_observer_simps [simp]:
  "coInstances small_observer w k = (if k = small_key then swInstances w else fmempty)"
  "coServiceId small_observer w k = (if k = small_key then Some ''srv-1'' else None)"
  "coNamespaceId small_observer w n = (if n = ''default'' then Some ''ns-1'' else None)"
  "coExports small_observer w k = (if k = small_key then swExport w else None)"
  "coAccepted small_observer opId svcId i v w \<longleftrightarrow> (svcId = ''srv-1'' \<longrightarrow> fmlookup (swInstances w) i = v)"
  by (simp_all add: small_observer_def)

lemma small_still: "still small_observer f" if "\<And>w. snd (f w) = w"
  using that by (simp add: still_def same_cloud_def)

lemma small_reads: "reads_truly small_env small_observer demo_props"
proof -
  have props: "ceListProps small_env w = (Ok [\<lparr>propName = ClusterIdPropertyName, propValue = ''c1''\<rparr>,
      \<lparr>propName = ClusterSetIdPropertyName, propValue = ''set1''\<rparr>], w)" for w
    by (simp add: small_env_def)
  have "lists_truly (ceListProps small_env) demo_props"
    by (simp add: lists_truly_def props demo_props_def ClusterIdPropertyName_def ClusterSetIdPropertyName_def)
  moreover have "set (map (\<lambda>(i, a). instance_of i a) (filter (\<lambda>(i, a). fmlookup a ClusterSetIdAttr = Some cs)
      (map_entries sorted_order m))) = {instance_of i a |i a. fmlookup m i = Some a \<and> fmlookup a ClusterSetIdAttr = Some cs}" for m cs
    using set_map_entries [OF sorted_order_is_range_order, of m] by auto
  ultimately show ?thesis
    unfolding reads_truly_def answers_def by (simp add: props small_api del: split_paired_All)
qed

lemma small_cloud_laws: "cloud_laws small_env small_observer demo_props"
proof -
  have "well_founded_cloud small_observer" by (simp add: well_founded_cloud_def)
  moreover have "calls_are_still small_env small_observer"
    unfolding calls_are_still_def
    by (intro conjI allI small_still; (simp add: small_api; fail | simp add: small_env_def; fail))
  moreover have "operations_apply small_env small_observer"
    by (auto simp: operations_apply_def grows_def writes_instance_def wrote_def small_api simp del: split_paired_All split: if_splits)
  ultimately show ?thesis using small_reads by (simp add: cloud_laws_def)
qed


lemma small_api_laws:
  "api_read_laws small_manager small_observer demo_props" "api_update_laws small_manager small_observer"
  "api_import_laws small_manager small_observer"
proof -
  have k: "mgClient small_manager = small_k8s" "mgEnv small_manager = small_env" by (simp_all add: small_manager_def)
  have props: "lists_truly (kListClusterProperties small_k8s) demo_props"
    using small_reads by (simp add: reads_truly_def small_k8s_def)
  have still: "still small_observer (kGetServiceExport small_k8s key)" "still small_observer (kGetService small_k8s key)"
    "still small_observer (kListEndpointSlices small_k8s n l)" "still small_observer (kListClusterProperties small_k8s)"
    "still small_observer (kListServiceExports small_k8s)" for key n l
    by (rule small_still; simp add: small_k8s_def small_env_def)+
  show "api_read_laws small_manager small_observer demo_props"
    unfolding api_read_laws_def Let_def k using props still
    by (auto simp: small_k8s_def plain_namespace_def demo_service_def meta_key_def zero_k8s_service_def
        split: option.splits if_splits)
  show "api_update_laws small_manager small_observer"
    by (auto simp: api_update_laws_def k small_k8s_def small_manager_def same_object_def same_cloud_def example_ext_finalizer_laws
        simp del: split_paired_All)
  show "api_import_laws small_manager small_observer"
    unfolding api_import_laws_def Let_def k
    by (intro conjI allI small_still) (auto simp: small_k8s_def)
qed


section \<open>Properties\<close>


text \<open>
  C17: the assembled Cloud Map client, with its cache and its own copy of the cluster properties, keeps the
  laws that the properties of the export controller assume of a client, as long as Cloud Map and the API
  server do as documented: its reads tell the endpoints of this cluster as they are, registering and de-registering
  change the registry as a map, and a coherent cache stays coherent.
\<close>

theorem assembled_client_keeps_export_laws:
  fixes M :: "'w manager"
  assumes "cloud_laws (mgEnv M) C props" and "api_read_laws M C props" and "api_update_laws M C"
  shows "export_laws (main_reconciler M :: ('c, 'w) client reconciler) (main_observer C props) (cpClusterId props)"
  using assms by (rule main_export_laws)







section \<open>The properties at work in the small world\<close>

type_synonym small_cache = "string \<Rightarrow> (cache_entry \<times> int) option"

definition small_export :: service_export where
  "small_export = \<lparr>sxMeta = zero_meta\<lparr>omNamespace := ''default'', omName := ''web'', omFinalizers := [ServiceExportFinalizer]\<rparr>\<rparr>"

definition small_empty :: small_world where
  "small_empty = \<lparr>swInstances = fmempty, swExport = Some small_export\<rparr>"

definition small_full :: small_world where
  "small_full = small_empty\<lparr>swInstances := (let e = example_endpoint ''10.0.0.1'' ''c1'' in
     fmupd (epId e) (GetCloudMapAttributes e) fmempty)\<rparr>"

abbreviation small_client :: "small_world \<Rightarrow> (small_cache, small_world) client" where
  "small_client \<equiv> main_client example_lru"

lemma small_covered: "covered small_observer demo_props small_empty" "covered small_observer demo_props small_full"
  by (simp_all add: covered_def small_empty_def small_full_def small_export_def has_finalizer_def
      zero_meta_def)

lemma small_manager_env [simp]: "mgEnv small_manager = small_env" "mgClient small_manager = small_k8s"
  by (simp_all add: small_manager_def)

lemma small_order: "ceOrder small_env w = sorted_order"
  by (simp add: small_env_def)

lemma small_props: "props_IsValid demo_props" "cpClusterId demo_props = ''c1''" "cpClusterSetId demo_props = ''set1''"
  by (simp_all add: demo_props_def props_IsValid_def)

lemma small_client_properties:
  "clProps s = empty_properties \<Longrightarrow> client_properties small_env s = (Ok demo_props, s\<lparr>clProps := demo_props\<rparr>)"
  by (simp add: client_properties_def GetClusterProperties_def LoadClusterProperties_def empty_properties_def props_IsValid_def small_env_def set_property_def demo_props_def
      ClusterIdPropertyName_def ClusterSetIdPropertyName_def bind_ok_def)

lemma small_cache_defs:
  "clProps (small_client w) = empty_properties" "clCache (small_client w) = NewDefaultServiceDiscoveryClientCache example_lru" "clWorld (small_client w) = w"
  "ceNow small_env v = (0, v)"
  by (simp_all add: main_client_def NewDefaultServiceDiscoveryClient_def small_env_def)

lemma small_lru:
  "lruNew example_lru n = (\<lambda>k. None)" "lruAdd example_lru k v ttl now c = c(k \<mapsto> (v, now + ttl))"
  "lruGet example_lru k now c = (unexpired now (c k), c)" "lruRemove example_lru k c = c(k := None)"
  by (simp_all add: example_lru_def)

lemmas cache_defs = cache_read_def cache_write_def cache_evict_def GetCachedEndpoints_def CacheEndpoints_def EvictEndpoints_def
  GetServiceIdMap_def CacheServiceIdMap_def GetNamespaceMap_def CacheNamespaceMap_def
  NewDefaultServiceDiscoveryClientCache_def NewServiceDiscoveryClientCache_def small_lru unexpired_def second_def
  buildSvcKey_def buildEndptsKey_def svcKeyPrefix_def nsKey_def

definition small_known :: "endpoint list \<Rightarrow> small_world \<Rightarrow> (small_cache, small_world) client" where
  "small_known es w = (small_client w)\<lparr>clProps := demo_props,
     clCache := CacheEndpoints ''default'' ''web'' es 0 (CacheServiceIdMap ''default'' (fmupd ''web'' ''srv-1'' fmempty) 0
       (CacheNamespaceMap (fmupd ''default'' \<lparr>nsId = ''ns-1'', nsName = ''default'', nsType = HttpNamespaceType\<rparr> fmempty) 0
         (clCache (small_client w))))\<rparr>"

lemma small_get:
  assumes "decode_instances (map (\<lambda>(i, a). instance_of i a) (filter (\<lambda>(i, a). fmlookup a ClusterSetIdAttr = Some ''set1'')
        (map_entries sorted_order (swInstances w)))) = Ok es"
  shows "GetService small_env ''default'' ''web'' (small_client w) = (Ok (make_service ''default'' ''web'' es), small_known es w)"
proof -
  have q: "Some (fmupd ClusterSetIdAttr ''set1'' fmempty) = set_query ''set1''" by (simp add: set_query_def)
  show ?thesis
    by (simp add: GetService_def getServiceId_def getServiceIds_def getNamespace_def getNamespaces_def getEndpoints_def
        bind_ok_def in_world_def small_known_def small_client_properties small_props q small_api assms small_cache_defs cache_defs
        Let_def)
qed


lemma small_submit:
  "SubmitAndAwait (poller_of small_env [api_RegisterInstance (ceApi small_env) ''srv-1'' i a] v) [] w
     = (Ok (), w\<lparr>swInstances := fmupd i a (swInstances w)\<rparr>)"
proof -
  have "cePolls small_env v j = 30" for j by (simp add: small_env_def)
  then show ?thesis
    by (simp add: SubmitAndAwait_def poller_of_def poller_init_def routine_step_def poller_threads_def
        await_result_def small_api numeral_nat)
qed

definition small_registered :: "endpoint \<Rightarrow> small_world \<Rightarrow> (small_cache, small_world) client" where
  "small_registered e w = (small_known [] w)\<lparr>clCache := EvictEndpoints ''default'' ''web'' (clCache (small_known [] w)),
     clWorld := w\<lparr>swInstances := fmupd (epId e) (GetCloudMapAttributes e) (swInstances w)\<rparr>\<rparr>"

lemma small_register:
  "RegisterEndpoints small_env ''default'' ''web'' [e] (small_known [] w) = (Ok (), small_registered e w)"
proof -
  have id: "getServiceId small_env ''default'' ''web'' (small_known [] w) = (Ok ''srv-1'', small_known [] w)"
    by (simp add: getServiceId_def getServiceIds_def bind_ok_def small_known_def small_cache_defs cache_defs Let_def)
  have "ceSchedule small_env v = []" "clWorld (small_known [] w) = w" for v
    by (simp_all add: small_env_def small_known_def small_cache_defs)
  then show ?thesis
    by (simp add: RegisterEndpoints_def bind_ok_def id run_operations_def in_world_def small_submit small_registered_def)
qed

lemma small_extraction:
  "\<exists>e. endpoints_of_slices (export_context_of (main_reconciler small_manager :: (small_cache, small_world) client reconciler)
      demo_props (demo_service small_key) small_export) demo_slices = Ok [e]
    \<and> fits_registry demo_props e \<and> epIP e = ''10.0.0.1''"
  by (simp add: endpoints_of_slices_def demo_slices_def endpoints_of_def EndpointPortToPort_def
      PortToEndpointPort_def make_endpoint_def export_context_of_def demo_props_def fits_registry_def registrable_def
      example_port_def port_in_range_def reserved_keys_def attr_key_defs zero_port_def demo_service_def zero_k8s_service_def
      servicePortMap_def main_reconciler_def small_export_def zero_meta_def ExtractServiceType_def)

lemma small_reload:
  "clusterPropertyMappingFunction (main_reconciler small_manager) (empty_properties, small_client w)
     = (Ok [], demo_props, small_client w)"
  by (simp add: clusterPropertyMappingFunction_def LoadClusterProperties_def client_ops_beside_def small_k8s_def small_env_def
      empty_properties_def props_IsValid_def set_property_def demo_props_def in_world_def on_world_def
      ClusterIdPropertyName_def ClusterSetIdPropertyName_def bind_ok_def)

lemma small_update:
  assumes e: "endpoints_of_slices (export_context_of (main_reconciler small_manager :: (small_cache, small_world) client reconciler)
      demo_props (demo_service small_key) small_export) demo_slices = Ok [e]"
    and get: "GetService small_env ''default'' ''web'' c = (Ok (make_service ''default'' ''web'' []), small_known [] small_empty)"
    and empty: "clWorld c = small_empty"
  shows "handleUpdate (main_reconciler small_manager) ''c1'' small_export (demo_service small_key)
     (demo_props, c) = (Ok (), demo_props, small_registered e small_empty)"
proof -
  let ?R = "main_reconciler small_manager :: (small_cache, small_world) client reconciler"
  let ?svc = "demo_service small_key" and ?s = "(demo_props, c)"
  let ?known = "(demo_props, small_known [] small_empty)"
  have meta: "omNamespace (svMeta ?svc) = ''default''" "omName (svMeta ?svc) = ''web''"
    by (simp_all add: demo_service_def)
  have world: "clWorld c = small_empty" "swExport small_empty = stored small_export"
    using empty by (simp_all add: small_empty_def small_export_def stored_def zero_meta_def)
  have "addFinalizerAndOwnerRef ?R small_export ?svc ?s = (Ok small_export, ?s)"
    using world by (simp add: addFinalizerAndOwnerRef_def addFinalizer_def on_world_def in_world_def small_k8s_def
        small_export_def example_ext_finalizers meta_key_def zero_meta_def small_manager_def bind_ok_def)
  moreover have "createOrGetCloudMapService ?R ?svc ?s = (Ok (make_service ''default'' ''web'' []), ?known)"
    using get by (simp add: createOrGetCloudMapService_def meta on_world_def)
  moreover have "extractEndpoints ?R ?svc small_export ?known = (Ok [e], ?known)"
    using e by (simp add: extractEndpoints_def properties_cached small_props meta on_world_def in_world_def small_k8s_def bind_ok_def
        small_known_def small_cache_defs)
  moreover have "CalculateChanges (reOrder ?R (snd ?known)) \<lparr>planCurrent = GetEndpoints (make_service ''default'' ''web'' []) ''c1'',
      planDesired = [e]\<rparr> = \<lparr>chCreate = [e], chUpdate = [], chDelete = []\<rparr>"
    by (simp add: CalculateChanges_def GetEndpoints_def make_service_def small_order sorted_order_def map_values_def GoPrelude.map_entries_def)
  ultimately show ?thesis
    by (simp add: small_register handleUpdate_def bind_ok_def execute_changes_def HasUpdates_def HasDeletes_def on_world_def meta)
qed



lemma assembled_client_keeps_export_laws_witness:
  "export_laws (main_reconciler small_manager :: (small_cache, small_world) client reconciler)
     (main_observer small_observer demo_props) ''c1''"
  using assembled_client_keeps_export_laws [of small_manager small_observer demo_props] small_cloud_laws small_api_laws
  by (simp add: small_props)




text \<open>A scheme as the list of what it knows.\<close>

type_synonym small_scheme = "(group_version \<times> string) list"

definition small_scheme_ops :: "small_scheme scheme_ops" where
  "small_scheme_ops =
     \<lparr>suNewScheme = [], suClientGo = (\<lambda>s. Ok ((\<lparr>gvGroup = '''', gvVersion = ''v1''\<rparr>, ''Service'') # s)),
      suAddToScheme = (\<lambda>b s. Ok (map (Pair (sbGroupVersion b)) (concat (sbRegistered b)) @ s))\<rparr>"

lemma small_scheme_laws: "scheme_laws small_scheme_ops (\<lambda>s gv kind. (gv, kind) \<in> set s)"
  by (auto simp: scheme_laws_def small_scheme_ops_def)

definition small_platform :: "(small_scheme, small_cache, small_world) platform" where
  "small_platform =
     \<lparr>ptScheme = small_scheme_ops, ptParseFlags = (\<lambda>args opts. Ok opts), ptNewManager = (\<lambda>opts w. (Ok small_k8s, w)),
      ptLoadDefaultConfig = (\<lambda>w. (Ok \<lparr>awsRegion = ''us-west-2'', awsNewClient = (\<lambda>f. small_facade)\<rparr>, w)),
      ptSetup = (\<lambda>setup w. (Ok (), w)), ptAdd = (\<lambda>R w. (Ok (), w)),
      ptAddHealthzCheck = (\<lambda>w. (Ok (), w)), ptAddReadyzCheck = (\<lambda>w. (Ok (), w)),
      ptStart = (\<lambda>M s. case ReconcileExport (main_reconciler M) small_key (msExportProps s, msClient s) of
        (r, p, c) \<Rightarrow> (Ok (), s\<lparr>msExportProps := p, msClient := c\<rparr>)),
      ptNow = ceNow small_env, ptOrder = ceOrder small_env, ptSchedule = ceSchedule small_env, ptPolls = cePolls small_env,
      ptExt = example_ext, ptBuild = mgBuild small_manager, ptSetControllerReference = mgSetControllerReference small_manager\<rparr>"

lemma small_platform_laws: "platform_laws small_platform small_observer demo_props"
proof -
  have "manager_of small_platform small_k8s \<lparr>awsRegion = ''us-west-2'', awsNewClient = (\<lambda>f. small_facade)\<rparr> = small_manager"
    by (simp add: manager_of_def small_platform_def small_manager_def small_env_def small_k8s_def NewAwsFacadeFromConfig_def)
  then have "manager_laws (manager_of small_platform k cfg) small_observer demo_props"
    if "fst (ptNewManager small_platform opts w) = Ok k" "fst (ptLoadDefaultConfig small_platform v) = Ok cfg" for k cfg opts w v
    using that small_cloud_laws small_api_laws by (auto simp: small_platform_def manager_laws_def)
  moreover have "main_run M small_observer demo_props s s'" if "ptStart small_platform M s = (r, s')" for M s r s'
  proof -
    obtain r' p c where "ReconcileExport (main_reconciler M) small_key (msExportProps s, msClient s) = (r', p, c)"
      by (rule prod_cases3)
    with that show ?thesis by (auto simp: small_platform_def intro: main_step.export)
  qed
  moreover have "set_up_quietly small_platform small_observer"
    unfolding set_up_quietly_def by (intro conjI allI small_still) (simp_all add: small_platform_def)
  ultimately show ?thesis unfolding platform_laws_def by blast
qed


end
