(* ===== verification/IntegrationProperties.thy ===== *)
theory IntegrationProperties
  imports ExportScenario Janitor MainProperties
begin

text \<open>
  The properties of the commands of the integration tests, \<open>integration/shared/scenarios/runner\<close> and
  \<open>integration/janitor/runner\<close>, with witnesses in the small world of \<open>MainProperties\<close>.
\<close>

section \<open>Properties\<close>


text \<open>
  C39: when the clean-up command ends without error and the namespace it was given exists, every service that Cloud Map listed for
  that namespace has been deleted, whatever the order in which they were visited.
\<close>

theorem janitor_deletes_every_service:
  assumes "janitor_main loadDefaultConfig clients args w = (Ok (), w')" and "loadDefaultConfig w = (Ok cfg, w0)"
    and "janitor_contract \<lparr>jaClusterId = args ! 2, jaClusterSetId = args ! 3, jaEnv = fst (clients cfg),
      jaFacade = snd (clients cfg)\<rparr> gone"
    and "api_GetNamespaceMap (ceApi (fst (clients cfg))) w0 = (Ok nsMap, w1)" and "fmlookup nsMap (args ! 1) = Some N"
    and "api_GetServiceIdMap (ceApi (fst (clients cfg))) (nsId N) w1 = (Ok svcIdMap, w2)"
    and "\<forall>v. is_range_order (ceOrder (fst (clients cfg)) v)" and "fmlookup svcIdMap svc = Some svcId"
  shows "length args = 4 \<and> gone svcId w'"
proof
  show len: "length args = 4" using assms(1) by (auto simp: janitor_main_def split: if_splits)
  let ?j = "\<lparr>jaClusterId = args ! 2, jaClusterSetId = args ! 3, jaEnv = fst (clients cfg), jaFacade = snd (clients cfg)\<rparr>"
  have "Cleanup ?j (args ! 1) w0 = (Ok (), w')"
    using assms(1,2) len by (auto simp: janitor_main_def NewDefaultJanitor_def bind_ok_eq_Ok return_value_def)
  then show "gone svcId w'" by (rule Cleanup_deletes [OF assms(3)]) (use assms(4-8) in simp_all)
qed

section \<open>Witnesses\<close>

text \<open>AWS refuses to delete a service that has instances.\<close>

definition small_janitor_facade :: "small_world sdk_janitor_facade" where
  "small_janitor_facade =
     \<lparr>jfDeleteNamespace = (\<lambda>i w. (Ok (Some ''op''), w)),
      jfDeleteService = (\<lambda>i w. (if i = ''srv-1'' \<and> swInstances w \<noteq> fmempty then Err (ErrText ''in use'') else Ok (), w))\<rparr>"

definition small_gone :: "string \<Rightarrow> small_world \<Rightarrow> bool" where
  "small_gone svcId w \<longleftrightarrow> (svcId = ''srv-1'' \<longrightarrow> swInstances w = fmempty)"

lemma small_janitor_contract:
  "janitor_contract \<lparr>jaClusterId = a, jaClusterSetId = b, jaEnv = small_env, jaFacade = small_janitor_facade\<rparr> small_gone"
proof -
  have "snd (api_DiscoverInstances (ceApi small_env) n v q w) = w" for n v q w by (rule small_api(4))
  then show ?thesis
    by (auto simp: janitor_contract_def small_janitor_facade_def small_gone_def keeps_def small_api split: if_splits) 
qed


lemma small_deregister:
  "SubmitAndAwait (poller_of small_env [api_DeregisterInstance (ceApi small_env) ''srv-1'' i] v) [] w
     = (Ok (), w\<lparr>swInstances := fmdrop i (swInstances w)\<rparr>)"
proof -
  have "cePolls small_env v j = 30" for j by (simp add: small_env_def)
  then show ?thesis
    by (simp add: SubmitAndAwait_def poller_of_def poller_init_def routine_step_def poller_threads_def
        await_result_def small_api numeral_nat)
qed

lemma janitor_deletes_every_service_witness:
  "\<exists>w'. janitor_main (\<lambda>w. (Ok (), w)) (\<lambda>cfg. (small_env, small_janitor_facade)) [''janitor'', ''default'', ''c1'', ''set1''] small_full
      = (Ok (), w') \<and> swInstances small_full \<noteq> fmempty \<and> swInstances w' = fmempty"
proof -
  let ?args = "[''janitor'', ''default'', ''c1'', ''set1'']" and ?e = "example_endpoint ''10.0.0.1'' ''c1''"
  let ?j = "\<lparr>jaClusterId = ''c1'', jaClusterSetId = ''set1'', jaEnv = small_env, jaFacade = small_janitor_facade\<rparr>"
  let ?main = "janitor_main (\<lambda>w. (Ok (), w)) (\<lambda>cfg. (small_env, small_janitor_facade)) ?args small_full"
  have q: "Some (fmupd ClusterSetIdAttr ''set1'' fmempty) = set_query ''set1''" by (simp add: set_query_def)
  have a: "fmlookup (GetCloudMapAttributes ?e) ClusterSetIdAttr = Some ''set1''"
    using registered_cluster_set [OF example_registrable] by (simp add: example_endpoint_def)
  have full: "swInstances small_full = fmupd (epId ?e) (GetCloudMapAttributes ?e) fmempty" by (simp add: small_full_def Let_def)
  have none: "fmdrop i (fmupd i x fmempty) = fmempty" for i :: string and x :: attrs by (rule fmap_ext) simp
  have "ceSchedule small_env v = []" for v by (simp add: small_env_def)
  then have d: "deregisterInstances ?j ''default'' ''web'' ''srv-1'' small_full = (Ok (), small_full\<lparr>swInstances := fmempty\<rparr>)"
    by (simp add: deregisterInstances_def Let_def bind_ok_def q small_api full GoPrelude.map_entries_def sorted_order_def a instance_of_def
        aws_ToString_def small_deregister none)
  have jf: "jfDeleteNamespace small_janitor_facade i w = (Ok (Some ''op''), w)"
    "jfDeleteService small_janitor_facade ''srv-1'' (small_full\<lparr>swInstances := fmempty\<rparr>) = (Ok (), small_full\<lparr>swInstances := fmempty\<rparr>)" for i w
    by (simp_all add: small_janitor_facade_def)
  have polls: "cePolls small_env v i = 30" for v i by (simp add: small_env_def)
  have run: "?main = (Ok (), small_full\<lparr>swInstances := fmempty\<rparr>)"
    by (simp add: janitor_main_def NewDefaultJanitor_def Cleanup_def bind_ok_def small_api small_order GoPrelude.map_entries_def
        sorted_order_def d api_DeleteService_def api_DeleteNamespace_def id_result_def aws_ToString_def jf polls numeral_nat)
  have "small_gone ''srv-1'' (small_full\<lparr>swInstances := fmempty\<rparr>)"
    using janitor_deletes_every_service [OF run refl, of small_gone, simplified, OF small_janitor_contract small_api(1)]
    by (simp add: small_api small_order sorted_order_is_range_order)
  with run full show ?thesis by (simp add: small_gone_def)
qed

definition scenario_args :: "string list" where
  "scenario_args = [''scenario'', ''default'', ''web'', ''c1'', ''set1'', ''80'', ''8080'', ''ClusterSetIP'', ''IPv4'', ''10.0.0.1'']"

definition scenario_endpoint :: endpoint where
  "scenario_endpoint = expected_endpoint 80 8080 ''80'' AddressTypeIPv4 ''c1'' ''set1'' ''ClusterSetIP'' ''10.0.0.1''"

definition scenario_world :: small_world where
  "scenario_world = small_empty\<lparr>swInstances := fmupd (epId scenario_endpoint) (GetCloudMapAttributes scenario_endpoint) fmempty\<rparr>"

lemma scenario_endpoint_registrable: "registrable scenario_endpoint" "epClusterSetId scenario_endpoint = ''set1''"
  "comparable scenario_endpoint = scenario_endpoint"
  by (simp_all add: registrable_def scenario_endpoint_def expected_endpoint_def zero_port_def port_in_range_def
      reserved_keys_def attr_key_defs comparable_def Let_def)

lemma scenario_new:
  "\<exists>x. NewExportServiceScenario example_lru ''default'' ''web'' ''c1'' ''set1'' ''80'' ''8080'' ''ClusterSetIP'' ''IPv4'' ''10.0.0.1'' w = Ok x
     \<and> esExpectedSvc x = \<lparr>svcNamespace = ''default'', svcName = ''web'', svcEndpoints = [scenario_endpoint]\<rparr>
     \<and> esSdClient x = NewServiceDiscoveryClientWithCustomCache example_lru
         \<lparr>NsTTL = second, SvcTTL = second, EndptTTL = second\<rparr> demo_props w"
proof -
  have "ParseUint16 ''80'' = Ok 80" "ParseUint16 ''8080'' = Ok 8080"
    by (simp_all add: ParseUint16_def parse_uint_def digit_of_def)
  then show ?thesis
    by (simp add: NewExportServiceScenario_def GetAddressTypeFromString_def AddressTypeIPv4_def scenario_endpoint_def demo_props_def)
qed

lemma scenario_get:
  assumes "decode_instances (map (\<lambda>(i, a). instance_of i a) (filter (\<lambda>(i, a). fmlookup a ClusterSetIdAttr = Some ''set1'')
        (map_entries sorted_order (swInstances w)))) = Ok es"
  shows "\<exists>s. GetService small_env ''default'' ''web''
      (NewServiceDiscoveryClientWithCustomCache example_lru cfg demo_props w) = (Ok (make_service ''default'' ''web'' es), s)"
proof -
  have q: "Some (fmupd ClusterSetIdAttr ''set1'' fmempty) = set_query ''set1''" by (simp add: set_query_def)
  have p: "client_properties small_env s = (Ok demo_props, s)" if "clProps s = demo_props" for s :: "(small_cache, small_world) client"
    using that small_props(1) by (simp add: client_properties_def GetClusterProperties_def)
  show ?thesis
    by (simp add: GetService_def getServiceId_def getServiceIds_def getNamespace_def getNamespaces_def getEndpoints_def
        bind_ok_def in_world_def NewServiceDiscoveryClientWithCustomCache_def p small_props q small_api assms
        small_cache_defs cache_defs Let_def)
qed



end
