(* ===== verification/Overlap.thy ===== *)
theory Overlap
  imports MainProperties
begin

text \<open>
  What goes wrong when reconciles overlap. The two reconcilers run in goroutines of their own and share the
  client's cache. A read of endpoints is a call of Cloud Map and then a write to the cache; between the two, the other goroutine can
  register endpoints and evict the entry. Here the read is split at that point, and one such interleaving is run.
\<close>

section \<open>A read in two steps\<close>

definition discover_endpoints ::
  "'w client_env \<Rightarrow> string \<Rightarrow> string \<Rightarrow> ('c, 'w) client \<Rightarrow> endpoint list outcome \<times> ('c, 'w) client" where
  "discover_endpoints E ns svc =
     bind_ok (client_properties E) (\<lambda>props.
       bind_ok (in_world (api_DiscoverInstances (ceApi E) ns svc
           (Some (fmupd ClusterSetIdAttr (cpClusterSetId props) fmempty)))) (\<lambda>insts. Pair (decode_instances insts)))"

definition store_endpoints ::
  "'w client_env \<Rightarrow> string \<Rightarrow> string \<Rightarrow> endpoint list \<Rightarrow> ('c, 'w) client \<Rightarrow> endpoint list outcome \<times> ('c, 'w) client" where
  "store_endpoints E ns svc endpts =
     bind_ok (cache_write E (CacheEndpoints ns svc endpts)) (\<lambda>_. return_value endpts)"

text \<open>Without anything between the two steps, they are \<open>getEndpoints\<close> after a cache miss.\<close>

lemma getEndpoints_two_steps:
  "getEndpoints E ns svc s =
     bind_ok (cache_read E (GetCachedEndpoints ns svc)) (\<lambda>found.
       case found of
         Some endpts \<Rightarrow> return_value endpts
       | None \<Rightarrow> bind_ok (discover_endpoints E ns svc) (store_endpoints E ns svc)) s"
  by (simp add: getEndpoints_def discover_endpoints_def store_endpoints_def [abs_def] bind_ok_assoc cong: option.case_cong)

section \<open>An overlap that leaks\<close>

definition small_marked :: service_export where
  "small_marked = small_export\<lparr>sxMeta := (sxMeta small_export)\<lparr>omDeletionTimestamp := Some 5\<rparr>\<rparr>"

text \<open>The client after it has read the ids of the services of the namespace.\<close>

definition small_listed :: "small_world \<Rightarrow> (small_cache, small_world) client" where
  "small_listed w = (small_client w)\<lparr>
     clCache := CacheServiceIdMap ''default'' (fmupd ''web'' ''srv-1'' fmempty) 0
       (CacheNamespaceMap (fmupd ''default'' \<lparr>nsId = ''ns-1'', nsName = ''default'', nsType = HttpNamespaceType\<rparr> fmempty) 0
         (clCache (small_client w)))\<rparr>"

lemma small_list: "getServiceIds small_env ''default'' (small_client w) = (Ok (fmupd ''web'' ''srv-1'' fmempty), small_listed w)"
  by (simp add: getServiceIds_def getNamespace_def getNamespaces_def bind_ok_def in_world_def small_listed_def small_api
      small_cache_defs cache_defs Let_def)

abbreviation small_read :: "small_world \<Rightarrow> (small_cache, small_world) client" where
  "small_read w \<equiv> (small_listed w)\<lparr>clProps := demo_props\<rparr>"

lemma small_query: "Some (fmupd ClusterSetIdAttr ''set1'' fmempty) = set_query ''set1''"
  by (simp add: set_query_def)

lemma small_discover: "discover_endpoints small_env ''default'' ''web'' (small_listed small_empty) = (Ok [], small_read small_empty)"
proof -
  have none: "map_entries sorted_order (swInstances small_empty) = []"
    by (simp add: small_empty_def GoPrelude.map_entries_def sorted_order_def)
  have "clProps (small_listed small_empty) = empty_properties" "clWorld (small_read small_empty) = small_empty"
    by (simp_all add: small_listed_def small_cache_defs)
  then show ?thesis
    by (simp add: discover_endpoints_def bind_ok_def in_world_def small_client_properties small_props small_query small_api none)
qed

lemma small_read_get:
  "GetService small_env ''default'' ''web'' (small_read small_empty)
     = (Ok (make_service ''default'' ''web'' []), small_known [] small_empty)"
proof -
  have none: "map_entries sorted_order (swInstances small_empty) = []"
    by (simp add: small_empty_def GoPrelude.map_entries_def sorted_order_def)
  show ?thesis
    by (simp add: GetService_def getServiceId_def getServiceIds_def getEndpoints_def client_properties_def GetClusterProperties_def
        bind_ok_def in_world_def small_known_def small_listed_def small_props small_query small_api none small_cache_defs cache_defs
        Let_def)
qed

lemma small_reconcile:
  assumes e: "endpoints_of_slices (export_context_of (main_reconciler small_manager :: (small_cache, small_world) client reconciler)
      demo_props (demo_service small_key) small_export) demo_slices = Ok [e]"
  shows "ReconcileExport (main_reconciler small_manager) small_key (demo_props, small_read small_empty)
     = (Ok (), demo_props, small_registered e small_empty)"
proof -
  have w: "clWorld (small_read small_empty) = small_empty"
    "(small_read small_empty)\<lparr>clWorld := small_empty\<rparr> = small_read small_empty"
    by (simp_all add: small_listed_def main_client_def NewDefaultServiceDiscoveryClient_def)
  have k: "kGetServiceExport small_k8s small_key small_empty = (Ok small_export, small_empty)"
    "kGetService small_k8s small_key small_empty = (Ok (demo_service small_key), small_empty)"
    "meta_key (sxMeta small_export) = small_key"
    by (simp_all add: small_k8s_def small_empty_def small_export_def zero_meta_def meta_key_def)
  have m: "omDeletionTimestamp (sxMeta small_export) = None" "omNamespace (sxMeta small_export) = ''default''"
    "omName (sxMeta small_export) = ''web''"
    by (simp_all add: small_export_def zero_meta_def)
  show ?thesis
    by (simp add: ReconcileExport_def on_world_def in_world_def w k m Let_def properties_cached small_props bind_ok_def
        small_update [OF e small_read_get w(1)])
qed

definition small_stale :: "endpoint \<Rightarrow> (small_cache, small_world) client" where
  "small_stale e = (small_registered e small_empty)\<lparr>
     clCache := CacheEndpoints ''default'' ''web'' [] 0 (clCache (small_registered e small_empty)),
     clWorld := (clWorld (small_registered e small_empty))\<lparr>swExport := Some small_marked\<rparr>\<rparr>"

lemma small_stale_get:
  "GetService small_env ''default'' ''web'' (small_stale e) = (Ok (make_service ''default'' ''web'' []), small_stale e)"
  by (simp add: GetService_def bind_ok_def small_stale_def small_registered_def small_known_def small_cache_defs cache_defs)

lemma small_delete:
  "ReconcileExport (main_reconciler small_manager) small_key (demo_props, small_stale e)
     = (Ok (), demo_props, (small_stale e)\<lparr>clWorld := (clWorld (small_stale e))\<lparr>swExport := None\<rparr>\<rparr>)"
proof -
  have k: "kGetServiceExport small_k8s small_key (clWorld (small_stale e)) = (Ok small_marked, clWorld (small_stale e))"
    "kGetService small_k8s small_key w = (Ok (demo_service small_key), w)" for w
    by (simp_all add: small_k8s_def small_stale_def small_marked_def small_export_def zero_meta_def meta_key_def)
  have m: "omDeletionTimestamp (sxMeta small_marked) = Some 5" "omNamespace (sxMeta small_marked) = ''default''"
    "omName (sxMeta small_marked) = ''web''" "omFinalizers (sxMeta small_marked) = [ServiceExportFinalizer]"
    by (simp_all add: small_marked_def small_export_def zero_meta_def)
  have u: "kUpdateServiceExport small_k8s (small_marked\<lparr>sxMeta := (sxMeta small_marked)\<lparr>omFinalizers := []\<rparr>\<rparr>) w
      = (Ok (small_marked\<lparr>sxMeta := (sxMeta small_marked)\<lparr>omFinalizers := []\<rparr>\<rparr>), w\<lparr>swExport := None\<rparr>)" for w
    by (simp add: small_k8s_def meta_key_def m stored_def)
  have d: "DeleteEndpoints small_env ''default'' ''web'' (GetEndpoints (make_service ''default'' ''web'' []) ''c1'') s = (Ok (), s)" for s :: "(small_cache, small_world) client"
    by (simp add: DeleteEndpoints_def GetEndpoints_def make_service_def)
  have n: "svcNamespace (make_service ''default'' ''web'' []) = ''default''" "svcName (make_service ''default'' ''web'' []) = ''web''"
    by (simp_all add: make_service_def)
  show ?thesis
    by (simp add: ReconcileExport_def on_world_def in_world_def k m u d n Let_def properties_cached small_props bind_ok_def
        handleDelete_def delete_exported_def small_manager_def example_ext_finalizers small_stale_get)
qed

lemma own_of_single:
  assumes "fits_registry props e" and "epClusterId e = cpClusterId props"
  shows "own_of props (fmupd (epId e) (GetCloudMapAttributes e) fmempty) = {e}"
proof -
  have "NewEndpointFromInstance (instance_of (epId e) (GetCloudMapAttributes e)) = Ok e"
    using assms(1) decode_registered [of e] by (simp add: fits_registry_def as_instance_def instance_of_def)
  then show ?thesis using assms by (auto simp: own_of_iff fits_registry_def split: if_splits)
qed


end
