(* ===== verification/Interleaving.thy ===== *)
theory Interleaving
  imports ControllerMain
begin

text \<open>
  Reconciles that are not atomic. The import loop and the export controller run in goroutines of their own, and
  so do other clusters and users. Here an export reconcile is interleaved with all of them: at each call that it makes, to the API server or
  to the Cloud Map client, any number of actions of others may come first. A call itself is taken to be atomic; what
  happens when a read of the Cloud Map client is not is the matter of \<open>Overlap\<close>.

  An interleaving is given by a schedule, a list with one list of actions for each call. Interleaving is an operation
  on reconcilers: the code of the reconcile stays as it is, its two clients get the schedule into their state.
\<close>

section \<open>Interleaving a reconciler\<close>

type_synonym ('a, 'w) scheduled = "'a list list \<times> 'w"

definition after_others ::
  "('a \<Rightarrow> 'w \<Rightarrow> 'w) \<Rightarrow> ('w \<Rightarrow> 'b outcome \<times> 'w) \<Rightarrow> ('a, 'w) scheduled \<Rightarrow> 'b outcome \<times> ('a, 'w) scheduled" where
  "after_others act f s = (case f (fold act (concat (take 1 (fst s))) (snd s)) of (r, w) \<Rightarrow> (r, drop 1 (fst s), w))"

definition interleaved_client :: "('a \<Rightarrow> 'w \<Rightarrow> 'w) \<Rightarrow> 'w k8s_ops \<Rightarrow> ('a, 'w) scheduled k8s_ops" where
  "interleaved_client act K =
     \<lparr>kGetServiceExport = (\<lambda>k. after_others act (kGetServiceExport K k)),
      kGetService = (\<lambda>k. after_others act (kGetService K k)),
      kGetServiceImport = (\<lambda>k. after_others act (kGetServiceImport K k)),
      kListNamespaces = after_others act (kListNamespaces K),
      kListServiceExports = after_others act (kListServiceExports K),
      kListServiceImports = (\<lambda>n. after_others act (kListServiceImports K n)),
      kListServices = (\<lambda>n l. after_others act (kListServices K n l)),
      kListEndpointSlices = (\<lambda>n l. after_others act (kListEndpointSlices K n l)),
      kListClusterProperties = after_others act (kListClusterProperties K),
      kUpdateServiceExport = (\<lambda>x. after_others act (kUpdateServiceExport K x)),
      kUpdateService = (\<lambda>x. after_others act (kUpdateService K x)),
      kUpdateServiceImport = (\<lambda>x. after_others act (kUpdateServiceImport K x)),
      kUpdateEndpointSlice = (\<lambda>x. after_others act (kUpdateEndpointSlice K x)),
      kCreateService = (\<lambda>x. after_others act (kCreateService K x)),
      kCreateServiceImport = (\<lambda>x. after_others act (kCreateServiceImport K x)),
      kCreateEndpointSlice = (\<lambda>x. after_others act (kCreateEndpointSlice K x)),
      kDeleteService = (\<lambda>x. after_others act (kDeleteService K x)),
      kDeleteServiceImport = (\<lambda>x. after_others act (kDeleteServiceImport K x)),
      kDeleteEndpointSlice = (\<lambda>x. after_others act (kDeleteEndpointSlice K x)),
      kDeleteAllOfEndpointSlices = (\<lambda>n l. after_others act (kDeleteAllOfEndpointSlices K n l))\<rparr>"

definition interleaved_reconciler ::
  "('a \<Rightarrow> 'w \<Rightarrow> 'w) \<Rightarrow> 'w reconciler \<Rightarrow> ('a, 'w) scheduled reconciler" where
  "interleaved_reconciler act R =
     \<lparr>reClient = interleaved_client act (reClient R),
      reCloudMap = (let D = reCloudMap R in
        \<lparr>sdListServices = (\<lambda>n. after_others act (sdListServices D n)),
         sdCreateService = (\<lambda>n v. after_others act (sdCreateService D n v)),
         sdGetService = (\<lambda>n v. after_others act (sdGetService D n v)),
         sdRegisterEndpoints = (\<lambda>n v es. after_others act (sdRegisterEndpoints D n v es)),
         sdDeleteEndpoints = (\<lambda>n v es. after_others act (sdDeleteEndpoints D n v es))\<rparr>),
      reOrder = (\<lambda>s. reOrder R (snd s)), reExt = reExt R, reBuild = reBuild R,
      reSetControllerReference = reSetControllerReference R\<rparr>"

lemma interleaved_simps [simp]:
  "kGetServiceExport (reClient (interleaved_reconciler act R)) k = after_others act (kGetServiceExport (reClient R) k)"
  "kGetService (reClient (interleaved_reconciler act R)) k = after_others act (kGetService (reClient R) k)"
  "kListEndpointSlices (reClient (interleaved_reconciler act R)) n l = after_others act (kListEndpointSlices (reClient R) n l)"
  "kListClusterProperties (reClient (interleaved_reconciler act R)) = after_others act (kListClusterProperties (reClient R))"
  "kListServiceExports (reClient (interleaved_reconciler act R)) = after_others act (kListServiceExports (reClient R))"
  "kUpdateServiceExport (reClient (interleaved_reconciler act R)) x = after_others act (kUpdateServiceExport (reClient R) x)"
  "sdCreateService (reCloudMap (interleaved_reconciler act R)) n v = after_others act (sdCreateService (reCloudMap R) n v)"
  "sdGetService (reCloudMap (interleaved_reconciler act R)) n v = after_others act (sdGetService (reCloudMap R) n v)"
  "sdRegisterEndpoints (reCloudMap (interleaved_reconciler act R)) n v es
     = after_others act (sdRegisterEndpoints (reCloudMap R) n v es)"
  "sdDeleteEndpoints (reCloudMap (interleaved_reconciler act R)) n v es = after_others act (sdDeleteEndpoints (reCloudMap R) n v es)"
  "reOrder (interleaved_reconciler act R) s = reOrder R (snd s)" "reExt (interleaved_reconciler act R) = reExt R"
  "reBuild (interleaved_reconciler act R) = reBuild R"
  "reSetControllerReference (interleaved_reconciler act R) = reSetControllerReference R"
  by (simp_all add: interleaved_reconciler_def interleaved_client_def Let_def)

section \<open>Actions that do no harm\<close>

text \<open>
  An action does no harm when the observer of a reconciler does not see it. A schedule of such actions keeps every law
  that the export controller relies on.
\<close>

definition harmless :: "'w observer \<Rightarrow> ('w \<Rightarrow> 'w) \<Rightarrow> bool" where
  "harmless V g \<longleftrightarrow> (\<forall>w. obValid V w \<longrightarrow> obValid V (g w) \<and> obExports V (g w) = obExports V w \<and> obView V (g w) = obView V w)"

lemma unobserved_harmless: "unobserved V f \<Longrightarrow> harmless V (\<lambda>w. snd (f w))"
  by (simp add: unobserved_def harmless_def)

definition scheduled_observer ::
  "('a \<Rightarrow> 'w \<Rightarrow> 'w) \<Rightarrow> 'w observer \<Rightarrow> ('a, 'w) scheduled observer" where
  "scheduled_observer act V =
     \<lparr>obExports = (\<lambda>s. obExports V (snd s)), obView = (\<lambda>s. obView V (snd s)),
      obValid = (\<lambda>s. obValid V (snd s) \<and> (\<forall>as \<in> set (fst s). \<forall>a \<in> set as. harmless V (act a))),
      obKey = obKey V, obFits = obFits V\<rparr>"

lemma scheduled_observer_simps [simp]:
  "obExports (scheduled_observer act V) s = obExports V (snd s)" "obView (scheduled_observer act V) s = obView V (snd s)"
  "obValid (scheduled_observer act V) s \<longleftrightarrow> obValid V (snd s) \<and> (\<forall>as \<in> set (fst s). \<forall>a \<in> set as. harmless V (act a))"
  "obKey (scheduled_observer act V) = obKey V" "obFits (scheduled_observer act V) = obFits V"
  by (simp_all add: scheduled_observer_def)

lemma fold_harmless:
  assumes "\<forall>a \<in> set as. harmless V (act a)" and "obValid V w"
  shows "obValid V (fold act as w) \<and> obExports V (fold act as w) = obExports V w \<and> obView V (fold act as w) = obView V w"
  using assms by (induction as arbitrary: w) (auto simp: harmless_def)

definition others_first :: "('a \<Rightarrow> 'w \<Rightarrow> 'w) \<Rightarrow> ('a, 'w) scheduled \<Rightarrow> 'w" where
  "others_first act s = fold act (concat (take 1 (fst s))) (snd s)"

lemma after_others_eq:
  "after_others act f s = (r, s') \<longleftrightarrow> f (others_first act s) = (r, snd s') \<and> fst s' = drop 1 (fst s)"
  by (cases s') (auto simp: after_others_def others_first_def split: prod.splits)

lemma after_others_simps [simp]:
  "fst (after_others act f s) = fst (f (others_first act s))"
  "snd (snd (after_others act f s)) = snd (f (others_first act s))"
  "fst (snd (after_others act f s)) = drop 1 (fst s)"
  by (simp_all add: after_others_def others_first_def case_prod_beta)

lemma others_first_harmless:
  assumes "obValid (scheduled_observer act V) s"
  shows "obValid V (others_first act s)" "obExports V (others_first act s) = obExports V (snd s)"
    "obView V (others_first act s) = obView V (snd s)"
    "obValid (scheduled_observer act V) (drop 1 (fst s), w) \<longleftrightarrow> obValid V w"
proof -
  have "\<forall>a \<in> set (concat (take 1 (fst s))). harmless V (act a)"
    using assms by (auto dest: in_set_takeD)
  from fold_harmless [OF this, of "snd s"] assms
  show "obValid V (others_first act s)" "obExports V (others_first act s) = obExports V (snd s)"
    "obView V (others_first act s) = obView V (snd s)"
    by (simp_all add: others_first_def)
  show "obValid (scheduled_observer act V) (drop 1 (fst s), w) \<longleftrightarrow> obValid V w"
    using assms by (auto dest: in_set_dropD)
qed

lemma unobserved_after_others:
  assumes "unobserved V f"
  shows "unobserved (scheduled_observer act V) (after_others act f)"
  unfolding unobserved_def
proof (intro allI impI)
  fix s
  let ?V = "scheduled_observer act V"
  assume s: "obValid ?V s"
  note h = others_first_harmless [OF s]
  obtain r s' where f: "after_others act f s = (r, s')" by (rule prod.exhaust)
  then have "f (others_first act s) = (r, snd s')" "fst s' = drop 1 (fst s)" by (simp_all add: after_others_eq)
  with unobservedD [OF assms h(1)] h(2-4)
  show "obValid ?V (snd (after_others act f s)) \<and> obExports ?V (snd (after_others act f s)) = obExports ?V s
      \<and> obView ?V (snd (after_others act f s)) = obView ?V s"
    by (cases s') (auto simp: f simp del: split_paired_All)
qed

lemma own_endpoints_scheduled [simp]:
  "own_endpoints (scheduled_observer act V) cid s k = own_endpoints V cid (snd s) k"
  by (simp add: own_endpoints_def)

lemma interleaved_read_laws:
  assumes "read_laws R V"
  shows "read_laws (interleaved_reconciler act R) (scheduled_observer act V)"
proof -
  have "obExports V (snd s) k = Some ex \<and> meta_key (sxMeta ex) = k \<and> obKey V k"
    if "obValid (scheduled_observer act V) s" "fst (kGetServiceExport (reClient R) k (others_first act s)) = Ok ex" for k s ex
    unfolding others_first_harmless(2) [OF that(1), symmetric]
    using assms others_first_harmless(1) [OF that(1)] that(2) unfolding read_laws_def by blast
  then show ?thesis
    using assms unfolding read_laws_def interleaved_simps scheduled_observer_simps(1,4) after_others_simps
    by (intro conjI) (auto intro: unobserved_after_others simp del: split_paired_All scheduled_observer_simps)
qed

lemma interleaved_update_laws:
  assumes "update_laws R V"
  shows "update_laws (interleaved_reconciler act R) (scheduled_observer act V)"
proof -
  let ?V = "scheduled_observer act V"
  have "obValid ?V s' \<and> obView ?V s' = obView ?V s
      \<and> (\<forall>k. k \<noteq> meta_key (sxMeta ex) \<longrightarrow> obExports ?V s' k = obExports ?V s k)
      \<and> (case r of
           Ok ex' \<Rightarrow> same_object ex ex' \<and> obExports ?V s' (meta_key (sxMeta ex)) = stored ex'
         | _ \<Rightarrow> obExports ?V s' (meta_key (sxMeta ex)) = obExports ?V s (meta_key (sxMeta ex))
             \<or> (\<exists>ex'. same_object ex ex' \<and> obExports ?V s' (meta_key (sxMeta ex)) = stored ex'))"
    if s: "obValid ?V s" and u: "after_others act (kUpdateServiceExport (reClient R) ex) s = (r, s')" for ex s r s'
  proof -
    note h = others_first_harmless [OF s]
    have v: "kUpdateServiceExport (reClient R) ex (others_first act s) = (r, snd s')" and f: "fst s' = drop 1 (fst s)"
      using u by (simp_all add: after_others_eq)
    have "obValid ?V s' \<longleftrightarrow> obValid V (snd s')" using h(4) [of "snd s'"] f by (cases s') simp
    then show ?thesis
      using assms [unfolded update_laws_def, THEN conjunct2, THEN conjunct2, rule_format, OF h(1) v] h(2,3)
      by (cases r) (simp_all del: split_paired_All)
  qed
  then show ?thesis using assms unfolding update_laws_def interleaved_simps by blast
qed

lemma interleaved_registry_laws:
  assumes "registry_laws R V"
  shows "registry_laws (interleaved_reconciler act R) (scheduled_observer act V)"
proof -
  let ?V = "scheduled_observer act V"
  have reg: "obValid ?V s' \<and> obExports ?V s' = obExports ?V s
      \<and> (\<forall>k. k \<noteq> (n, v) \<longrightarrow> obView ?V s' k = obView ?V s k)
      \<and> (is_ok r \<and> (\<forall>e \<in> set es. obFits ?V e) \<and> distinct (map epId es)
        \<longrightarrow> obView ?V s' (n, v) = registered (obView ?V s (n, v)) es)"
    if k: "obKey ?V (n, v)" and s: "obValid ?V s" and u: "after_others act (sdRegisterEndpoints (reCloudMap R) n v es) s = (r, s')"
    for n v es s r s'
  proof -
    note h = others_first_harmless [OF s]
    have w: "sdRegisterEndpoints (reCloudMap R) n v es (others_first act s) = (r, snd s')" and f: "fst s' = drop 1 (fst s)"
      using u by (simp_all add: after_others_eq)
    have "obValid ?V s' \<longleftrightarrow> obValid V (snd s')" using h(4) [of "snd s'"] f by (cases s') simp
    then show ?thesis
      using assms [unfolded registry_laws_def, THEN conjunct1, rule_format, OF _ h(1) w] k h(2,3)
      by (simp del: split_paired_All)
  qed
  have del: "obValid ?V s' \<and> obExports ?V s' = obExports ?V s
      \<and> (\<forall>k. k \<noteq> (n, v) \<longrightarrow> obView ?V s' k = obView ?V s k)
      \<and> (is_ok r \<longrightarrow> obView ?V s' (n, v) = deregistered (obView ?V s (n, v)) es)
      \<and> (\<forall>i. fmlookup (obView ?V s' (n, v)) i = fmlookup (obView ?V s (n, v)) i
          \<or> fmlookup (obView ?V s' (n, v)) i = None)"
    if k: "obKey ?V (n, v)" and s: "obValid ?V s" and u: "after_others act (sdDeleteEndpoints (reCloudMap R) n v es) s = (r, s')"
    for n v es s r s'
  proof -
    note h = others_first_harmless [OF s]
    have w: "sdDeleteEndpoints (reCloudMap R) n v es (others_first act s) = (r, snd s')" and f: "fst s' = drop 1 (fst s)"
      using u by (simp_all add: after_others_eq)
    have "obValid ?V s' \<longleftrightarrow> obValid V (snd s')" using h(4) [of "snd s'"] f by (cases s') simp
    then show ?thesis
      using assms [unfolded registry_laws_def, THEN conjunct2, rule_format, OF _ h(1) w] k h(2,3)
      by (simp del: split_paired_All)
  qed
  show ?thesis
    unfolding registry_laws_def interleaved_simps by (rule conjI; intro allI impI; (rule reg | rule del); assumption)
qed

lemma interleaved_service_laws:
  assumes "service_laws R V cid"
  shows "service_laws (interleaved_reconciler act R) (scheduled_observer act V) cid"
proof -
  have own: "own_endpoints V cid (others_first act s) k = own_endpoints V cid (snd s) k"
    if "obValid (scheduled_observer act V) s" for s k
    using others_first_harmless(3) [OF that] by (simp add: own_endpoints_def)
  have "svcNamespace svc = n \<and> svcName svc = v \<and> set (GetEndpoints svc cid) = own_endpoints V cid (snd s) (n, v)"
    if "obKey V (n, v)" "obValid (scheduled_observer act V) s"
      "fst (sdGetService (reCloudMap R) n v (others_first act s)) = Ok svc" for n v s svc
    using assms that(1,3) others_first_harmless(1) [OF that(2)] own [OF that(2)] by (simp add: service_laws_def)
  moreover have "own_endpoints V cid (snd s) (n, v) = {}"
    if "obKey V (n, v)" "obValid (scheduled_observer act V) s"
      "fst (sdGetService (reCloudMap R) n v (others_first act s)) = Err e" "errors_is_notFound e" for n v s e
    unfolding own [OF that(2), symmetric]
    using assms that(1,3,4) others_first_harmless(1) [OF that(2)] unfolding service_laws_def by blast
  moreover have "unobserved (scheduled_observer act V) (after_others act (sdGetService (reCloudMap R) n v))"
    "unobserved (scheduled_observer act V) (after_others act (sdCreateService (reCloudMap R) n v))" if "obKey V (n, v)" for n v
    using assms that by (auto simp: service_laws_def intro: unobserved_after_others)
  ultimately show ?thesis
    unfolding service_laws_def interleaved_simps scheduled_observer_simps(4) after_others_simps own_endpoints_scheduled by blast
qed

lemma interleaved_export_laws:
  "export_laws R V cid \<Longrightarrow> export_laws (interleaved_reconciler act R) (scheduled_observer act V) cid"
  unfolding export_laws_def
  using interleaved_read_laws interleaved_update_laws interleaved_registry_laws interleaved_service_laws by blast

section \<open>An observer that sees this cluster only\<close>

text \<open>
  What other clusters register is not the business of the safety of this one: with a view of the endpoints of this
  cluster only, their actions are harmless, and the laws still hold.
\<close>

definition own_part :: "string \<Rightarrow> (string, endpoint) fmap \<Rightarrow> (string, endpoint) fmap" where
  "own_part cid m = fmfilter (\<lambda>i. \<exists>e. fmlookup m i = Some e \<and> epClusterId e = cid) m"

definition own_observer :: "'w observer \<Rightarrow> string \<Rightarrow> 'w observer" where
  "own_observer V cid = V\<lparr>obView := (\<lambda>w k. own_part cid (obView V w k)),
     obFits := (\<lambda>e. obFits V e \<and> epClusterId e = cid)\<rparr>"

lemma own_observer_simps [simp]:
  "obExports (own_observer V cid) = obExports V" "obValid (own_observer V cid) = obValid V" "obKey (own_observer V cid) = obKey V"
  "obView (own_observer V cid) w k = own_part cid (obView V w k)"
  "obFits (own_observer V cid) e \<longleftrightarrow> obFits V e \<and> epClusterId e = cid"
  by (simp_all add: own_observer_def)

lemma lookup_own_part:
  "fmlookup (own_part cid m) i = (case fmlookup m i of Some e \<Rightarrow> if epClusterId e = cid then Some e else None | None \<Rightarrow> None)"
  by (simp add: own_part_def split: option.split)

lemma own_part_registered:
  assumes "\<forall>e \<in> set es. epClusterId e = cid"
  shows "own_part cid (registered m es) = registered (own_part cid m) es"
  using assms
proof (induction es arbitrary: m)
  case (Cons e es)
  have "own_part cid (fmupd (epId e) e m) = fmupd (epId e) e (own_part cid m)"
    using Cons.prems by (intro fmap_ext) (simp add: lookup_own_part)
  with Cons show ?case by (simp add: registered_def)
qed (simp add: registered_def)

lemma own_part_deregistered: "own_part cid (deregistered m es) = deregistered (own_part cid m) es"
  by (intro fmap_ext) (simp add: lookup_own_part lookup_deregistered)

lemma own_endpoints_own [simp]: "own_endpoints (own_observer V cid) cid w k = own_endpoints V cid w k"
  by (auto simp: own_endpoints_def lookup_own_part split: option.splits if_splits)

lemma own_export_laws:
  assumes "export_laws R V cid"
  shows "export_laws R (own_observer V cid) cid"
proof -
  have un: "unobserved (own_observer V cid) f" if "unobserved V f" for f :: "'a \<Rightarrow> 'b outcome \<times> 'a"
    using that by (simp add: unobserved_def fun_eq_iff)
  have "read_laws R (own_observer V cid)"
    using assms unfolding export_laws_def read_laws_def own_observer_simps
    by (intro conjI) (auto intro: un simp del: split_paired_All)
  moreover have "update_laws R (own_observer V cid)"
    using assms unfolding export_laws_def update_laws_def own_observer_simps fun_eq_iff by simp
  moreover have "registry_laws R (own_observer V cid)"
  proof -
    have reg: "obValid V w' \<and> obExports V w' = obExports V w
        \<and> (\<forall>k. k \<noteq> (n, v) \<longrightarrow> own_part cid (obView V w' k) = own_part cid (obView V w k))
        \<and> (is_ok r \<and> (\<forall>e \<in> set es. obFits V e \<and> epClusterId e = cid) \<and> distinct (map epId es)
          \<longrightarrow> own_part cid (obView V w' (n, v)) = registered (own_part cid (obView V w (n, v))) es)"
      if "obKey V (n, v)" "obValid V w" "sdRegisterEndpoints (reCloudMap R) n v es w = (r, w')" for n v es w r w'
      using export_laws_register [OF assms that] by (simp add: own_part_registered del: split_paired_All)
    have del: "obValid V w' \<and> obExports V w' = obExports V w
        \<and> (\<forall>k. k \<noteq> (n, v) \<longrightarrow> own_part cid (obView V w' k) = own_part cid (obView V w k))
        \<and> (is_ok r \<longrightarrow> own_part cid (obView V w' (n, v)) = deregistered (own_part cid (obView V w (n, v))) es)
        \<and> (\<forall>i. fmlookup (own_part cid (obView V w' (n, v))) i = fmlookup (own_part cid (obView V w (n, v))) i
            \<or> fmlookup (own_part cid (obView V w' (n, v))) i = None)"
      if "obKey V (n, v)" "obValid V w" "sdDeleteEndpoints (reCloudMap R) n v es w = (r, w')" for n v es w r w'
    proof -
      have "fmlookup (own_part cid (obView V w' (n, v))) i = fmlookup (own_part cid (obView V w (n, v))) i
          \<or> fmlookup (own_part cid (obView V w' (n, v))) i = None" for i
        using export_laws_deregister(4) [OF assms that, of i] by (auto simp: lookup_own_part)
      then show ?thesis
        using export_laws_deregister(1,2,3,5) [OF assms that] by (simp add: own_part_deregistered del: split_paired_All)
    qed
    show ?thesis
      unfolding registry_laws_def own_observer_simps by (rule conjI; intro allI impI; (rule reg | rule del); assumption)
  qed
  moreover have "service_laws R (own_observer V cid) cid"
    using assms unfolding export_laws_def service_laws_def own_observer_simps own_endpoints_own
    by (intro conjI) (auto intro: un simp del: split_paired_All)
  ultimately show ?thesis by (simp add: export_laws_def)
qed

section \<open>The calls of the import loop\<close>

datatype import_call =
    CallListClusterProperties
  | CallListNamespaces
  | CallGetServiceImport object_key
  | CallGetService object_key
  | CallListServiceImports string
  | CallListServices string "string \<times> string"
  | CallListEndpointSlices string "string \<times> string"
  | CallCreateServiceImport service_import
  | CallUpdateServiceImport service_import
  | CallDeleteServiceImport service_import
  | CallCreateService k8s_service
  | CallUpdateService k8s_service
  | CallDeleteService k8s_service
  | CallCreateEndpointSlice endpoint_slice
  | CallUpdateEndpointSlice endpoint_slice
  | CallDeleteEndpointSlice endpoint_slice
  | CallDeleteAllOfEndpointSlices string "string \<times> string"
  | CallCloudMapListServices string

primrec run_import_call :: "'w reconciler \<Rightarrow> import_call \<Rightarrow> 'w \<Rightarrow> 'w" where
  "run_import_call R CallListClusterProperties w = snd (kListClusterProperties (reClient R) w)"
| "run_import_call R CallListNamespaces w = snd (kListNamespaces (reClient R) w)"
| "run_import_call R (CallGetServiceImport k) w = snd (kGetServiceImport (reClient R) k w)"
| "run_import_call R (CallGetService k) w = snd (kGetService (reClient R) k w)"
| "run_import_call R (CallListServiceImports n) w = snd (kListServiceImports (reClient R) n w)"
| "run_import_call R (CallListServices n l) w = snd (kListServices (reClient R) n l w)"
| "run_import_call R (CallListEndpointSlices n l) w = snd (kListEndpointSlices (reClient R) n l w)"
| "run_import_call R (CallCreateServiceImport x) w = snd (kCreateServiceImport (reClient R) x w)"
| "run_import_call R (CallUpdateServiceImport x) w = snd (kUpdateServiceImport (reClient R) x w)"
| "run_import_call R (CallDeleteServiceImport x) w = snd (kDeleteServiceImport (reClient R) x w)"
| "run_import_call R (CallCreateService y) w = snd (kCreateService (reClient R) y w)"
| "run_import_call R (CallUpdateService y) w = snd (kUpdateService (reClient R) y w)"
| "run_import_call R (CallDeleteService y) w = snd (kDeleteService (reClient R) y w)"
| "run_import_call R (CallCreateEndpointSlice z) w = snd (kCreateEndpointSlice (reClient R) z w)"
| "run_import_call R (CallUpdateEndpointSlice z) w = snd (kUpdateEndpointSlice (reClient R) z w)"
| "run_import_call R (CallDeleteEndpointSlice z) w = snd (kDeleteEndpointSlice (reClient R) z w)"
| "run_import_call R (CallDeleteAllOfEndpointSlices n l) w = snd (kDeleteAllOfEndpointSlices (reClient R) n l w)"
| "run_import_call R (CallCloudMapListServices n) w = snd (sdListServices (reCloudMap R) n w)"

text \<open>The Cloud Map client is only asked about namespaces that the API server has listed; their names have no colon.\<close>

fun plain_call :: "import_call \<Rightarrow> bool" where
  "plain_call (CallCloudMapListServices n) \<longleftrightarrow> CHR '':'' \<notin> set n"
| "plain_call c \<longleftrightarrow> True"

text \<open>A round of the import loop is a sequence of these calls, whatever it reads and wherever it fails.\<close>

lemma round_is_calls:
  assumes named: "\<And>w ns. fst (kListNamespaces (reClient R) w) = Ok ns \<Longrightarrow> \<forall>n \<in> set ns. CHR '':'' \<notin> set n"
    and r: "ReconcileCloudMap R s = (r, s')"
  shows "\<exists>calls. list_all plain_call calls \<and> snd s' = fold (run_import_call R) calls (snd s)"
proof -
  let ?I = "\<lambda>v. \<exists>calls. list_all plain_call calls \<and> v = fold (run_import_call R) calls (snd s)"
  have call: "keeps ?I f" if "\<And>v. snd (f v) = run_import_call R c v" "plain_call c" for c and f :: "'a \<Rightarrow> 'b outcome \<times> 'a"
  proof (rule keepsI)
    fix v r v'
    assume "?I v" and f: "f v = (r, v')"
    then obtain calls where "list_all plain_call calls" "v = fold (run_import_call R) calls (snd s)" by blast
    with f that have "list_all plain_call (calls @ [c]) \<and> v' = fold (run_import_call R) (calls @ [c]) (snd s)"
      by (simp add: that(1) [symmetric])
    then show "?I v'" by blast
  qed
  have "import_calls_keep R ?I"
    unfolding import_calls_keep_def Let_def
    by (intro conjI allI; (rule call, rule run_import_call.simps [symmetric], simp))
  then have kept: "keeps (\<lambda>s. ?I (snd s)) (ReconcileCloudMap R)"
    by (rule keeps_ReconcileCloudMap [where ok = "\<lambda>n. CHR '':'' \<notin> set n"])
      (use named in blast, rule call, rule run_import_call.simps [symmetric], simp)
  have "?I (snd s)" by (rule exI [where x = "[]"]) simp
  from keepsD [OF kept this r] show ?thesis .
qed

section \<open>The concurrent program\<close>

text \<open>
  What may happen between two calls of an export reconcile: a call of the import loop, or a change of the world by
  others that leaves the exports and the endpoints of this cluster alone and renames nothing.
\<close>

datatype 'w action = ImportCall import_call | OthersChange "'w \<Rightarrow> 'w"

primrec interfere :: "'w manager \<Rightarrow> 'w action \<Rightarrow> ('c, 'w) client \<Rightarrow> ('c, 'w) client" where
  "interfere M (ImportCall c) s = run_import_call (main_reconciler M) c s"
| "interfere M (OthersChange g) s = s\<lparr>clWorld := g (clWorld s)\<rparr>"

lemma interfere_call: "interfere M (ImportCall c) = run_import_call (main_reconciler M) c"
  by (simp add: fun_eq_iff)

primrec may_happen :: "'w cloud_observer \<Rightarrow> cluster_properties \<Rightarrow> 'w action \<Rightarrow> bool" where
  "may_happen C props (ImportCall c) \<longleftrightarrow> plain_call c"
| "may_happen C props (OthersChange g) \<longleftrightarrow> (\<forall>w. later C props w (g w) \<and> coExports C (g w) = coExports C w)"

definition concurrent_reconciler :: "'w manager \<Rightarrow> ('w action, ('c, 'w) client) scheduled reconciler" where
  "concurrent_reconciler M = interleaved_reconciler (interfere M) (main_reconciler M)"

lemmas concurrent_simps [simp] = interleaved_simps [of "interfere M" "main_reconciler M" for M, folded concurrent_reconciler_def]

text \<open>
  A run of the export controller with everything else around it. Within a reconcile and within a reload of the cluster properties the
  actions of a schedule happen between the calls; between reconciles others may change exports too.
\<close>

type_synonym ('c, 'w) concurrent_state = "cluster_properties \<times> ('c, 'w) client"

inductive concurrent_step ::
  "'w manager \<Rightarrow> 'w cloud_observer \<Rightarrow> cluster_properties \<Rightarrow> ('c, 'w) concurrent_state \<Rightarrow> ('c, 'w) concurrent_state \<Rightarrow> bool"
  for M C props where
  export: "\<lbrakk>ReconcileExport (concurrent_reconciler M) key (p, sched, c) = (r, p', sched', c');
      \<forall>as \<in> set sched. list_all (may_happen C props) as\<rbrakk> \<Longrightarrow> concurrent_step M C props (p, c) (p', c')"
| reload: "\<lbrakk>clusterPropertyMappingFunction (concurrent_reconciler M) (p, sched, c) = (keys, p', sched', c');
      \<forall>as \<in> set sched. list_all (may_happen C props) as\<rbrakk> \<Longrightarrow> concurrent_step M C props (p, c) (p', c')"
| other: "may_happen C props a \<Longrightarrow> concurrent_step M C props (p, c) (p, interfere M a c)"
| others_act: "others_act C props (clWorld c) w \<Longrightarrow> concurrent_step M C props (p, c) (p, c\<lparr>clWorld := w\<rparr>)"

abbreviation concurrent_run ::
  "'w manager \<Rightarrow> 'w cloud_observer \<Rightarrow> cluster_properties \<Rightarrow> ('c, 'w) concurrent_state \<Rightarrow> ('c, 'w) concurrent_state \<Rightarrow> bool" where
  "concurrent_run M C props \<equiv> (concurrent_step M C props)\<^sup>*\<^sup>*"

text \<open>The calls of the import loop are stuttering steps for the observer.\<close>

abbreviation safety_observer :: "'w cloud_observer \<Rightarrow> cluster_properties \<Rightarrow> ('c, 'w) client observer" where
  "safety_observer C props \<equiv> own_observer (main_observer C props) (cpClusterId props)"

lemma own_part_view:
  "fmlookup (own_part (cpClusterId props) (registry_view C props c k)) i = Some e
     \<longleftrightarrow> e \<in> own C props (clWorld c) k \<and> epId e = i"
proof -
  have "epId e = i" if "fmlookup (registry_view C props c k) i = Some e"
    using that by (auto simp: registry_view_def lookup_endpoints_of_instances instance_endpoint_Some bind_eq_Some_conv
        dest: decoded_id)
  then show ?thesis
    by (auto simp: lookup_own_part own_def own_of_view split: option.splits if_splits)
qed

lemma others_harmless:
  assumes "\<forall>w. later C props w (g w) \<and> coExports C (g w) = coExports C w"
  shows "harmless (safety_observer C props) (\<lambda>c :: ('c, 'w) client. c\<lparr>clWorld := g (clWorld c)\<rparr>)"
  unfolding harmless_def
proof (intro allI impI)
  fix c :: "('c, 'w) client"
  let ?c = "c\<lparr>clWorld := g (clWorld c)\<rparr>"
  assume "obValid (safety_observer C props) c"
  moreover have l: "later C props (clWorld c) (g (clWorld c))" using assms by blast
  ultimately have "coherent C props ?c" using coherent_others [OF _ l] by simp
  moreover have "own_part (cpClusterId props) (registry_view C props ?c k) = own_part (cpClusterId props) (registry_view C props c k)" for k
  proof -
    have "own C props (clWorld ?c) k = own C props (clWorld c) k" using l by (simp add: later_def del: split_paired_All)
    then have "fmlookup (own_part (cpClusterId props) (registry_view C props ?c k)) i = Some e
        \<longleftrightarrow> fmlookup (own_part (cpClusterId props) (registry_view C props c k)) i = Some e" for i e
      unfolding own_part_view by simp
    then show ?thesis by (intro fmap_ext) (metis not_None_eq)
  qed
  ultimately show "obValid (safety_observer C props) ?c
      \<and> obExports (safety_observer C props) ?c = obExports (safety_observer C props) c
      \<and> obView (safety_observer C props) ?c = obView (safety_observer C props) c"
    using assms by (simp add: fun_eq_iff)
qed

lemma may_happen_harmless:
  fixes M :: "'w manager"
  assumes laws: "cloud_laws (mgEnv M) C props" "api_read_laws M C props" "api_import_laws M C" and a: "may_happen C props a"
  shows "harmless (safety_observer C props) (interfere M a :: ('c, 'w) client \<Rightarrow> _)"
proof (cases a)
  case (OthersChange g)
  then have "interfere M a = (\<lambda>c :: ('c, 'w) client. c\<lparr>clWorld := g (clWorld c)\<rparr>)" by (simp add: fun_eq_iff)
  then show ?thesis using others_harmless a OthersChange by simp
next
  case (ImportCall c)
  have own: "unobserved (safety_observer C props) f"
    if "unobserved (main_observer C props) f" for f :: "('c, 'w) client \<Rightarrow> 'b outcome \<times> ('c, 'w) client"
    using that by (simp add: unobserved_def fun_eq_iff)
  have still: "harmless (safety_observer C props) (\<lambda>c :: ('c, 'w) client. snd (in_world f c))" if "still C f" for f :: "'w \<Rightarrow> 'b outcome \<times> 'w"
    by (rule unobserved_harmless [OF own [OF unobserved_in_world [OF that]]])
  have list: "harmless (safety_observer C props) (\<lambda>c :: ('c, 'w) client. snd (ListServices (mgEnv M) n c))" if "CHR '':'' \<notin> set n" for n
    by (rule unobserved_harmless [OF own [OF unobserved_main [OF keeps_ListServices [OF laws(1) that]]]])
  have "interfere M a = run_import_call (main_reconciler M :: ('c, 'w) client reconciler) c"
    using ImportCall by (simp add: interfere_call)
  then show ?thesis
    using a ImportCall laws(2,3)
    by (cases c) (simp_all add: still list run_import_call.simps [abs_def] client_ops_beside_def api_read_laws_def api_import_laws_def Let_def del: split_paired_All)
qed

section \<open>Safety and progress of the concurrent program\<close>

definition concurrent_inv :: "'w cloud_observer \<Rightarrow> cluster_properties \<Rightarrow> ('c, 'w) concurrent_state \<Rightarrow> bool" where
  "concurrent_inv C props t \<longleftrightarrow> props_within (fst t) props \<and> coherent C props (snd t) \<and> covered C props (clWorld (snd t))"

abbreviation concurrent_observer ::
  "'w manager \<Rightarrow> 'w cloud_observer \<Rightarrow> cluster_properties \<Rightarrow> ('w action, ('c, 'w) client) scheduled observer" where
  "concurrent_observer M C props \<equiv> scheduled_observer (interfere M) (safety_observer C props)"

lemma concurrent_export_laws:
  fixes M :: "'w manager"
  assumes "cloud_laws (mgEnv M) C props" and "api_read_laws M C props" and "api_update_laws M C"
  shows "export_laws (concurrent_reconciler M :: ('w action, ('c, 'w) client) scheduled reconciler)
    (concurrent_observer M C props) (cpClusterId props)"
  unfolding concurrent_reconciler_def
  by (rule interleaved_export_laws [OF own_export_laws [OF main_export_laws [OF assms]]])

lemma concurrent_lists_truly:
  "api_read_laws M C props \<Longrightarrow> lists_truly (kListClusterProperties (reClient (concurrent_reconciler M))) props"
  by (simp add: concurrent_reconciler_def api_read_laws_def lists_truly_def Let_def)

text \<open>The invariant is that of the export controller, at a schedule of actions that may happen.\<close>

lemma concurrent_inv_loading:
  fixes M :: "'w manager" and c :: "('c, 'w) client"
  assumes laws: "cloud_laws (mgEnv M) C props" "api_read_laws M C props" "api_import_laws M C"
    and sched: "\<forall>as \<in> set sched. list_all (may_happen C props) as"
  shows "concurrent_inv C props (p, c) \<longleftrightarrow>
    loading_inv props (safe_world (concurrent_observer M C props) (cpClusterId props)) (p, sched, c)"
proof -
  have "\<forall>as \<in> set sched. \<forall>a \<in> set as. harmless (safety_observer C props) (interfere M a :: ('c, 'w) client \<Rightarrow> _)"
    using may_happen_harmless [OF laws] sched by (auto simp: list_all_iff)
  moreover have "no_leak (concurrent_observer M C props) (cpClusterId props) (sched, c) \<longleftrightarrow> covered C props (clWorld c)"
    unfolding covered_iff [symmetric] by (simp add: no_leak_def protected_def)
  ultimately show ?thesis by (auto simp: concurrent_inv_def loading_inv_def safe_world_def)
qed

lemma loading_concurrent:
  "loading_inv props (safe_world (concurrent_observer M C props) (cpClusterId props)) (p, sched, c) \<Longrightarrow> concurrent_inv C props (p, c)"
proof -
  have "no_leak (concurrent_observer M C props) (cpClusterId props) (sched, c) \<longleftrightarrow> covered C props (clWorld c)"
    unfolding covered_iff [symmetric] by (simp add: no_leak_def protected_def)
  then show "loading_inv props (safe_world (concurrent_observer M C props) (cpClusterId props)) (p, sched, c) \<Longrightarrow> concurrent_inv C props (p, c)"
    by (simp add: concurrent_inv_def loading_inv_def safe_world_def)
qed

lemma concurrent_step_inv:
  fixes M :: "'w manager" and t t' :: "('c, 'w) concurrent_state"
  assumes laws: "cloud_laws (mgEnv M) C props" "api_read_laws M C props" "api_update_laws M C" "api_import_laws M C"
    and props: "props_IsValid props" and step: "concurrent_step M C props t t'" and t: "concurrent_inv C props t"
  shows "concurrent_inv C props t'"
  using step
proof (cases rule: concurrent_step.cases)
  case (export key p sched c r p' sched' c')
  have "keeps (loading_inv props (safe_world (concurrent_observer M C props) (cpClusterId props)))
      (ReconcileExport (concurrent_reconciler M) key)"
    by (rule ReconcileExport_keeps [OF concurrent_export_laws [OF laws(1-3)] concurrent_lists_truly [OF laws(2)] props refl])
  from keepsD [OF this t [unfolded export(1) concurrent_inv_loading [OF laws(1,2,4) export(4)]] export(3)]
  show ?thesis unfolding export(2) by (rule loading_concurrent)
next
  case (reload p sched c keys p' sched' c')
  have "keeps (loading_inv props (safe_world (concurrent_observer M C props) (cpClusterId props)))
      (clusterPropertyMappingFunction (concurrent_reconciler M))"
    by (rule clusterPropertyMapping_keeps [OF concurrent_export_laws [OF laws(1-3)] concurrent_lists_truly [OF laws(2)]])
  from keepsD [OF this t [unfolded reload(1) concurrent_inv_loading [OF laws(1,2,4) reload(4)]] reload(3)]
  show ?thesis unfolding reload(2) by (rule loading_concurrent)
next
  case (other a p c)
  have "\<forall>as \<in> set [[a]]. list_all (may_happen C props) as" using other by simp
  note inv = concurrent_inv_loading [OF laws(1,2,4) this]
  have "harmless (safety_observer C props) (interfere M a :: ('c, 'w) client \<Rightarrow> _)"
    using may_happen_harmless [OF laws(1,2,4) other(3)] .
  moreover have "obValid (safety_observer C props) c" using t other(1) by (simp add: concurrent_inv_def)
  ultimately have h: "coherent C props (interfere M a c)" "coExports C (clWorld (interfere M a c)) = coExports C (clWorld c)"
    and view: "obView (safety_observer C props) (interfere M a c) = obView (safety_observer C props) c"
    by (simp_all add: harmless_def)
  have "own C props (clWorld (interfere M a c)) k = own C props (clWorld c) k" for k
  proof -
    have "own_endpoints (safety_observer C props) (cpClusterId props) (interfere M a c) k
        = own_endpoints (safety_observer C props) (cpClusterId props) c k"
      unfolding own_endpoints_def view ..
    then show ?thesis unfolding own_endpoints_own own_endpoints_main own_def .
  qed
  then show ?thesis using t h by (simp add: other(1,2) concurrent_inv_def covered_own)
next
  case (others_act c w p)
  have "main_step M C props \<lparr>msExportProps = p, msImportProps = empty_properties, msClient = c\<rparr>
      \<lparr>msExportProps = p, msImportProps = empty_properties, msClient = c\<lparr>clWorld := w\<rparr>\<rparr>"
    using main_step.others [of C props "\<lparr>msExportProps = p, msImportProps = empty_properties, msClient = c\<rparr>" w M] others_act(3) by simp
  from main_step_inv [OF laws props this] t show ?thesis
    by (simp add: others_act(1,2) concurrent_inv_def main_inv_def)
qed

lemma concurrent_run_inv:
  assumes "cloud_laws (mgEnv M) C props" "api_read_laws M C props" "api_update_laws M C" "api_import_laws M C"
    and "props_IsValid props" and "concurrent_run M C props t t'" and "concurrent_inv C props t"
  shows "concurrent_inv C props t'"
  using assms(6,7) by (induction rule: rtranclp_induct) (blast intro: concurrent_step_inv [OF assms(1-5)])+

end
