(* ===== verification/ConcurrentProperties.thy ===== *)
theory ConcurrentProperties
  imports MainProperties Interleaving
begin

text \<open>
  The properties of the export controller when everything else runs at the same time: the import loop, other
  clusters and users act between any two of its calls.
\<close>

section \<open>Properties\<close>

text \<open>
  C4: safety when reconciles are not atomic. As an export reconcile runs, the import loop, which shares the client and its cache,
  may make any of its calls between any two calls of the reconcile, and others may change the world there, as long
  as they leave the exports and the endpoints of this cluster alone. In every
  such run from the start of the controller, no endpoint of this cluster is in Cloud Map without an export that has the finalizer.
\<close>

theorem concurrent_reconciles_keep_endpoints_covered:
  assumes "cloud_laws (mgEnv M) C props" and "api_read_laws M C props" and "api_update_laws M C" and "api_import_laws M C"
    and "props_IsValid props" and "lru_laws L" and "covered C props w"
    and "concurrent_run M C props (empty_properties, main_client L w) (p, c)"
  shows "covered C props (clWorld c)"
proof -
  have "concurrent_inv C props (empty_properties, main_client L w)"
    using main_start_inv [OF assms(6,7)] by (simp add: main_inv_def concurrent_inv_def main_start_def)
  from concurrent_run_inv [OF assms(1-5,8) this] show ?thesis by (simp add: concurrent_inv_def)
qed


text \<open>
  C5: progress when reconciles are not atomic. Whatever ran before, an update of an export that returns nil, with others acting
  between its calls, leaves in Cloud Map exactly the endpoints of the slices as the endpoints of this cluster for that
  service, and no other service has lost or gained an endpoint of this cluster.
\<close>

theorem concurrent_update_is_mirrored:
  fixes M :: "'w manager" and c :: "('c, 'w) client"
  assumes "cloud_laws (mgEnv M) C props" and "api_read_laws M C props" and "api_update_laws M C" and "api_import_laws M C"
    and "props_IsValid props" and "lru_laws L" and "covered C props w"
    and "concurrent_run M C props (empty_properties, main_client L w) (p, c)"
    and "props_IsValid p" and "\<forall>w. is_range_order (ceOrder (mgEnv M) w)"
    and "plain_namespace (meta_key (svMeta svc))"
    and "\<forall>w. fst (kListEndpointSlices (mgClient M) (omNamespace (svMeta svc))
      (LabelServiceName, omName (svMeta svc)) w) = Ok slices"
    and "endpoints_of_slices (export_context_of (main_reconciler M :: ('c, 'w) client reconciler) props svc ex) slices = Ok es"
    and "distinct (map epId es)" and "\<forall>e \<in> set es. fits_registry props e"
    and "\<forall>as \<in> set sched. list_all (may_happen C props) as"
    and "handleUpdate (concurrent_reconciler M) (cpClusterId props) ex svc (p, sched, c) = (Ok (), p', sched', c')"
  shows "own C props (clWorld c') (meta_key (svMeta svc)) = set es
    \<and> (\<forall>k. k \<noteq> meta_key (svMeta svc) \<longrightarrow> own C props (clWorld c') k = own C props (clWorld c) k)"
proof -
  let ?R = "concurrent_reconciler M :: ('w action, ('c, 'w) client) scheduled reconciler" and ?V = "concurrent_observer M C props"
  let ?key = "meta_key (svMeta svc)"
  let ?part = "\<lambda>c. own_part (cpClusterId props) (registry_view C props c ?key)"
  have "concurrent_inv C props (empty_properties, main_client L w)"
    using main_start_inv [OF assms(6,7)] by (simp add: main_inv_def concurrent_inv_def main_start_def)
  from concurrent_run_inv [OF assms(1-5,8) this] have inv: "concurrent_inv C props (p, c)" .
  then have p: "p = props" using valid_within [OF _ assms(9)] by (simp add: concurrent_inv_def)
  have valid: "obValid ?V (sched, c)"
    using inv concurrent_inv_loading [OF assms(1,2,4,16), of p c] by (simp add: loading_inv_def safe_world_def)
  have ctx: "export_context_of ?R props svc ex = export_context_of (main_reconciler M :: ('c, 'w) client reconciler) props svc ex"
    by (simp add: export_context_of_def)
  have own: "own_endpoints (main_observer C props) (cpClusterId props) t k = own C props (clWorld t) k" for k and t :: "('c, 'w) client"
    by (simp add: own_endpoints_main own_def)
  have cluster: "\<forall>e \<in> set es. epClusterId e = cpClusterId props" using extracted_cluster [OF assms(13)] by blast
  note update = handleUpdate_reaches [OF concurrent_export_laws [OF assms(1-3)] _ _ _ _ assms(14) _ _ _ assms(17), of slices]
  have reach: "fmlookup (?part c') i = exported_registry es (own C props (clWorld c) ?key) (?part c) i"
    and rest: "\<forall>k. k \<noteq> ?key \<longrightarrow> obView ?V (sched', c') k = obView ?V (sched, c) k" for i
    using update assms(5,10-13,15) valid cluster
    by (simp_all add: p ctx own del: split_paired_All)
  have own_is: "own C props (clWorld t) k = {e. fmlookup (own_part (cpClusterId props) (registry_view C props t k)) (epId e) = Some e
      \<and> epClusterId e = cpClusterId props}" for k and t :: "('c, 'w) client"
    unfolding own_part_view by (auto simp: own_def own_of_def)
  have "own C props (clWorld c') ?key = set es"
    unfolding own_is by (rule exported_own [OF reach [unfolded own_is] cluster assms(14)])
  moreover have "own C props (clWorld c') k = own C props (clWorld c) k" if "k \<noteq> ?key" for k
    using rest that unfolding own_is by (simp del: split_paired_All)
  ultimately show ?thesis by blast
qed

section \<open>The properties at work in the small world\<close>

lemma concurrent_reconciles_keep_endpoints_covered_witness:
  "\<exists>r p sched c. ReconcileExport (concurrent_reconciler small_manager) small_key
        (empty_properties, [[], [ImportCall (CallCloudMapListServices ''default'')], [ImportCall CallListNamespaces]], small_client small_full)
      = (r, p, sched, c)
     \<and> fmdom (swInstances small_full) \<noteq> {||} \<and> covered small_observer demo_props (clWorld c)"
proof -
  let ?sched = "[[], [ImportCall (CallCloudMapListServices ''default'')], [ImportCall CallListNamespaces]]"
  obtain r p sched c where e: "ReconcileExport (concurrent_reconciler small_manager) small_key
      (empty_properties, ?sched, small_client small_full) = (r, p, sched, c)"
    by (rule prod_cases4)
  have run: "concurrent_run small_manager small_observer demo_props (empty_properties, small_client small_full) (p, c)"
    by (rule r_into_rtranclp, rule concurrent_step.export [OF e]) simp
  have "covered small_observer demo_props (clWorld c)"
    using concurrent_reconciles_keep_endpoints_covered [OF _ small_api_laws small_props(1) example_lru_laws small_covered(2) run]
      small_cloud_laws by simp
  moreover have "fmdom (swInstances small_full) \<noteq> {||}" by (simp add: small_full_def Let_def)
  ultimately show ?thesis using e by blast
qed


definition idle_schedule :: "small_world action list list" where
  "idle_schedule = [[ImportCall CallListNamespaces], [], [ImportCall CallListNamespaces, ImportCall CallListNamespaces], []]"

lemma idle_call: "snd (kListNamespaces (client_ops_beside small_k8s) c) = c"
  by (simp add: in_world_def client_ops_beside_def small_k8s_def)

lemma concurrent_small_update:
  assumes e: "endpoints_of_slices (export_context_of (main_reconciler small_manager :: (small_cache, small_world) client reconciler)
      demo_props (demo_service small_key) small_export) demo_slices = Ok [e]"
  shows "handleUpdate (concurrent_reconciler small_manager) ''c1'' small_export (demo_service small_key)
     (demo_props, idle_schedule, small_client small_empty) = (Ok (), demo_props, [], small_registered e small_empty)"
proof -
  let ?R = "concurrent_reconciler small_manager :: (small_world action, (small_cache, small_world) client) scheduled reconciler"
  let ?svc = "demo_service small_key" and ?s = "(demo_props, idle_schedule, small_client small_empty)"
  let ?I = "ImportCall CallListNamespaces"
  let ?s1 = "(demo_props, [[], [?I, ?I], []], small_client small_empty)"
  let ?s2 = "(demo_props, [[?I, ?I], []], small_known [] small_empty)" and ?s3 = "(demo_props, [[]], small_known [] small_empty)"
  have meta: "omNamespace (svMeta ?svc) = ''default''" "omName (svMeta ?svc) = ''web''"
    by (simp_all add: demo_service_def)
  have none: "map_entries sorted_order (swInstances small_empty) = []"
    by (simp add: small_empty_def GoPrelude.map_entries_def sorted_order_def)
  have world: "clWorld (small_client small_empty) = small_empty" "swExport small_empty = stored small_export"
    by (simp_all add: small_cache_defs small_empty_def small_export_def stored_def zero_meta_def)
  have same: "(small_client small_empty)\<lparr>clWorld := small_empty\<rparr> = small_client small_empty"
    by (simp add: main_client_def NewDefaultServiceDiscoveryClient_def)
  have k: "kUpdateServiceExport small_k8s small_export small_empty = (Ok small_export, small_empty)"
    "kListEndpointSlices small_k8s n l w = (Ok demo_slices, w)" for n l and w :: small_world
    using world(2) by (simp_all add: small_k8s_def small_export_def meta_key_def zero_meta_def)
  have x: "mgExt small_manager = example_ext" "mgSetControllerReference small_manager svc ex = Ok ex" for svc ex
    by (simp_all add: small_manager_def)
  have fin: "ServiceExportFinalizer \<in> set (omFinalizers (sxMeta small_export))" "omOwnerReferences (sxMeta small_export) = []"
    by (simp_all add: small_export_def zero_meta_def)
  have "addFinalizerAndOwnerRef ?R small_export ?svc ?s = (Ok small_export, ?s1)"
    by (simp add: addFinalizerAndOwnerRef_def addFinalizer_def on_world_def in_world_def after_others_def idle_call
        idle_schedule_def example_ext_finalizers k x fin world(1) same bind_ok_def)
  moreover have "createOrGetCloudMapService ?R ?svc ?s1 = (Ok (make_service ''default'' ''web'' []), ?s2)"
    using small_get [of small_empty "[]"] none
    by (simp add: createOrGetCloudMapService_def meta on_world_def after_others_def)
  moreover have "extractEndpoints ?R ?svc small_export ?s2 = (Ok [e], ?s3)"
    using e by (simp add: extractEndpoints_def properties_cached small_props meta on_world_def in_world_def k bind_ok_def
        after_others_def idle_call export_context_of_def)
  moreover have "CalculateChanges (reOrder ?R (snd ?s3)) \<lparr>planCurrent = GetEndpoints (make_service ''default'' ''web'' []) ''c1'',
      planDesired = [e]\<rparr> = \<lparr>chCreate = [e], chUpdate = [], chDelete = []\<rparr>"
    by (simp add: CalculateChanges_def GetEndpoints_def make_service_def small_order sorted_order_def map_values_def GoPrelude.map_entries_def)
  ultimately show ?thesis
    by (simp add: small_register handleUpdate_def bind_ok_def execute_changes_def HasUpdates_def HasDeletes_def on_world_def meta
        after_others_def)
qed

lemma concurrent_update_is_mirrored_witness:
  "\<exists>p sched c e. handleUpdate (concurrent_reconciler small_manager) ''c1'' small_export (demo_service small_key)
       (demo_props, idle_schedule, small_client small_empty) = (Ok (), p, sched, c)
     \<and> own small_observer demo_props (clWorld c) small_key = {e} \<and> epIP e = ''10.0.0.1''"
proof -
  let ?R = "main_reconciler small_manager :: (small_cache, small_world) client reconciler"
  obtain e where e: "endpoints_of_slices (export_context_of ?R demo_props (demo_service small_key) small_export) demo_slices = Ok [e]"
    "fits_registry demo_props e" "epIP e = ''10.0.0.1''"
    using small_extraction by blast
  note u = concurrent_small_update [OF e(1)]
  have reload: "clusterPropertyMappingFunction (concurrent_reconciler small_manager) (empty_properties, [], small_client small_empty)
      = (Ok [], demo_props, [], small_client small_empty)"
    by (simp add: clusterPropertyMappingFunction_def LoadClusterProperties_def client_ops_beside_def small_k8s_def small_env_def
        empty_properties_def props_IsValid_def set_property_def demo_props_def in_world_def on_world_def after_others_def
        ClusterIdPropertyName_def ClusterSetIdPropertyName_def bind_ok_def)
  have run: "concurrent_run small_manager small_observer demo_props (empty_properties, small_client small_empty)
      (demo_props, small_client small_empty)"
    by (rule r_into_rtranclp, rule concurrent_step.reload [OF reload]) simp
  have "own small_observer demo_props (clWorld (small_registered e small_empty)) small_key = {e}"
    using concurrent_update_is_mirrored [OF _ small_api_laws small_props(1) example_lru_laws small_covered(1) run,
        of "demo_service small_key" demo_slices small_export "[e]" idle_schedule demo_props "[]" "small_registered e small_empty"]
      u e small_cloud_laws
    by (simp add: small_props small_order sorted_order_is_range_order demo_service_def zero_k8s_service_def meta_key_def
        plain_namespace_def small_k8s_def idle_schedule_def)
  with u e show ?thesis by blast
qed

end
