(* ===== verification/ImportMain.thy ===== *)
theory ImportMain
  imports ControllerMain
begin

text \<open>
  The import controller on the Cloud Map client of the program. What \<open>ListServices\<close> tells of this cluster is true, and
  the client with the API server beside it keeps the laws of \<open>ImportSpec\<close>; so what \<open>ImportState\<close> shows of a
  round holds of the assembled program, and what this cluster exports is imported here.
\<close>

section \<open>What the client lists\<close>

definition lists_own ::
  "cluster_properties \<Rightarrow> (string \<times> string \<Rightarrow> (string, attrs) fmap) \<Rightarrow> string \<Rightarrow> service list \<Rightarrow> bool" where
  "lists_own props I n svcs \<longleftrightarrow>
     (\<forall>sv \<in> set svcs. svcNamespace sv = n \<and> set (GetEndpoints sv (cpClusterId props)) = own_of props (I (n, svcName sv)))"

lemma list_loop_triple:
  fixes E :: "'w client_env"
  assumes laws: "cloud_laws E C props" and k: "CHR '':'' \<notin> set n"
  shows "triple (client_sees C props I X :: ('c, 'w) client \<Rightarrow> bool) (list_loop E n vs)
    (\<lambda>svcs s. client_sees C props I X s \<and> map svcName svcs = vs \<and> lists_own props I n svcs) (\<lambda>e. client_sees C props I X)"
proof (induction vs)
  case Nil
  show ?case by (simp add: triple_def lists_own_def)
next
  case (Cons v vs)
  let ?sees = "client_sees C props I X :: ('c, 'w) client \<Rightarrow> bool"
  let ?own = "\<lambda>es. {e \<in> set es. epClusterId e = cpClusterId props} = own_of props (I (n, v))"
  have loop: "list_loop E n (v # vs) = bind_ok (getEndpoints E n v) (\<lambda>es.
      bind_ok (list_loop E n vs) (\<lambda>svs. return_value (make_service n v es # svs)))"
    by (simp add: fun_eq_iff)
  have "plain_namespace (n, v)" using k by (simp add: plain_namespace_def)
  from getEndpoints_triple [OF laws this, of I X "{}"]
  have get: "triple ?sees (getEndpoints E n v) (\<lambda>es s. ?sees s \<and> ?own es) (\<lambda>e. ?sees)"
    by (rule triple_conseq) (auto simp: sees_or_absent_def)
  have rest: "triple (\<lambda>s. ?sees s \<and> ?own es) (bind_ok (list_loop E n vs) (\<lambda>svs. return_value (make_service n v es # svs)))
      (\<lambda>svcs s. ?sees s \<and> map svcName svcs = v # vs \<and> lists_own props I n svcs) (\<lambda>e. ?sees)" for es
  proof -
    have "triple (\<lambda>s. ?sees s \<and> map svcName svs = vs \<and> lists_own props I n svs) (return_value (make_service n v es # svs))
        (\<lambda>svcs s. ?sees s \<and> map svcName svcs = v # vs \<and> lists_own props I n svcs) (\<lambda>e. ?sees)" if "?own es" for svs
      using that by (intro triple_return) (auto simp: lists_own_def make_service_def GetEndpoints_def)
    then show ?thesis by (intro triple_fact) (rule triple_bind [OF Cons.IH], simp)
  qed
  show ?case unfolding loop by (rule triple_bind [OF get rest])
qed

text \<open>What is listed is true of this cluster, and no service with endpoints of this cluster is left out.\<close>

lemma ListServices_triple:
  fixes E :: "'w client_env"
  assumes laws: "cloud_laws E C props" and k: "CHR '':'' \<notin> set n" and ord: "\<forall>w. is_range_order (ceOrder E w)"
  shows "triple (client_sees C props I X :: ('c, 'w) client \<Rightarrow> bool) (ListServices E n)
    (\<lambda>svcs s. client_sees C props I X s \<and> lists_own props I n svcs
       \<and> (\<forall>v. own_of props (I (n, v)) \<noteq> {} \<longrightarrow> v \<in> svcName ` set svcs)) (\<lambda>e. client_sees C props I X)"
proof (rule tripleI)
  fix s s' :: "('c, 'w) client" and r
  let ?sees = "client_sees C props I X :: ('c, 'w) client \<Rightarrow> bool"
  let ?Q = "\<lambda>svcs s. ?sees s \<and> lists_own props I n svcs \<and> (\<forall>v. own_of props (I (n, v)) \<noteq> {} \<longrightarrow> v \<in> svcName ` set svcs)"
  assume s: "?sees s" and r: "ListServices E n s = (r, s')"
  obtain q s1 where g: "getServiceIds E n s = (q, s1)" by fastforce
  note d = tripleD [OF getServiceIds_triple [OF laws] s g]
  show "case r of Ok svcs \<Rightarrow> ?Q svcs s' | Err e \<Rightarrow> ?sees s' | Panic \<Rightarrow> ?sees s'"
  proof (cases q)
    case (Ok ids)
    let ?vs = "ceOrder E (clWorld s1) (fmdom ids)"
    have s1: "?sees s1" and right: "service_ids_right C props (clWorld s1) n ids" using d(1) [OF Ok] by blast+
    have l: "list_loop E n ?vs s1 = (r, s')" using r g Ok by (simp add: ListServices_def)
    note dl = tripleD [OF list_loop_triple [OF laws k] s1 l]
    have "set ?vs = fset (fmdom ids)" using ord [rule_format, of "clWorld s1"] by simp
    moreover have "fmlookup ids v \<noteq> None" if "own_of props (I (n, v)) \<noteq> {}" for v
      using right that client_seesD(4) [OF s1] by (auto simp: service_ids_right_def)
    ultimately have "v \<in> set ?vs" if "own_of props (I (n, v)) \<noteq> {}" for v
      using that by (auto simp: fmlookup_dom_iff)
    moreover have "svcName ` set svcs = set ?vs" if "map svcName svcs = ?vs" for svcs
      using arg_cong [OF that, of set] by simp
    ultimately have "?Q svcs s'" if "r = Ok svcs" for svcs using dl(1) [OF that] by auto
    then show ?thesis using dl(2,3) by (cases r) simp_all
  next
    case (Err e)
    then have "?sees s1" and none: "errors_is_notFound e \<Longrightarrow> own_of props (I (n, v)) = {}" for v
      using d(2) [OF Err] by (auto simp: sees_or_absent_def)
    then show ?thesis using r g Err by (auto simp: ListServices_def lists_own_def split: if_splits)
  next
    case Panic
    then show ?thesis using r g d(3) [OF Panic] by (auto simp: ListServices_def sees_or_absent_def)
  qed
qed

section \<open>The laws of the import controller\<close>

text \<open>The ServiceImports and Services are those of the world around the client.\<close>

definition client_objects :: "'w import_observer \<Rightarrow> ('c, 'w) client import_observer" where
  "client_objects V = \<lparr>ioImports = (\<lambda>c. ioImports V (clWorld c)), ioServices = (\<lambda>c. ioServices V (clWorld c))\<rparr>"

lemma client_objects_simps [simp]:
  "ioImports (client_objects V) c = ioImports V (clWorld c)" "ioServices (client_objects V) c = ioServices V (clWorld c)"
  by (simp_all add: client_objects_def)

text \<open>Reading Cloud Map, the cluster properties or the clock does not touch the ServiceImports and Services.\<close>

definition objects_apart :: "'w client_env \<Rightarrow> 'w import_observer \<Rightarrow> bool" where
  "objects_apart E V \<longleftrightarrow> quiet V (ceListProps E) \<and> quiet V (api_GetNamespaceMap (ceApi E))
     \<and> (\<forall>i. quiet V (api_GetServiceIdMap (ceApi E) i)) \<and> (\<forall>n v q. quiet V (api_DiscoverInstances (ceApi E) n v q))
     \<and> (\<forall>w. ioImports V (snd (ceNow E w)) = ioImports V w \<and> ioServices V (snd (ceNow E w)) = ioServices V w)"

lemma quiet_keeps:
  "quiet V f \<longleftrightarrow> (\<forall>w. keeps (\<lambda>v. ioImports V v = ioImports V w \<and> ioServices V v = ioServices V w) f)"
proof
  assume "quiet V f"
  then show "\<forall>w. keeps (\<lambda>v. ioImports V v = ioImports V w \<and> ioServices V v = ioServices V w) f"
    by (auto simp: quiet_def keeps_def)
next
  assume k: "\<forall>w. keeps (\<lambda>v. ioImports V v = ioImports V w \<and> ioServices V v = ioServices V w) f"
  show "quiet V f"
    unfolding quiet_def
  proof
    fix w
    obtain r w' where "f w = (r, w')" by fastforce
    with keepsD [OF k [rule_format, of w] _ this] show "ioImports V (snd (f w)) = ioImports V w \<and> ioServices V (snd (f w)) = ioServices V w"
      by simp
  qed
qed

lemma in_world_eq: "in_world f c = (r, c') \<longleftrightarrow> (\<exists>w. f (clWorld c) = (r, w) \<and> c' = c\<lparr>clWorld := w\<rparr>)"
  by (auto simp: in_world_def split: prod.splits)

lemma snd_in_world [simp]: "snd (in_world f c) = c\<lparr>clWorld := snd (f (clWorld c))\<rparr>"
  by (simp add: in_world_def case_prod_beta)

lemma quiet_in_world: "quiet V f \<Longrightarrow> quiet (client_objects V) (in_world f)"
  by (simp add: quiet_def in_world_def case_prod_beta)

lemma writes_in_world:
  "writes_import V si f \<Longrightarrow> writes_import (client_objects V) si (in_world f)"
  "writes_service V d f \<Longrightarrow> writes_service (client_objects V) d (in_world f)"
  by (auto simp: writes_import_def writes_service_def in_world_eq)

lemma object_laws_beside:
  assumes "object_laws K V"
  shows "object_laws (client_ops_beside K) (client_objects V)"
proof -
  have "quiet_laws (client_ops_beside K) (client_objects V)"
    using assms by (simp add: object_laws_def quiet_laws_def client_ops_beside_def quiet_in_world del: split_paired_All)
  moreover have "import_read_laws (client_ops_beside K) (client_objects V)"
    using assms by (simp add: object_laws_def import_read_laws_def client_ops_beside_def del: split_paired_All)
  moreover have "import_write_laws (client_ops_beside K) (client_objects V)"
  proof -
    note w = assms [unfolded object_laws_def import_write_laws_def, THEN conjunct2, THEN conjunct2]
    show ?thesis
      unfolding import_write_laws_def client_ops_beside_def k8s_ops.simps
    proof (intro conjI)
      show "\<forall>si. writes_import (client_objects V) si (in_world (kCreateServiceImport K si))"
        "\<forall>si. writes_import (client_objects V) si (in_world (kUpdateServiceImport K si))"
        "\<forall>d. writes_service (client_objects V) d (in_world (kCreateService K d))"
        "\<forall>d. writes_service (client_objects V) d (in_world (kUpdateService K d))"
        using w by (simp_all add: writes_in_world)
      show "\<forall>d c d'. fst (in_world (kUpdateService K d) c) = Ok d' \<longrightarrow>
          ioServices (client_objects V) (snd (in_world (kUpdateService K d) c)) (key_of_service d) = Some d'"
        using w by simp
      show "\<forall>si c r c'. in_world (kDeleteServiceImport K si) c = (r, c') \<longrightarrow>
          ioServices (client_objects V) c' = ioServices (client_objects V) c
          \<and> (\<forall>k. k \<noteq> key_of_import si \<longrightarrow> ioImports (client_objects V) c' k = ioImports (client_objects V) c k)
          \<and> (is_ok r \<longrightarrow> ioImports (client_objects V) c' (key_of_import si) = None)"
        using w unfolding in_world_eq client_objects_simps by (metis (no_types) client.select_convs(3) client.surjective client.update_convs(3))
      show "\<forall>d c r c'. in_world (kDeleteService K d) c = (r, c') \<longrightarrow>
          ioImports (client_objects V) c' = ioImports (client_objects V) c
          \<and> (\<forall>k. k \<noteq> key_of_service d \<longrightarrow> ioServices (client_objects V) c' k = ioServices (client_objects V) c k)
          \<and> (is_ok r \<longrightarrow> ioServices (client_objects V) c' (key_of_service d) = None)"
        using w unfolding in_world_eq client_objects_simps by (metis (no_types) client.select_convs(3) client.surjective client.update_convs(3))
    qed
  qed
  ultimately show ?thesis by (simp add: object_laws_def)
qed

abbreviation objects_stay :: "'w import_observer \<Rightarrow> 'w \<Rightarrow> ('c, 'w) client \<Rightarrow> bool" where
  "objects_stay V w c \<equiv> ioImports V (clWorld c) = ioImports V w \<and> ioServices V (clWorld c) = ioServices V w"

lemma keeps_objects:
  assumes "objects_apart E V"
  shows "keeps (objects_stay V w) (cache_read E get)" "keeps (objects_stay V w) (cache_write E put)"
    "keeps (objects_stay V w) (client_properties E)"
    "keeps (objects_stay V w) (in_world (api_GetNamespaceMap (ceApi E)))"
    "keeps (objects_stay V w) (in_world (api_GetServiceIdMap (ceApi E) i))"
    "keeps (objects_stay V w) (in_world (api_DiscoverInstances (ceApi E) n v q))"
proof -
  note apart = assms [unfolded objects_apart_def quiet_def]
  show "keeps (objects_stay V w) (cache_read E get)" "keeps (objects_stay V w) (cache_write E put)"
    "keeps (objects_stay V w) (in_world (api_GetNamespaceMap (ceApi E)))"
    "keeps (objects_stay V w) (in_world (api_GetServiceIdMap (ceApi E) i))"
    "keeps (objects_stay V w) (in_world (api_DiscoverInstances (ceApi E) n v q))"
    using apart by (simp_all add: keeps_def cache_read_def cache_write_def case_prod_beta)
  show "keeps (objects_stay V w) (client_properties E)"
  proof (rule keepsI)
    fix c r c'
    assume c: "objects_stay V w c" and "client_properties E c = (r, c')"
    then obtain p v where g: "GetClusterProperties (ceListProps E) (clProps c, clWorld c) = (r, p, v)"
      and "c' = c\<lparr>clProps := p, clWorld := v\<rparr>"
      by (auto simp: client_properties_def split: prod.splits)
    moreover have "v = clWorld c \<or> v = snd (ceListProps E (clWorld c))"
      using g by (auto simp: GetClusterProperties_def LoadClusterProperties_def bind_ok_def Let_def split: if_splits outcome.splits prod.splits)
    ultimately show "objects_stay V w c'" using c apart by auto
  qed
qed

lemma quiet_ListServices:
  fixes V :: "'w import_observer" and E :: "'w client_env"
  assumes "objects_apart E V"
  shows "quiet (client_objects V) (ListServices E n :: ('c, 'w) client \<Rightarrow> _)"
proof -
  note calls = keeps_objects [OF assms]
  have ids: "keeps (objects_stay V w) (getServiceIds E n :: ('c, 'w) client \<Rightarrow> _)" for w
    unfolding getServiceIds_def getNamespace_def getNamespaces_def by (intro keeps_rules calls)
  have loop: "keeps (objects_stay V w) (list_loop E n vs :: ('c, 'w) client \<Rightarrow> _)" for vs w
  proof (induction vs)
    case (Cons v vs)
    have "keeps (objects_stay V w) (getEndpoints E n v :: ('c, 'w) client \<Rightarrow> _)"
      unfolding getEndpoints_def by (intro keeps_rules calls)
    moreover have "list_loop E n (v # vs) = bind_ok (getEndpoints E n v) (\<lambda>es.
        bind_ok (list_loop E n vs) (\<lambda>svs. return_value (make_service n v es # svs)))"
      by (simp add: fun_eq_iff)
    ultimately show ?case using Cons by (auto intro!: keeps_rules)
  qed (simp add: keeps_def)
  have "keeps (objects_stay V w) (ListServices E n :: ('c, 'w) client \<Rightarrow> _)" for w
  proof (rule keepsI)
    fix c c' :: "('c, 'w) client" and r
    assume c: "objects_stay V w c" and r: "ListServices E n c = (r, c')"
    obtain q c1 where g: "getServiceIds E n c = (q, c1)" by fastforce
    have c1: "objects_stay V w c1" by (rule keepsD [OF ids c g])
    show "objects_stay V w c'"
    proof (cases q)
      case (Ok m)
      have "list_loop E n (ceOrder E (clWorld c1) (fmdom m)) c1 = (r, c')" using r g Ok by (simp add: ListServices_def)
      from keepsD [OF loop c1 this] show ?thesis .
    qed (use r g c1 in \<open>auto simp: ListServices_def split: if_splits\<close>)
  qed
  then show ?thesis unfolding quiet_keeps client_objects_simps by blast
qed

lemma listed_namespace:
  assumes "fst (ListServices E n c) = Ok svcs" and "sv \<in> set svcs"
  shows "svcNamespace sv = n"
proof -
  have loop: "list_loop E n vs c = (Ok svcs, c') \<Longrightarrow> sv \<in> set svcs \<Longrightarrow> svcNamespace sv = n" for vs c c' svcs
    by (induction vs arbitrary: c c' svcs) (auto simp: bind_ok_eq_Ok make_service_def)
  obtain q c1 where g: "getServiceIds E n c = (q, c1)" by fastforce
  show ?thesis
  proof (cases q)
    case (Ok ids)
    obtain c' where "list_loop E n (ceOrder E (clWorld c1) (fmdom ids)) c1 = (Ok svcs, c')"
      using assms(1) g Ok by (cases "list_loop E n (ceOrder E (clWorld c1) (fmdom ids)) c1") (simp add: ListServices_def)
    from loop [OF this assms(2)] show ?thesis .
  qed (use assms g in \<open>auto simp: ListServices_def split: if_splits\<close>)
qed

lemma main_import_laws:
  fixes M :: "'w manager"
  assumes "object_laws (mgClient M) V" and "objects_apart (mgEnv M) V"
  shows "import_laws (main_reconciler M :: ('c, 'w) client reconciler) (client_objects V)"
  using object_laws_beside [OF assms(1)] quiet_ListServices [OF assms(2)] listed_namespace [of "mgEnv M"]
  unfolding import_laws_def listing_laws_def main_reconciler_simps cloud_map_ops_simps by blast

section \<open>What is exported is imported\<close>

text \<open>The calls of the import controller leave what the client sees of Cloud Map and of the exports.\<close>

lemma import_calls_see:
  fixes M :: "'w manager"
  assumes "api_read_laws M C props" and "api_import_laws M C"
  shows "import_calls_keep (main_reconciler M :: ('c, 'w) client reconciler) (client_sees C props I X)"
  unfolding import_calls_keep_def main_reconciler_simps client_ops_beside_def k8s_ops.simps Let_def
  by (intro conjI allI keeps_grows still_grows)
    (use assms in \<open>simp_all add: api_read_laws_def api_import_laws_def Let_def del: split_paired_All\<close>)

lemma after_all_keeps:
  assumes "\<And>x. x \<in> set xs \<Longrightarrow> keeps I (f x)" and "I s"
  shows "I (after_all f xs s)"
  using assms
proof (induction xs arbitrary: s)
  case (Cons x xs)
  have "I (snd (f x s))" using keepsD [of I "f x" s "fst (f x s)" "snd (f x s)"] Cons.prems by simp
  then show ?case using Cons by simp
qed simp

lemma round_imports_own:
  fixes M :: "'w manager" and c :: "('c, 'w) client"
  assumes laws: "cloud_laws (mgEnv M) C props" "api_read_laws M C props" "api_import_laws M C"
    and objects: "object_laws (mgClient M) V" "objects_apart (mgEnv M) V" and ord: "\<forall>w. is_range_order (ceOrder (mgEnv M) w)"
    and c: "coherent C props c" and p: "reconciler_properties (main_reconciler M) (q, c) = (Ok cp, s1)"
    and l: "on_world (kListNamespaces (reClient (main_reconciler M))) s1 = (Ok nss, s2)" and nss: "distinct nss" "n \<in> set nss"
    and r: "ReconcileCloudMap (main_reconciler M) (q, c) = (Ok (), q', c')"
  shows "own C props (clWorld c') k = own C props (clWorld c) k"
    and "own C props (clWorld c) (n, v) \<noteq> {} \<Longrightarrow> ioImports V (clWorld c') (n, v) \<noteq> None"
proof -
  let ?R = "main_reconciler M :: ('c, 'w) client reconciler"
  let ?I = "coInstances C (clWorld c)" and ?X = "coExports C (clWorld c)"
  let ?sees = "client_sees C props ?I ?X :: ('c, 'w) client \<Rightarrow> bool"
  have sees: "?sees c" using c by (simp add: client_sees_def)
  have calls: "import_calls_keep ?R ?sees" by (rule import_calls_see [OF laws(2,3)])
  have plain: "\<forall>m \<in> set nss. CHR '':'' \<notin> set m" if "fst (kListNamespaces (reClient ?R) d) = Ok nss" for d nss
    using laws(3) that by (auto simp: api_import_laws_def Let_def client_ops_beside_def)
  have list: "keeps ?sees (sdListServices (reCloudMap ?R) m)" if "CHR '':'' \<notin> set m" for m
    using keeps_ListServices [OF laws(1) that] by simp
  have "keeps (\<lambda>s. ?sees (snd s)) (ReconcileCloudMap ?R)"
    by (rule keeps_ReconcileCloudMap [OF calls plain list])
  from keepsD [OF this _ r] sees have "?sees c'" by simp
  then show "own C props (clWorld c') k = own C props (clWorld c) k" by (simp add: own_def client_sees_def)
  assume own: "own C props (clWorld c) (n, v) \<noteq> {}"
  have s1: "?sees (snd s1)"
  proof -
    have "keeps ?sees (kListClusterProperties (reClient ?R))" using calls by (simp add: import_calls_keep_def Let_def)
    from keepsD [OF keeps_reconciler_properties [OF this] _ p] sees show ?thesis by simp
  qed
  have s2: "?sees (snd s2)" using keepsD [OF import_calls(1) [OF calls] s1 l] .
  obtain before after where split: "nss = before @ n # after" using nss(2) by (auto dest: split_list)
  have "fst (kListNamespaces (reClient ?R) (snd s1)) = Ok nss" using l by (simp add: on_world_eq)
  note named = plain [OF this]
  let ?t = "after_all (reconcileNamespace ?R) before s2"
  have "keeps (\<lambda>s. ?sees (snd s)) (reconcileNamespace ?R m)" if "m \<in> set nss" for m
    using named that by (intro keeps_reconcileNamespace [OF calls list]) blast
  then have t: "?sees (snd ?t)" using split s2 by (intro after_all_keeps [where I = "\<lambda>s. ?sees (snd s)"]) simp_all
  note steps = round_steps [OF p l r]
  obtain z t' where z: "reconcileNamespace ?R n ?t = (z, t')" by (rule prod.exhaust)
  have "is_ok z" using steps(1) z by (simp add: split outcomes_append)
  then obtain svcs where svcs: "fst (ListServices (mgEnv M) n (snd ?t)) = Ok svcs"
    using reconcileNamespace_steps [OF z] by (auto simp: on_world_eq)
  then obtain d where d: "ListServices (mgEnv M) n (snd ?t) = (Ok svcs, d)" by (metis prod.collapse)
  have colon: "CHR '':'' \<notin> set n" using named split by simp
  from tripleD(1) [OF ListServices_triple [OF laws(1) colon ord] t d refl]
  have own_listed: "lists_own props ?I n svcs" and "v \<in> svcName ` set svcs" using own by (auto simp: own_def)
  then obtain sv where sv: "sv \<in> set svcs" "svcName sv = v" by blast
  then have "set (GetEndpoints sv (cpClusterId props)) \<noteq> {}" using own_listed own by (auto simp: lists_own_def own_def)
  then have "svcEndpoints sv \<noteq> []" by (auto simp: GetEndpoints_def)
  then have "(n, v) \<in> wanted_imports n svcs" using sv by (auto simp: wanted_imports_def)
  moreover have "{k. fst k = n \<and> ioImports (client_objects V) c' k \<noteq> None} = wanted_imports n svcs"
    using round_mirrors [OF main_import_laws [OF objects] _ p l nss(1) r split, of svcs] ord svcs by simp
  ultimately show "ioImports V (clWorld c') (n, v) \<noteq> None" by auto
qed

end
