(* ===== verification/EndToEnd.thy ===== *)
theory EndToEnd
  imports ImportMain ImportProperties MainProperties
begin

text \<open>
  From the export to the import. What this cluster has registered in Cloud Map, the import loop of the assembled program
  imports. The example is a world with a constant Cloud Map; since the work on a service does not use the client, what
  \<open>ImportProperties\<close> computes for a reconciler on the bare API server also holds beside the client.
\<close>

section \<open>Properties\<close>


section \<open>The work on a service does not use the client\<close>

text \<open>\<open>embedded g f\<close>: the call \<open>f\<close>, beside the client, does to the world what \<open>g\<close> does, and leaves the client alone.\<close>

definition embedded ::
  "('w reconciler_state \<Rightarrow> 'a outcome \<times> 'w reconciler_state)
    \<Rightarrow> (('c, 'w) client reconciler_state \<Rightarrow> 'a outcome \<times> ('c, 'w) client reconciler_state) \<Rightarrow> bool" where
  "embedded g f \<longleftrightarrow> (\<forall>p c. f (p, c) = (case g (p, clWorld c) of (r, p', w) \<Rightarrow> (r, p', c\<lparr>clWorld := w\<rparr>)))"

named_theorems embedded_rules \<open>composition of embedded calls\<close>

lemma embeddedI:
  assumes "\<And>p c r p' w. g (p, clWorld c) = (r, p', w) \<Longrightarrow> f (p, c) = (r, p', c\<lparr>clWorld := w\<rparr>)"
  shows "embedded g f"
  using assms unfolding embedded_def by (auto split: prod.splits)

lemma embedded_step:
  assumes "embedded g f" and "g (p, clWorld c) = (r, p', w)"
  shows "f (p, c) = (r, p', c\<lparr>clWorld := w\<rparr>)"
  using assms by (simp add: embedded_def)

lemma embedded_bind [embedded_rules]:
  fixes f :: "('c, 'w) client reconciler_state \<Rightarrow> _"
  assumes "embedded g f" and "\<And>x. embedded (g' x) (f' x)"
  shows "embedded (bind_ok g g') (bind_ok f f')"
proof (rule embeddedI)
  fix p r p' w and c :: "('c, 'w) client"
  assume b: "bind_ok g g' (p, clWorld c) = (r, p', w)"
  obtain q p1 v where g: "g (p, clWorld c) = (q, p1, v)" by (rule prod_cases3)
  then show "bind_ok f f' (p, c) = (r, p', c\<lparr>clWorld := w\<rparr>)"
    using b embedded_step [OF assms(1) g] embedded_step [OF assms(2), of _ p1 "c\<lparr>clWorld := v\<rparr>" r p' w]
    by (cases q) (auto simp: bind_ok_def)
qed

lemma embedded_return [embedded_rules]:
  "embedded (return_value x) (return_value x)" "embedded (fail_with e) (fail_with e)" "embedded (Pair r) (Pair r)"
  by (simp_all add: embedded_def)

lemma embedded_call [embedded_rules]: "embedded (on_world k) (on_world (in_world k))"
  by (simp add: embedded_def on_world_def in_world_def split: prod.splits)

lemma embedded_if [embedded_rules]:
  "\<lbrakk>embedded g f; embedded g' f'\<rbrakk> \<Longrightarrow> embedded (if b then g else g') (if b then f else f')"
  by simp

lemma embedded_option [embedded_rules]:
  "\<lbrakk>embedded g f; \<And>x. embedded (g' x) (f' x)\<rbrakk>
    \<Longrightarrow> embedded (case v of None \<Rightarrow> g | Some x \<Rightarrow> g' x) (case v of None \<Rightarrow> f | Some x \<Rightarrow> f' x)"
  by (cases v) simp_all

lemma embedded_get_or_create [embedded_rules]:
  fixes f :: "('c, 'w) client reconciler_state \<Rightarrow> _"
  assumes "embedded g f" and "embedded g' f'"
  shows "embedded (get_or_create g g') (get_or_create f f')"
proof (rule embeddedI)
  fix p r p' w and c :: "('c, 'w) client"
  assume b: "get_or_create g g' (p, clWorld c) = (r, p', w)"
  obtain q p1 v where g: "g (p, clWorld c) = (q, p1, v)" by (rule prod_cases3)
  then show "get_or_create f f' (p, c) = (r, p', c\<lparr>clWorld := w\<rparr>)"
    using b embedded_step [OF assms(1) g] embedded_step [OF assms(2), of p1 "c\<lparr>clWorld := v\<rparr>" r p' w]
    by (cases q) (auto simp: get_or_create_def split: if_splits)
qed

lemma embedded_world:
  "(\<And>w. embedded (g w) (f w)) \<Longrightarrow> embedded (\<lambda>s. g (snd s) s) (\<lambda>s. f (clWorld (snd s)) s)"
  by (simp add: embedded_def)

lemma embedded_each [embedded_rules]:
  fixes f :: "endpoint_slice \<Rightarrow> ('c, 'w) client reconciler_state \<Rightarrow> _"
  assumes "\<And>sl. embedded (g sl) (f sl)"
  shows "embedded (each_slice message g h rs) (each_slice message f h rs)"
proof (induction rs)
  case (Cons x rs)
  show ?case
  proof (rule embeddedI)
    fix p r p' w and c :: "('c, 'w) client"
    assume b: "each_slice message g h (x # rs) (p, clWorld c) = (r, p', w)"
    obtain q p1 v where g: "g (h ! x) (p, clWorld c) = (q, p1, v)" by (rule prod_cases3)
    then show "each_slice message f h (x # rs) (p, c) = (r, p', c\<lparr>clWorld := w\<rparr>)"
      using b embedded_step [OF assms g] embedded_step [OF Cons, of p1 "c\<lparr>clWorld := v\<rparr>" r p' w]
      by (cases q) auto
  qed
qed (simp add: embedded_def)

lemma embedded_collect [embedded_rules]:
  fixes f :: "'a \<Rightarrow> ('c, 'w) client reconciler_state \<Rightarrow> _"
  assumes "\<And>x. embedded (g x) (f x)"
  shows "embedded (collect_errors g xs err) (collect_errors f xs err)"
proof (induction xs arbitrary: err)
  case (Cons x xs)
  show ?case
  proof (rule embeddedI)
    fix p r p' w and c :: "('c, 'w) client"
    assume b: "collect_errors g (x # xs) err (p, clWorld c) = (r, p', w)"
    obtain q p1 v where g: "g x (p, clWorld c) = (q, p1, v)" by (rule prod_cases3)
    then show "collect_errors f (x # xs) err (p, c) = (r, p', c\<lparr>clWorld := w\<rparr>)"
      using b embedded_step [OF assms g] embedded_step [OF Cons, of _ p1 "c\<lparr>clWorld := v\<rparr>" r p' w]
      by (cases q) auto
  qed
qed (simp add: embedded_def)

text \<open>Two reconcilers with the same parameters and API server, as far as the work on a namespace uses it, one of them beside the client.\<close>

definition beside :: "'w reconciler \<Rightarrow> ('c, 'w) client reconciler \<Rightarrow> bool" where
  "beside Q R \<longleftrightarrow> (\<exists>list. reClient R = client_ops_beside ((reClient Q)\<lparr>kListNamespaces := list\<rparr>)) \<and> reExt R = reExt Q
     \<and> (\<forall>c. reOrder R c = reOrder Q (clWorld c))"

lemma besideD:
  assumes "beside Q R"
  shows "reExt R = reExt Q" "reOrder R c = reOrder Q (clWorld c)"
    "kGetServiceImport (reClient R) k = in_world (kGetServiceImport (reClient Q) k)"
    "kGetService (reClient R) k = in_world (kGetService (reClient Q) k)"
    "kListServiceImports (reClient R) n = in_world (kListServiceImports (reClient Q) n)"
    "kListServices (reClient R) n l = in_world (kListServices (reClient Q) n l)"
    "kListEndpointSlices (reClient R) n l = in_world (kListEndpointSlices (reClient Q) n l)"
    "kCreateServiceImport (reClient R) si = in_world (kCreateServiceImport (reClient Q) si)"
    "kUpdateServiceImport (reClient R) si = in_world (kUpdateServiceImport (reClient Q) si)"
    "kDeleteServiceImport (reClient R) si = in_world (kDeleteServiceImport (reClient Q) si)"
    "kCreateService (reClient R) d = in_world (kCreateService (reClient Q) d)"
    "kUpdateService (reClient R) d = in_world (kUpdateService (reClient Q) d)"
    "kDeleteService (reClient R) d = in_world (kDeleteService (reClient Q) d)"
    "kCreateEndpointSlice (reClient R) sl = in_world (kCreateEndpointSlice (reClient Q) sl)"
    "kUpdateEndpointSlice (reClient R) sl = in_world (kUpdateEndpointSlice (reClient Q) sl)"
    "kDeleteEndpointSlice (reClient R) sl = in_world (kDeleteEndpointSlice (reClient Q) sl)"
    "kDeleteAllOfEndpointSlices (reClient R) n l = in_world (kDeleteAllOfEndpointSlices (reClient Q) n l)"
  using assms by (auto simp: beside_def client_ops_beside_def)

lemma embedded_update_slices:
  fixes R :: "('c, 'w) client reconciler"
  assumes "beside Q R"
  shows "embedded (update_slices Q rs h) (update_slices R rs h)"
proof (induction rs arbitrary: h)
  case (Cons x rs)
  show ?case
  proof (rule embeddedI)
    fix p r p' w and c :: "('c, 'w) client"
    assume b: "update_slices Q (x # rs) h (p, clWorld c) = (r, p', w)"
    obtain q p1 v where g: "on_world (kUpdateEndpointSlice (reClient Q) (h ! x)) (p, clWorld c) = (q, p1, v)"
      by (rule prod_cases3)
    then show "update_slices R (x # rs) h (p, c) = (r, p', c\<lparr>clWorld := w\<rparr>)"
      using b embedded_step [OF embedded_call g] embedded_step [OF Cons, of _ p1 "c\<lparr>clWorld := v\<rparr>" r p' w]
      by (cases q) (auto simp: besideD [OF assms])
  qed
qed (simp add: embedded_def)

lemma embedded_reconcileService:
  assumes R: "beside Q R"
  shows "embedded (reconcileService Q svc) (reconcileService R svc)"
proof -
  note eqs = besideD [OF R]
  have slices: "embedded (updateEndpointSlices Q si es d c) (updateEndpointSlices R si es d c)" for si es d c
  proof -
    have "embedded (apply_slice_changes Q ch h) (apply_slice_changes R ch h)" for ch h
      unfolding apply_slice_changes_def eqs by (intro embedded_rules embedded_update_slices [OF R])
    then have "embedded (\<lambda>s. case f (snd s) of Some (Ok ch, h) \<Rightarrow> apply_slice_changes Q ch h s | Some (Err e, h) \<Rightarrow> (Err e, s)
        | Some (Panic, h) \<Rightarrow> (Panic, s) | None \<Rightarrow> (Panic, s))
      (\<lambda>s. case f (clWorld (snd s)) of Some (Ok ch, h) \<Rightarrow> apply_slice_changes R ch h s | Some (Err e, h) \<Rightarrow> (Err e, s)
        | Some (Panic, h) \<Rightarrow> (Panic, s) | None \<Rightarrow> (Panic, s))" for f :: "'a \<Rightarrow> (slice_changes outcome \<times> slices) option"
      by (auto simp: embedded_def split: option.splits outcome.splits)
    then show ?thesis unfolding updateEndpointSlices_def eqs by (intro embedded_rules)
  qed
  have cluster: "embedded (reconcile_cluster Q svc si m c) (reconcile_cluster R svc si m c)" for si m c
  proof -
    have "embedded (bind_ok (get_or_create (getDerivedService Q (svcNamespace svc) (svcName svc) c)
            (createAndGetDerivedService Q si c ports)) (\<lambda>d.
          bind_ok (updateDerivedService Q d ports) (\<lambda>d'. bind_ok (updateEndpointSlices Q si es d' c) (\<lambda>_. return_value d'))))
        (bind_ok (get_or_create (getDerivedService R (svcNamespace svc) (svcName svc) c)
            (createAndGetDerivedService R si c ports)) (\<lambda>d.
          bind_ok (updateDerivedService R d ports) (\<lambda>d'. bind_ok (updateEndpointSlices R si es d' c) (\<lambda>_. return_value d'))))"
      for ports es
      unfolding createAndGetDerivedService_def getDerivedService_def updateDerivedService_def eqs
      by (intro embedded_rules slices)
    then show ?thesis unfolding reconcile_cluster_def Let_def by (simp add: embedded_def eqs)
  qed
  have clusters: "embedded (clusters_loop Q svc si m cs) (clusters_loop R svc si m cs)" for si m cs
    by (induction cs) (auto intro!: embedded_rules cluster)
  have stale: "embedded (delete_stale Q m ds) (delete_stale R m ds)" for m ds
    by (induction ds) (auto intro!: embedded_rules simp: DeleteDerivedServiceAndEndpointSlices_def eqs)
  have si: "embedded (updateServiceImport Q si ds ports) (updateServiceImport R si ds ports)" for si ds ports
    unfolding updateServiceImport_def Let_def eqs by (intro embedded_rules)
  have "embedded (bind_ok (get_or_create (getServiceImport Q (svcNamespace svc) (svcName svc))
          (createAndGetServiceImport Q svc ports cs)) (\<lambda>si.
        bind_ok (clusters_loop Q svc si m cs) (\<lambda>ds.
          bind_ok (on_world (kListServices (reClient Q) (omNamespace (siMeta si)) (LabelDerivedServiceOriginatingName, omName (siMeta si))))
            (\<lambda>existing. bind_ok (delete_stale Q m existing) (\<lambda>_. updateServiceImport Q si ds ports)))))
      (bind_ok (get_or_create (getServiceImport R (svcNamespace svc) (svcName svc))
          (createAndGetServiceImport R svc ports cs)) (\<lambda>si.
        bind_ok (clusters_loop R svc si m cs) (\<lambda>ds.
          bind_ok (on_world (kListServices (reClient R) (omNamespace (siMeta si)) (LabelDerivedServiceOriginatingName, omName (siMeta si))))
            (\<lambda>existing. bind_ok (delete_stale R m existing) (\<lambda>_. updateServiceImport R si ds ports)))))" for ports cs m
    unfolding createAndGetServiceImport_def getServiceImport_def eqs
    by (intro embedded_rules clusters stale si)
  then show ?thesis unfolding reconcileService_def Let_def by (simp add: embedded_def eqs)
qed

text \<open>A namespace, once the client has listed its services without changing the world.\<close>

lemma embedded_reconcileNamespace:
  fixes c :: "('c, 'w) client"
  assumes R: "beside Q R"
    and listR: "sdListServices (reCloudMap R) n c = (Ok svcs, c1)" and same: "clWorld c1 = clWorld c"
    and listQ: "sdListServices (reCloudMap Q) n (clWorld c) = (Ok svcs, clWorld c)"
    and r: "reconcileNamespace Q n (p, clWorld c) = (r, p', w)"
  shows "reconcileNamespace R n (p, c) = (r, p', c1\<lparr>clWorld := w\<rparr>)"
proof -
  note eqs = besideD [OF R]
  let ?rest = "\<lambda>R. bind_ok (on_world (kListServiceImports (reClient R) n)) (\<lambda>serviceImports.
     bind_ok (collect_errors (reconcileService R) (listed_services svcs) None) (\<lambda>err s.
       (let rest = foldl (\<lambda>m svc. fmdrop (svcName svc) m) (existing_imports serviceImports) (listed_services svcs)
        in bind_ok (collect_errors (\<lambda>i. on_world (kDeleteServiceImport (reClient R) i)) (map_values (reOrder R (snd s)) rest) err)
             (\<lambda>err'. Pair (error_result err')) s)))"
  have del: "embedded (bind_ok (collect_errors (\<lambda>i. on_world (kDeleteServiceImport (reClient Q) i)) is err) (\<lambda>err'. Pair (error_result err')))
      (bind_ok (collect_errors (\<lambda>i. on_world (kDeleteServiceImport (reClient R) i)) is err) (\<lambda>err'. Pair (error_result err')))"
    for "is" and err :: "goerror option"
    unfolding eqs by (intro embedded_rules)
  have "embedded (\<lambda>s. let rest = m in bind_ok (collect_errors (\<lambda>i. on_world (kDeleteServiceImport (reClient Q) i)) (map_values (reOrder Q (snd s)) rest) err)
             (\<lambda>err'. Pair (error_result err')) s)
     (\<lambda>s. let rest = m in bind_ok (collect_errors (\<lambda>i. on_world (kDeleteServiceImport (reClient R) i)) (map_values (reOrder R (snd s)) rest) err)
             (\<lambda>err'. Pair (error_result err')) s)" for m :: "(string, service_import) fmap" and err :: "goerror option"
    using del unfolding Let_def by (simp add: embedded_def eqs(2))
  then have "embedded (?rest Q) (?rest R)"
    unfolding eqs(5) by (intro embedded_bind embedded_call embedded_collect embedded_reconcileService [OF R])
  moreover have "?rest Q (p, clWorld c1) = (r, p', w)"
    using r listQ by (simp add: reconcileNamespace_def on_world_def bind_ok_def same)
  ultimately have "?rest R (p, c1) = (r, p', c1\<lparr>clWorld := w\<rparr>)" by (rule embedded_step)
  then show ?thesis using listR by (simp add: reconcileNamespace_def on_world_def bind_ok_def)
qed

section \<open>A world with a constant Cloud Map\<close>

text \<open>
  Cloud Map has the endpoints of \<open>world_service\<close> and refuses every write; the API server is that of
  \<open>ImportProperties\<close>, with an export for the service that nobody touches.
\<close>

definition mirror_facade :: "import_world aws_facade" where
  "mirror_facade =
     \<lparr>awsListNamespaces = (\<lambda>w. ([Ok [\<lparr>anId = Some ''ns-1'', anName = Some ''ns'', anType = ''HTTP''\<rparr>]], w)),
      awsListServices = (\<lambda>i w. ([Ok (if i = ''ns-1'' then [\<lparr>asId = Some ''srv-1'', asName = Some ''web''\<rparr>] else [])], w)),
      awsDiscoverInstances = (\<lambda>d w.
        (if diNamespaceName d = ''ns'' \<and> diServiceName d = ''web''
         then Ok (filter (\<lambda>i. fmlookup (instAttributes i) ClusterSetIdAttr = Option.bind (diQueryParameters d) (\<lambda>q. fmlookup q ClusterSetIdAttr))
           (map as_instance (svcEndpoints world_service)))
         else Err (ErrText ''service not found''), w)),
      awsGetOperation = (\<lambda>opId w. (Err (ErrText ''no''), w)),
      awsCreateHttpNamespace = (\<lambda>n w. (Err (ErrText ''no''), w)),
      awsCreateService = (\<lambda>i w. (Err (ErrText ''no''), w)),
      awsRegisterInstance = (\<lambda>r w. (Err (ErrText ''no''), w)),
      awsDeregisterInstance = (\<lambda>svcId i w. (Err (ErrText ''no''), w)),
      awsLimiterWait = (\<lambda>l w. (Ok (), w))\<rparr>"

definition mirror_client :: "import_world k8s_ops" where
  "mirror_client = world_client\<lparr>kListNamespaces := (\<lambda>w. (Ok [''ns''], w))\<rparr>"

definition mirror_manager :: "import_world manager" where
  "mirror_manager =
     \<lparr>mgClient = mirror_client,
      mgEnv = \<lparr>ceApi = NewServiceDiscoveryApiFromConfig mirror_facade, ceListProps = kListClusterProperties mirror_client,
        ceNow = (\<lambda>w. (0, w)), ceOrder = (\<lambda>w. sorted_order), ceSchedule = (\<lambda>w. []), cePolls = (\<lambda>w i. 30)\<rparr>,
      mgExt = example_ext, mgBuild = \<lparr>GitVersion = ''v1.0'', GitCommit = ''abc'', PackageName = ''p''\<rparr>,
      mgSetControllerReference = (\<lambda>svc ex. Ok ex)\<rparr>"

abbreviation mirror_env :: "import_world client_env" where
  "mirror_env \<equiv> mgEnv mirror_manager"

definition mirror_instances :: "(string, attrs) fmap" where
  "mirror_instances = fmap_of_list (map (\<lambda>e. (epId e, GetCloudMapAttributes e)) (svcEndpoints world_service))"

definition mirror_observer :: "import_world cloud_observer" where
  "mirror_observer =
     \<lparr>coInstances = (\<lambda>w k. if k = (''ns'', ''web'') then mirror_instances else fmempty),
      coServiceId = (\<lambda>w k. if k = (''ns'', ''web'') then Some ''srv-1'' else None),
      coNamespaceId = (\<lambda>w n. if n = ''ns'' then Some ''ns-1'' else None),
      coExports = (\<lambda>w k. Some small_export), coAccepted = (\<lambda>opId svcId i v w. False)\<rparr>"

lemma mirror_observer_simps [simp]:
  "coInstances mirror_observer w k = (if k = (''ns'', ''web'') then mirror_instances else fmempty)"
  "coServiceId mirror_observer w k = (if k = (''ns'', ''web'') then Some ''srv-1'' else None)"
  "coNamespaceId mirror_observer w n = (if n = ''ns'' then Some ''ns-1'' else None)"
  "coExports mirror_observer w k = Some small_export" "\<not> coAccepted mirror_observer opId svcId i v w"
  by (simp_all add: mirror_observer_def)

lemma mirror_still: "still mirror_observer f"
  by (simp add: still_def same_cloud_def mirror_observer_def)

lemma mirror_endpoints:
  "e \<in> set (svcEndpoints world_service) \<Longrightarrow> fits_registry demo_props e \<and> epClusterId e = ''c1''"
  by (auto simp: world_service_def example_endpoint_def fits_registry_def registrable_def demo_props_def port_in_range_def
      example_port_def reserved_keys_def attr_key_defs)

lemma mirror_api:
  "api_GetNamespaceMap (ceApi mirror_env) w =
     (Ok (fmupd ''ns'' \<lparr>nsId = ''ns-1'', nsName = ''ns'', nsType = HttpNamespaceType\<rparr> fmempty), w)"
  "api_GetServiceIdMap (ceApi mirror_env) i w = (Ok (if i = ''ns-1'' then fmupd ''web'' ''srv-1'' fmempty else fmempty), w)"
  "api_DiscoverInstances (ceApi mirror_env) n v (set_query cs) w =
     (if n = ''ns'' \<and> v = ''web''
      then Ok (filter (\<lambda>i. fmlookup (instAttributes i) ClusterSetIdAttr = Some cs) (map as_instance (svcEndpoints world_service)))
      else Err (ErrText ''service not found''), w)"
  "snd (api_DiscoverInstances (ceApi mirror_env) n v q w) = w"
  "fst (poll_condition (api_GetOperation (ceApi mirror_env)) opId w) = Err (ErrText ''no'')"
  "api_RegisterInstance (ceApi mirror_env) s j a w = (Err (ErrText ''no''), w)"
  "api_DeregisterInstance (ceApi mirror_env) s j w = (Err (ErrText ''no''), w)"
proof -
  have wait: "api_wait (ceApi mirror_env) ev w = (Ok (), w)" if "\<forall>s. ev \<noteq> OtherEvent s" for ev and w :: import_world
    using default_limiter_defined [OF that]
    by (auto simp: api_wait_def rate_limiter_wait_def mirror_manager_def NewServiceDiscoveryApiFromConfig_def mirror_facade_def)
  have f: "apiFacade (ceApi mirror_env) = mirror_facade" by (simp add: mirror_manager_def NewServiceDiscoveryApiFromConfig_def)
  note defs = bind_ok_def wait f mirror_facade_def
  show "api_GetNamespaceMap (ceApi mirror_env) w =
     (Ok (fmupd ''ns'' \<lparr>nsId = ''ns-1'', nsName = ''ns'', nsType = HttpNamespaceType\<rparr> fmempty), w)"
    by (simp add: api_GetNamespaceMap_def defs add_namespace_def IsUnsupported_def ConvertNamespaceType_def
        aws_ToString_def HttpNamespaceType_def UnsupportedNamespaceType_def)
  show "api_GetServiceIdMap (ceApi mirror_env) i w = (Ok (if i = ''ns-1'' then fmupd ''web'' ''srv-1'' fmempty else fmempty), w)"
    by (simp add: api_GetServiceIdMap_def defs add_service_def aws_ToString_def)
  show "api_DiscoverInstances (ceApi mirror_env) n v (set_query cs) w =
     (if n = ''ns'' \<and> v = ''web''
      then Ok (filter (\<lambda>i. fmlookup (instAttributes i) ClusterSetIdAttr = Some cs) (map as_instance (svcEndpoints world_service)))
      else Err (ErrText ''service not found''), w)"
    by (simp add: api_DiscoverInstances_def defs set_query_def)
  show "snd (api_DiscoverInstances (ceApi mirror_env) n v q w) = w"
    by (simp add: api_DiscoverInstances_def defs)
  show "fst (poll_condition (api_GetOperation (ceApi mirror_env)) opId w) = Err (ErrText ''no'')"
    by (simp add: poll_condition_def api_GetOperation_def defs)
  show "api_RegisterInstance (ceApi mirror_env) s j a w = (Err (ErrText ''no''), w)"
    "api_DeregisterInstance (ceApi mirror_env) s j w = (Err (ErrText ''no''), w)"
    by (simp_all add: api_RegisterInstance_def api_DeregisterInstance_def defs id_result_def)
qed

lemma mirror_lookup:
  "fmlookup mirror_instances i = Some a \<longleftrightarrow> (\<exists>e \<in> set (svcEndpoints world_service). i = epId e \<and> a = GetCloudMapAttributes e)"
proof -
  let ?l = "map (\<lambda>e. (epId e, GetCloudMapAttributes e)) (svcEndpoints world_service)"
  have "distinct (map fst ?l)" by (simp add: world_service_def example_ids)
  from map_of_eq_Some_iff [OF this, of i a] show ?thesis by (auto simp: mirror_instances_def fmlookup_of_list)
qed

lemma mirror_cloud_laws: "cloud_laws mirror_env mirror_observer demo_props"
proof -
  have props: "ceListProps mirror_env w = (Ok [\<lparr>propName = ClusterIdPropertyName, propValue = ''c1''\<rparr>,
      \<lparr>propName = ClusterSetIdPropertyName, propValue = ''set1''\<rparr>], w)" for w
    by (simp add: mirror_manager_def mirror_client_def world_client_def)
  have "lists_truly (ceListProps mirror_env) demo_props"
    by (simp add: lists_truly_def props demo_props_def ClusterIdPropertyName_def ClusterSetIdPropertyName_def)
  moreover have "{x \<in> as_instance ` set (svcEndpoints world_service). fmlookup (instAttributes x) ClusterSetIdAttr = Some cs}
      = {instance_of i a |i a. fmlookup mirror_instances i = Some a \<and> fmlookup a ClusterSetIdAttr = Some cs}" for cs
    by (auto simp: mirror_lookup as_instance_def instance_of_def)
  ultimately have "reads_truly mirror_env mirror_observer demo_props"
    unfolding reads_truly_def answers_def by (simp add: props mirror_api del: split_paired_All)
  moreover have "well_founded_cloud mirror_observer" by (simp add: well_founded_cloud_def)
  moreover have "calls_are_still mirror_env mirror_observer" by (simp add: calls_are_still_def mirror_still)
  moreover have "operations_apply mirror_env mirror_observer"
    by (simp add: operations_apply_def grows_def writes_instance_def wrote_def mirror_api fun_eq_iff del: split_paired_All)
  ultimately show ?thesis by (simp add: cloud_laws_def)
qed

lemma mirror_covered: "covered mirror_observer demo_props w"
  by (simp add: covered_def has_finalizer_def small_export_def)

lemma mirror_own: "own mirror_observer demo_props w (''ns'', ''web'') = set (svcEndpoints world_service)"
proof -
  have "NewEndpointFromInstance (instance_of (epId e) (GetCloudMapAttributes e)) = Ok e" if "e \<in> set (svcEndpoints world_service)" for e
    using mirror_endpoints [OF that] decode_registered [of e] by (simp add: as_instance_def instance_of_def fits_registry_def)
  moreover have "epClusterId e = cpClusterId demo_props \<and> epClusterSetId e = cpClusterSetId demo_props"
    if "e \<in> set (svcEndpoints world_service)" for e
    using mirror_endpoints [OF that] by (simp add: fits_registry_def demo_props_def)
  ultimately show ?thesis unfolding own_instances by (auto simp: mirror_lookup)
qed

lemma mirror_simps [simp]:
  "mgClient mirror_manager = mirror_client" "mgExt mirror_manager = example_ext" "ceOrder mirror_env w = sorted_order"
  "ceNow mirror_env w = (0, w)" "ceListProps mirror_env = kListClusterProperties mirror_client"
  by (simp_all add: mirror_manager_def)

lemma mirror_api_laws:
  "api_read_laws mirror_manager mirror_observer demo_props" "api_update_laws mirror_manager mirror_observer"
  "api_import_laws mirror_manager mirror_observer"
proof -
  have props: "lists_truly (kListClusterProperties mirror_client) demo_props"
    using mirror_cloud_laws by (simp add: cloud_laws_def reads_truly_def)
  show "api_read_laws mirror_manager mirror_observer demo_props"
    using props by (auto simp: api_read_laws_def Let_def mirror_still mirror_client_def world_client_def meta_key_def dest: first_with_Some)
  show "api_update_laws mirror_manager mirror_observer"
    by (auto simp: api_update_laws_def mirror_client_def world_client_def mirror_manager_def example_ext_finalizer_laws same_cloud_def
        same_object_def fun_eq_iff)
  show "api_import_laws mirror_manager mirror_observer"
    by (simp add: api_import_laws_def Let_def mirror_still mirror_client_def)
qed

lemma mirror_objects_apart: "objects_apart mirror_env world_observer"
  by (simp add: objects_apart_def quiet_def mirror_api) (simp add: mirror_client_def world_client_def)

lemma mirror_properties:
  "GetClusterProperties (kListClusterProperties mirror_client) (empty_properties, w) = (Ok demo_props, demo_props, w)"
  by (simp add: GetClusterProperties_def LoadClusterProperties_def empty_properties_def props_IsValid_def mirror_client_def world_client_def
      set_property_def demo_props_def ClusterIdPropertyName_def ClusterSetIdPropertyName_def bind_ok_def)

lemma mirror_lists:
  "\<exists>c. ListServices mirror_env ''ns'' (main_client example_lru w) = (Ok [world_service], c) \<and> clWorld c = w"
proof -
  have reg: "registrable e \<and> fmlookup (instAttributes (as_instance e)) ClusterSetIdAttr = Some ''set1''"
    if "e \<in> set (svcEndpoints world_service)" for e
    using mirror_endpoints [OF that] registered_cluster_set [of e] by (simp add: fits_registry_def as_instance_def demo_props_def)
  have decode: "decode_instances (map as_instance es) = Ok es" if "\<forall>e \<in> set es. registrable e" for es
    using that by (induction es) (simp_all add: decode_registered)
  have found: "decode_instances (filter (\<lambda>i. fmlookup (instAttributes i) ClusterSetIdAttr = Some ''set1'')
      (map as_instance (svcEndpoints world_service))) = Ok (svcEndpoints world_service)"
  proof -
    have "filter (\<lambda>i. fmlookup (instAttributes i) ClusterSetIdAttr = Some ''set1'') (map as_instance (svcEndpoints world_service))
        = map as_instance (svcEndpoints world_service)"
      using reg by (intro filter_True) auto
    then show ?thesis using decode reg by simp
  qed
  have q: "Some (fmupd ClusterSetIdAttr ''set1'' fmempty) = set_query ''set1''" by (simp add: set_query_def)
  have service: "make_service ''ns'' ''web'' (svcEndpoints world_service) = world_service"
    by (simp add: make_service_def world_service_def)
  have props: "cpClusterSetId demo_props = ''set1''" by (simp add: demo_props_def)
  show ?thesis
    by (simp add: ListServices_def getServiceIds_def getNamespace_def getNamespaces_def getEndpoints_def client_properties_def
        mirror_properties bind_ok_def in_world_def q mirror_api found props service world_single_order
        main_client_def NewDefaultServiceDiscoveryClient_def cache_defs Let_def)
qed

definition mirror_start :: "(small_cache, import_world) main_state" where
  "mirror_start = main_start example_lru (snd (world_state []))"

lemma mirror_beside: "beside world_reconciler (main_reconciler mirror_manager)"
  by (simp add: beside_def mirror_client_def) blast

lemma mirror_reads:
  "reconciler_properties (main_reconciler mirror_manager) (empty_properties, c) = (Ok demo_props, demo_props, c)"
  "on_world (kListNamespaces (reClient (main_reconciler mirror_manager))) (p, c) = (Ok [''ns''], p, c)"
  by (simp_all add: reconciler_properties_def GetClusterProperties_def LoadClusterProperties_def empty_properties_def
      props_IsValid_def mirror_client_def world_client_def set_property_def demo_props_def ClusterIdPropertyName_def
      ClusterSetIdPropertyName_def bind_ok_def client_ops_beside_def in_world_def on_world_def)

lemma mirror_round:
  "\<exists>p c. ReconcileCloudMap (main_reconciler mirror_manager) (msImportProps mirror_start, msClient mirror_start) = (Ok (), p, c)"
proof -
  let ?R = "main_reconciler mirror_manager :: (small_cache, import_world) client reconciler"
  let ?w = "snd (world_state [])" and ?c = "msClient mirror_start"
  have world: "clWorld ?c = ?w" by (simp add: mirror_start_def main_start_def main_client_def NewDefaultServiceDiscoveryClient_def)
  obtain c1 where c1: "ListServices mirror_env ''ns'' ?c = (Ok [world_service], c1)" "clWorld c1 = clWorld ?c"
    using mirror_lists [of ?w] world by (auto simp: mirror_start_def main_start_def)
  obtain p w where n: "reconcileNamespace world_reconciler ''ns'' (demo_props, ?w) = (Ok (), p, w)"
    using world_namespace [of "(demo_props, ?w)"] world_start by fastforce
  have "reconcileNamespace ?R ''ns'' (demo_props, ?c) = (Ok (), p, c1\<lparr>clWorld := w\<rparr>)"
    by (rule embedded_reconcileNamespace [OF mirror_beside _ c1(2)]) (use c1(1) n world in \<open>simp_all add: world_lists\<close>)
  then show ?thesis
    by (simp add: ReconcileCloudMap_def mirror_reads mirror_reads(2) [simplified] bind_ok_def error_result_def mirror_start_def main_start_def)
qed


end
