(* ===== verification/Memory.thy ===== *)
theory Memory
  imports GoPrelude
begin

text \<open>
  A memory of cells, for the code whose correctness is about sharing: a pointer, or the backing array of a
  slice, is an address, \<open>None\<close> when it is nil. Cells are only ever added. The locale \<open>deep_copy\<close> says what
  it means to copy a value deeply; the copying of pointers, slices and fields has it when that of their parts does.
\<close>

section \<open>Cells\<close>

type_synonym addr = nat

text \<open>Also the contents of a cell of another type than expected are not there: Go has no such pointer.\<close>

definition load :: "('c \<Rightarrow> 'a option) \<Rightarrow> 'c list \<Rightarrow> addr \<Rightarrow> 'a option" where
  "load proj h a = (if a < length h then proj (h ! a) else None)"

definition valid_in :: "'c list \<Rightarrow> addr set \<Rightarrow> bool" where
  "valid_in h A \<longleftrightarrow> (\<forall>a \<in> A. a < length h)"

text \<open>\<open>h'\<close> has the cells of \<open>h\<close> at the addresses \<open>A\<close>.\<close>

definition agree_on :: "addr set \<Rightarrow> 'c list \<Rightarrow> 'c list \<Rightarrow> bool" where
  "agree_on A h h' \<longleftrightarrow> (\<forall>a \<in> A. a < length h \<and> a < length h' \<and> h' ! a = h ! a)"

lemma valid_in_simps [simp]:
  "valid_in h {}" "valid_in h (insert a A) \<longleftrightarrow> a < length h \<and> valid_in h A"
  "valid_in h (A \<union> B) \<longleftrightarrow> valid_in h A \<and> valid_in h B" "valid_in h (\<Union>(F ` X)) \<longleftrightarrow> (\<forall>x \<in> X. valid_in h (F x))"
  by (auto simp: valid_in_def)

lemma agree_on_simps [simp]:
  "agree_on {} h h'" "agree_on (A \<union> B) h h' \<longleftrightarrow> agree_on A h h' \<and> agree_on B h h'"
  "agree_on (insert a A) h h' \<longleftrightarrow> a < length h \<and> a < length h' \<and> h' ! a = h ! a \<and> agree_on A h h'"
  "agree_on (\<Union>(F ` X)) h h' \<longleftrightarrow> (\<forall>x \<in> X. agree_on (F x) h h')"
  by (auto simp: agree_on_def)

lemma agree_on_append: "valid_in h A \<Longrightarrow> agree_on A h (h @ e)"
  by (auto simp: valid_in_def agree_on_def nth_append)

lemma agree_on_update: "\<lbrakk>valid_in h A; a \<notin> A\<rbrakk> \<Longrightarrow> agree_on A h (h[a := c])"
  unfolding valid_in_def agree_on_def by (metis length_list_update nth_list_update_neq)

section \<open>Deep copies\<close>

text \<open>
  \<open>reach h x\<close>: the addresses that a value leads to; \<open>content h x\<close>: the value with its pointers followed, which
  depends on those cells only. \<open>allocated h A h'\<close>: the addresses \<open>A\<close> were allocated since.
\<close>

definition allocated :: "'c list \<Rightarrow> addr set \<Rightarrow> 'c list \<Rightarrow> bool" where
  "allocated h A h' \<longleftrightarrow> (\<exists>e. h' = h @ e) \<and> (\<forall>a \<in> A. length h \<le> a \<and> a < length h')"

lemma allocated_refl [simp]: "allocated h {} h"
  by (simp add: allocated_def)

lemma allocatedD: "allocated h A h' \<Longrightarrow> valid_in h B \<Longrightarrow> agree_on B h h'"
  unfolding allocated_def by (auto intro: agree_on_append)

lemma allocated_valid: "allocated h A h' \<Longrightarrow> valid_in h' A"
  by (simp add: allocated_def valid_in_def)

lemma allocated_trans:
  assumes "allocated h A h1" and "allocated h1 B h2"
  shows "allocated h (A \<union> B) h2" and "agree_on A h1 h2"
proof -
  show "allocated h (A \<union> B) h2" using assms by (auto simp: allocated_def)
  show "agree_on A h1 h2" using allocatedD [OF assms(2) allocated_valid [OF assms(1)]] .
qed

lemma allocated_snoc: "allocated h A h1 \<Longrightarrow> allocated h (insert (length h1) A) (h1 @ [c])"
  by (auto simp: allocated_def)

locale deep_copy =
  fixes reach :: "'c list \<Rightarrow> 'a \<Rightarrow> addr set"
    and content :: "'c list \<Rightarrow> 'a \<Rightarrow> 'v"
    and copy :: "'a \<Rightarrow> 'c list \<Rightarrow> 'a \<times> 'c list"
  assumes frame: "agree_on (reach h x) h h' \<Longrightarrow> reach h' x = reach h x \<and> content h' x = content h x"
    and copied: "\<lbrakk>valid_in h (reach h x); copy x h = (y, h')\<rbrakk>
      \<Longrightarrow> allocated h (reach h' y) h' \<and> content h' y = content h x"
begin

lemma original_kept:
  assumes "valid_in h (reach h x)" and "copy x h = (y, h')"
  shows "content h' x = content h x" and "reach h' x = reach h x"
  using frame [OF allocatedD [OF copied [OF assms, THEN conjunct1] assms(1)]] by simp_all

lemma equal: "\<lbrakk>valid_in h (reach h x); copy x h = (y, h')\<rbrakk> \<Longrightarrow> content h' y = content h' x"
  using copied original_kept by simp

lemma nothing_shared:
  assumes "valid_in h (reach h x)" and "copy x h = (y, h')"
  shows "reach h' y \<inter> reach h' x = {}"
  using copied [OF assms] original_kept(2) [OF assms] assms(1) by (force simp: allocated_def valid_in_def)

text \<open>A write through either of the two does not show in the other.\<close>

lemma independent:
  assumes "valid_in h (reach h x)" and "copy x h = (y, h')"
  shows "a \<in> reach h' y \<Longrightarrow> content (h'[a := c]) x = content h' x"
    and "a \<in> reach h' x \<Longrightarrow> content (h'[a := c]) y = content h' y"
proof -
  have valid: "valid_in h' (reach h' x)" "valid_in h' (reach h' y)"
    using copied [OF assms] original_kept(2) [OF assms] assms(1) by (auto simp: allocated_def valid_in_def)
  have disjoint: "a \<in> reach h' y \<Longrightarrow> a \<notin> reach h' x" for a using nothing_shared [OF assms] by blast
  show "a \<in> reach h' y \<Longrightarrow> content (h'[a := c]) x = content h' x"
    using frame [OF agree_on_update [OF valid(1)], THEN conjunct2] disjoint by blast
  show "a \<in> reach h' x \<Longrightarrow> content (h'[a := c]) y = content h' y"
    using frame [OF agree_on_update [OF valid(2)], THEN conjunct2] disjoint by blast
qed

end

section \<open>Copying values, pointers, slices and fields\<close>

text \<open>A value without pointers.\<close>

lemma deep_copy_plain: "deep_copy (\<lambda>h x. {}) (\<lambda>h x. x) Pair"
  by unfold_locales auto

text \<open>\<open>*out = new(T); (*in).DeepCopyInto(*out)\<close>, if the pointer is not nil. \<open>wrap\<close> and \<open>proj\<close> make a cell of a value and back.\<close>

definition pointer_reach :: "('c \<Rightarrow> 'a option) \<Rightarrow> ('c list \<Rightarrow> 'a \<Rightarrow> addr set) \<Rightarrow> 'c list \<Rightarrow> addr option \<Rightarrow> addr set" where
  "pointer_reach proj reach h p =
     (case p of None \<Rightarrow> {}
      | Some a \<Rightarrow> insert a (case load proj h a of None \<Rightarrow> {} | Some x \<Rightarrow> reach h x))"

definition pointer_content :: "('c \<Rightarrow> 'a option) \<Rightarrow> ('c list \<Rightarrow> 'a \<Rightarrow> 'v) \<Rightarrow> 'c list \<Rightarrow> addr option \<Rightarrow> 'v option" where
  "pointer_content proj content h p =
     (case p of None \<Rightarrow> None | Some a \<Rightarrow> map_option (content h) (load proj h a))"

definition copy_pointer ::
  "('a \<Rightarrow> 'c) \<Rightarrow> ('c \<Rightarrow> 'a option) \<Rightarrow> ('a \<Rightarrow> 'c list \<Rightarrow> 'a \<times> 'c list) \<Rightarrow> addr option \<Rightarrow> 'c list \<Rightarrow> addr option \<times> 'c list" where
  "copy_pointer wrap proj copy p h =
     (case Option.bind p (load proj h) of
        None \<Rightarrow> (None, h)
      | Some x \<Rightarrow> (case copy x h of (y, h1) \<Rightarrow> (Some (length h1), h1 @ [wrap y])))"

lemma deep_copy_pointer:
  fixes reach :: "'c list \<Rightarrow> 'a \<Rightarrow> addr set"
  assumes "deep_copy reach content copy" and wrap: "\<And>x. proj (wrap x) = Some x"
  shows "deep_copy (pointer_reach proj reach) (pointer_content proj content) (copy_pointer wrap proj copy)"
proof unfold_locales
  note frame = deep_copy.frame [OF assms(1)] and copied = deep_copy.copied [OF assms(1)]
  fix h h' :: "'c list" and p
  show "pointer_reach proj reach h' p = pointer_reach proj reach h p \<and> pointer_content proj content h' p = pointer_content proj content h p"
    if "agree_on (pointer_reach proj reach h p) h h'"
  proof (cases p)
    case (Some a)
    then have l: "load proj h' a = load proj h a" using that by (auto simp: pointer_reach_def load_def)
    show ?thesis
    proof (cases "load proj h a")
      case (Some x)
      with that have "agree_on (reach h x) h h'" by (simp add: pointer_reach_def \<open>p = Some a\<close>)
      from frame [OF this] l show ?thesis by (simp add: pointer_reach_def pointer_content_def \<open>p = Some a\<close> Some)
    qed (simp add: pointer_reach_def pointer_content_def \<open>p = Some a\<close> l)
  qed (simp add: pointer_reach_def pointer_content_def)
  fix q
  assume valid: "valid_in h (pointer_reach proj reach h p)" and copy: "copy_pointer wrap proj copy p h = (q, h')"
  show "allocated h (pointer_reach proj reach h' q) h' \<and> pointer_content proj content h' q = pointer_content proj content h p"
  proof (cases "Option.bind p (load proj h)")
    case None
    with copy have "q = None" "h' = h" by (auto simp: copy_pointer_def)
    with None show ?thesis by (cases p) (auto simp: pointer_reach_def pointer_content_def)
  next
    case (Some x)
    then obtain a where p: "p = Some a" and x: "load proj h a = Some x" by (auto simp: bind_eq_Some_conv)
    obtain y h1 where c: "copy x h = (y, h1)" by (rule prod.exhaust)
    have q: "q = Some (length h1)" "h' = h1 @ [wrap y]" using copy by (auto simp: copy_pointer_def Some c)
    have y: "allocated h (reach h1 y) h1" "content h1 y = content h x"
      using copied [OF _ c] valid by (simp_all add: pointer_reach_def p x)
    have l: "load proj h' (length h1) = Some y" by (simp add: load_def q wrap)
    have "reach h' y = reach h1 y \<and> content h' y = content h1 y"
      unfolding q by (intro frame agree_on_append allocated_valid [OF y(1)])
    then show ?thesis
      using allocated_snoc [OF y(1), of "wrap y"] y(2) by (simp add: pointer_reach_def pointer_content_def q(1) l p x) (simp add: q(2))
  qed
qed


text \<open>A slice: the elements one by one, into a new array. A slice of values without pointers is copied with \<open>copy\<close>.\<close>

fun copy_elements :: "('a \<Rightarrow> 'h \<Rightarrow> 'a \<times> 'h) \<Rightarrow> 'a list \<Rightarrow> 'h \<Rightarrow> 'a list \<times> 'h" where
  "copy_elements copy [] h = ([], h)"
| "copy_elements copy (x # xs) h =
     (case copy x h of (y, h1) \<Rightarrow> (case copy_elements copy xs h1 of (ys, h2) \<Rightarrow> (y # ys, h2)))"

lemma deep_copy_elements:
  fixes reach :: "'c list \<Rightarrow> 'a \<Rightarrow> addr set"
  assumes "deep_copy reach content copy"
  shows "deep_copy (\<lambda>h xs. \<Union>x \<in> set xs. reach h x) (\<lambda>h. map (content h)) (copy_elements copy)"
proof unfold_locales
  note frame = deep_copy.frame [OF assms] and copied = deep_copy.copied [OF assms]
  fix h h' :: "'c list" and xs
  show "(\<Union>x \<in> set xs. reach h' x) = (\<Union>x \<in> set xs. reach h x) \<and> map (content h') xs = map (content h) xs"
    if "agree_on (\<Union>x \<in> set xs. reach h x) h h'"
  proof -
    have "reach h' x = reach h x \<and> content h' x = content h x" if "x \<in> set xs" for x
      using that \<open>agree_on _ h h'\<close> by (intro frame) simp
    then show ?thesis by simp
  qed
  show "allocated h (\<Union>x \<in> set ys. reach h' x) h' \<and> map (content h') ys = map (content h) xs"
    if "valid_in h (\<Union>x \<in> set xs. reach h x)" and "copy_elements copy xs h = (ys, h')" for ys
    using that
  proof (induction xs arbitrary: h ys)
    case (Cons x xs)
    obtain y h1 zs where 1: "copy x h = (y, h1)" and 2: "copy_elements copy xs h1 = (zs, h')" and ys: "ys = y # zs"
      using Cons.prems(2) by (auto split: prod.splits)
    have y: "allocated h (reach h1 y) h1" "content h1 y = content h x" using copied [OF _ 1] Cons.prems(1) by simp_all
    have old: "agree_on (reach h z) h h1" if "z \<in> set xs" for z
      using allocatedD [OF y(1)] Cons.prems(1) that by simp
    have "valid_in h1 (\<Union>z \<in> set xs. reach h1 z)"
      using old frame [OF old] by (auto simp: valid_in_def agree_on_def)
    from Cons.IH [OF this 2] have zs: "allocated h1 (\<Union>z \<in> set zs. reach h' z) h'" "map (content h') zs = map (content h1) xs"
      by simp_all
    have "agree_on (reach h1 y) h1 h'" using allocated_trans(2) [OF y(1) zs(1)] .
    from frame [OF this] show ?case
      using allocated_trans(1) [OF y(1) zs(1)] y(2) zs(2) frame [OF old] by (simp add: ys)
  qed simp
qed

definition copy_slice ::
  "('a list \<Rightarrow> 'c) \<Rightarrow> ('c \<Rightarrow> 'a list option) \<Rightarrow> ('a \<Rightarrow> 'c list \<Rightarrow> 'a \<times> 'c list) \<Rightarrow> addr option \<Rightarrow> 'c list \<Rightarrow> addr option \<times> 'c list" where
  "copy_slice wrap proj copy = copy_pointer wrap proj (copy_elements copy)"

lemmas deep_copy_slice = deep_copy_pointer [OF deep_copy_elements, folded copy_slice_def]

text \<open>Two fields, one after the other; and the fields \<open>get x\<close> of a struct, whose other fields have no pointers.\<close>

lemma deep_copy_pair:
  fixes reach :: "'c list \<Rightarrow> 'a \<Rightarrow> addr set"
  assumes "deep_copy reach content copy" and "deep_copy reach' content' copy'"
  shows "deep_copy (\<lambda>h (x, y). reach h x \<union> reach' h y) (\<lambda>h (x, y). (content h x, content' h y))
    (\<lambda>(x, y) h. case copy x h of (x', h1) \<Rightarrow> (case copy' y h1 of (y', h2) \<Rightarrow> ((x', y'), h2)))"
proof unfold_locales
  note f1 = deep_copy.frame [OF assms(1)] and c1 = deep_copy.copied [OF assms(1)]
    and f2 = deep_copy.frame [OF assms(2)] and c2 = deep_copy.copied [OF assms(2)]
  fix h h' :: "'c list" and p
  show "(case p of (x, y) \<Rightarrow> reach h' x \<union> reach' h' y) = (case p of (x, y) \<Rightarrow> reach h x \<union> reach' h y)
      \<and> (case p of (x, y) \<Rightarrow> (content h' x, content' h' y)) = (case p of (x, y) \<Rightarrow> (content h x, content' h y))"
    if "agree_on (case p of (x, y) \<Rightarrow> reach h x \<union> reach' h y) h h'"
    using that f1 [of h "fst p" h'] f2 [of h "snd p" h'] by (simp add: case_prod_beta)
  fix q
  assume valid: "valid_in h (case p of (x, y) \<Rightarrow> reach h x \<union> reach' h y)"
    and copy: "(case p of (x, y) \<Rightarrow> \<lambda>h. case copy x h of (x', h1) \<Rightarrow> (case copy' y h1 of (y', h2) \<Rightarrow> ((x', y'), h2))) h = (q, h')"
  obtain x y where p: "p = (x, y)" by (rule prod.exhaust)
  obtain x' h1 y' where 1: "copy x h = (x', h1)" and 2: "copy' y h1 = (y', h')" and q: "q = (x', y')"
    using copy by (auto simp: p split: prod.splits)
  have x: "allocated h (reach h1 x') h1" "content h1 x' = content h x" using c1 [OF _ 1] valid by (simp_all add: p)
  have old: "agree_on (reach' h y) h h1" using allocatedD [OF x(1)] valid by (simp add: p)
  then have "valid_in h1 (reach' h1 y)" using f2 [OF old] by (auto simp: valid_in_def agree_on_def)
  from c2 [OF this 2] have y: "allocated h1 (reach' h' y') h'" "content' h' y' = content' h1 y" by simp_all
  from f1 [OF allocated_trans(2) [OF x(1) y(1)]]
  show "allocated h (case q of (x, y) \<Rightarrow> reach h' x \<union> reach' h' y) h'
      \<and> (case q of (x, y) \<Rightarrow> (content h' x, content' h' y)) = (case p of (x, y) \<Rightarrow> (content h x, content' h y))"
    using allocated_trans(1) [OF x(1) y(1)] x(2) y(2) f2 [OF old] by (simp add: p q)
qed

lemma deep_copy_struct:
  fixes reach :: "'c list \<Rightarrow> 'f \<Rightarrow> addr set"
  assumes "deep_copy reach content copy" and "\<And>x p. get (put p x) = p" and "\<And>x p v. make (put p x) v = make x v"
  shows "deep_copy (\<lambda>h x. reach h (get x)) (\<lambda>h x. make x (content h (get x)))
    (\<lambda>x h. case copy (get x) h of (p, h') \<Rightarrow> (put p x, h'))"
  using deep_copy.frame [OF assms(1)] deep_copy.copied [OF assms(1)]
  by unfold_locales (auto simp: assms(2,3) split: prod.splits)


lemma deep_copy_struct2:
  fixes reach1 :: "'c list \<Rightarrow> 'f \<Rightarrow> addr set" and reach2 :: "'c list \<Rightarrow> 'g \<Rightarrow> addr set"
  assumes "deep_copy reach1 content1 copy1" and "deep_copy reach2 content2 copy2"
    and "\<And>x p q. get1 (put p q x) = p" and "\<And>x p q. get2 (put p q x) = q"
    and "\<And>x p q v w. make (put p q x) v w = make x v w"
  shows "deep_copy (\<lambda>h x. reach1 h (get1 x) \<union> reach2 h (get2 x))
    (\<lambda>h x. make x (content1 h (get1 x)) (content2 h (get2 x)))
    (\<lambda>x h. case copy1 (get1 x) h of (p, h1) \<Rightarrow> (case copy2 (get2 x) h1 of (q, h2) \<Rightarrow> (put p q x, h2)))"
  using deep_copy_struct [OF deep_copy_pair [OF assms(1,2)], where get = "\<lambda>x. (get1 x, get2 x)"
      and put = "\<lambda>(p, q). put p q" and make = "\<lambda>x (v, w). make x v w"] assms(3-5)
  by (auto simp: case_prod_beta)

lemma deep_copy_struct3:
  fixes reach1 :: "'c list \<Rightarrow> 'f \<Rightarrow> addr set" and reach2 :: "'c list \<Rightarrow> 'g \<Rightarrow> addr set" and reach3 :: "'c list \<Rightarrow> 'k \<Rightarrow> addr set"
  assumes "deep_copy reach1 content1 copy1" and "deep_copy reach2 content2 copy2" and "deep_copy reach3 content3 copy3"
    and "\<And>x p q r. get1 (put p q r x) = p" and "\<And>x p q r. get2 (put p q r x) = q" and "\<And>x p q r. get3 (put p q r x) = r"
    and "\<And>x p q r v w u. make (put p q r x) v w u = make x v w u"
  shows "deep_copy (\<lambda>h x. reach1 h (get1 x) \<union> (reach2 h (get2 x) \<union> reach3 h (get3 x)))
    (\<lambda>h x. make x (content1 h (get1 x)) (content2 h (get2 x)) (content3 h (get3 x)))
    (\<lambda>x h. case copy1 (get1 x) h of (p, h1) \<Rightarrow> (case copy2 (get2 x) h1 of (q, h2) \<Rightarrow>
      (case copy3 (get3 x) h2 of (r, h3) \<Rightarrow> (put p q r x, h3))))"
  using deep_copy_struct2 [OF assms(1) deep_copy_pair [OF assms(2,3)], where ?get1.0 = get1 and ?get2.0 = "\<lambda>x. (get2 x, get3 x)"
      and put = "\<lambda>p (q, r). put p q r" and make = "\<lambda>x v (w, u). make x v w u"] assms(4-7)
  by (auto simp: case_prod_beta)

end
