(* ===== verification/DeepCopy.thy ===== *)
theory DeepCopy
  imports Memory
begin

text \<open>
  \<open>pkg/apis/*/v1alpha1/zz_generated.deepcopy.go\<close>: the deep copies of the API objects, over the memory of
  \<open>Memory\<close>. A struct is a record whose pointer and slice fields are addresses. \<open>DeepCopyInto\<close> gives what it writes to
  \<open>*out\<close>; in this model a new array is allocated after its elements rather than before, which only renames addresses.

  Types of apimachinery and of core/v1 that have a \<open>DeepCopyInto\<close> of their own are the type parameter \<open>'x\<close> and the record
  \<open>library\<close> of parameters; what is assumed of them is that their copies are deep too.
\<close>

section \<open>Structs\<close>

record 'p service_port_obj =
  pobName :: string
  pobProtocol :: string
  pobAppProtocol :: 'p
  pobPort :: int32

record ('p, 'i, 'a) import_spec_obj =
  sobPorts :: 'p
  sobIPs :: 'i
  sobType :: string
  sobSessionAffinity :: string
  sobSessionAffinityConfig :: 'a

record cluster_status =
  clsCluster :: string

record 'c import_status_obj =
  iobClusters :: 'c

record 'c export_status_obj =
  eobConditions :: 'c

type_synonym type_meta = "string \<times> string"

record ('x, 's, 't) service_import_obj =
  iobTypeMeta :: type_meta
  iobObjectMeta :: 'x
  iobSpec :: 's
  iobStatus :: 't

record ('x, 't) service_export_obj =
  eobTypeMeta :: type_meta
  eobObjectMeta :: 'x
  eobStatus :: 't

record ('x, 'i) list_obj =
  lobTypeMeta :: type_meta
  lobListMeta :: 'x
  lobItems :: 'i

record property_spec = pspValue :: string
record 'x cluster_property_obj =
  pobTypeMeta :: type_meta
  pobObjectMeta :: 'x
  pobSpec :: property_spec
  pobStatus :: unit

text \<open>In memory, and with the pointers followed.\<close>

type_synonym heap_port = "addr option service_port_obj"
type_synonym heap_spec = "(addr option, addr option, addr option) import_spec_obj"
type_synonym 'x heap_import = "('x, heap_spec, addr option import_status_obj) service_import_obj"
type_synonym 'x heap_export = "('x, addr option export_status_obj) service_export_obj"
type_synonym 'x heap_list = "('x, addr option) list_obj"

type_synonym port_value = "string option service_port_obj"
type_synonym 'v spec_value = "(port_value list option, string list option, 'v option) import_spec_obj"
type_synonym 'v import_value = "('v, 'v spec_value, cluster_status list option import_status_obj) service_import_obj"
type_synonym 'v export_value = "('v, 'v list option export_status_obj) service_export_obj"

datatype 'x cell =
    StringCell string
  | StringsCell "string list"
  | PortsCell "heap_port list"
  | ClustersCell "cluster_status list"
  | LibraryCell 'x
  | ConditionsCell "'x list"
  | ImportsCell "'x heap_import list"
  | ExportsCell "'x heap_export list"
  | PropertiesCell "'x cluster_property_obj list"

type_synonym 'x heap = "'x cell list"

definition the_string :: "'x cell \<Rightarrow> string option" where
  "the_string c = (case c of StringCell s \<Rightarrow> Some s | _ \<Rightarrow> None)"
definition the_strings :: "'x cell \<Rightarrow> string list option" where
  "the_strings c = (case c of StringsCell s \<Rightarrow> Some s | _ \<Rightarrow> None)"
definition the_ports :: "'x cell \<Rightarrow> heap_port list option" where
  "the_ports c = (case c of PortsCell s \<Rightarrow> Some s | _ \<Rightarrow> None)"
definition the_clusters :: "'x cell \<Rightarrow> cluster_status list option" where
  "the_clusters c = (case c of ClustersCell s \<Rightarrow> Some s | _ \<Rightarrow> None)"
definition the_library :: "'x cell \<Rightarrow> 'x option" where
  "the_library c = (case c of LibraryCell s \<Rightarrow> Some s | _ \<Rightarrow> None)"
definition the_conditions :: "'x cell \<Rightarrow> 'x list option" where
  "the_conditions c = (case c of ConditionsCell s \<Rightarrow> Some s | _ \<Rightarrow> None)"
definition the_imports :: "'x cell \<Rightarrow> 'x heap_import list option" where
  "the_imports c = (case c of ImportsCell s \<Rightarrow> Some s | _ \<Rightarrow> None)"
definition the_exports :: "'x cell \<Rightarrow> 'x heap_export list option" where
  "the_exports c = (case c of ExportsCell s \<Rightarrow> Some s | _ \<Rightarrow> None)"
definition the_properties :: "'x cell \<Rightarrow> 'x cluster_property_obj list option" where
  "the_properties c = (case c of PropertiesCell s \<Rightarrow> Some s | _ \<Rightarrow> None)"

lemma the_cell [simp]:
  "the_string (StringCell s) = Some s" "the_strings (StringsCell ss) = Some ss" "the_ports (PortsCell ps) = Some ps"
  "the_clusters (ClustersCell cs) = Some cs" "the_library (LibraryCell x) = Some x"
  "the_conditions (ConditionsCell xs) = Some xs" "the_imports (ImportsCell is) = Some is"
  "the_exports (ExportsCell es) = Some es" "the_properties (PropertiesCell props) = Some props"
  by (simp_all add: the_string_def the_strings_def the_ports_def the_clusters_def the_library_def the_conditions_def
      the_imports_def the_exports_def the_properties_def)

section \<open>Objects of other packages\<close>

datatype library_type = ObjectMeta | ListMeta | Condition | SessionAffinityConfig

record ('x, 'v) library =
  libReach :: "library_type \<Rightarrow> 'x heap \<Rightarrow> 'x \<Rightarrow> addr set"
  libContent :: "library_type \<Rightarrow> 'x heap \<Rightarrow> 'x \<Rightarrow> 'v"
  libDeepCopyInto :: "library_type \<Rightarrow> 'x \<Rightarrow> 'x heap \<Rightarrow> 'x \<times> 'x heap"

definition library_laws :: "('x, 'v) library \<Rightarrow> bool" where
  "library_laws lib \<longleftrightarrow> (\<forall>t. deep_copy (libReach lib t) (libContent lib t) (libDeepCopyInto lib t))"

section \<open>DeepCopyInto\<close>

definition ServicePort_DeepCopyInto :: "heap_port \<Rightarrow> 'x heap \<Rightarrow> heap_port \<times> 'x heap" where
  "ServicePort_DeepCopyInto x h =
     (case copy_pointer StringCell the_string Pair (pobAppProtocol x) h of
        (appProtocol, h1) \<Rightarrow> (x\<lparr>pobAppProtocol := appProtocol\<rparr>, h1))"

definition ServiceImportSpec_DeepCopyInto :: "('x, 'v) library \<Rightarrow> heap_spec \<Rightarrow> 'x heap \<Rightarrow> heap_spec \<times> 'x heap" where
  "ServiceImportSpec_DeepCopyInto lib x h =
     (case copy_slice PortsCell the_ports ServicePort_DeepCopyInto (sobPorts x) h of
        (ports, h1) \<Rightarrow>
          (case copy_slice StringsCell the_strings Pair (sobIPs x) h1 of
             (ips, h2) \<Rightarrow>
               (case copy_pointer LibraryCell the_library (libDeepCopyInto lib SessionAffinityConfig)
                       (sobSessionAffinityConfig x) h2 of
                  (config, h3) \<Rightarrow> (x\<lparr>sobPorts := ports, sobIPs := ips, sobSessionAffinityConfig := config\<rparr>, h3))))"

definition ClusterStatus_DeepCopyInto :: "cluster_status \<Rightarrow> 'x heap \<Rightarrow> cluster_status \<times> 'x heap" where
  "ClusterStatus_DeepCopyInto x h = (x, h)"

definition ServiceImportStatus_DeepCopyInto ::
  "addr option import_status_obj \<Rightarrow> 'x heap \<Rightarrow> addr option import_status_obj \<times> 'x heap" where
  "ServiceImportStatus_DeepCopyInto x h =
     (case copy_slice ClustersCell the_clusters Pair (iobClusters x) h of
        (clusters, h1) \<Rightarrow> (x\<lparr>iobClusters := clusters\<rparr>, h1))"

definition ServiceImport_DeepCopyInto :: "('x, 'v) library \<Rightarrow> 'x heap_import \<Rightarrow> 'x heap \<Rightarrow> 'x heap_import \<times> 'x heap" where
  "ServiceImport_DeepCopyInto lib x h =
     (case libDeepCopyInto lib ObjectMeta (iobObjectMeta x) h of
        (meta, h1) \<Rightarrow>
          (case ServiceImportSpec_DeepCopyInto lib (iobSpec x) h1 of
             (spec, h2) \<Rightarrow>
               (case ServiceImportStatus_DeepCopyInto (iobStatus x) h2 of
                  (status, h3) \<Rightarrow> (x\<lparr>iobObjectMeta := meta, iobSpec := spec, iobStatus := status\<rparr>, h3))))"

definition ServiceImportList_DeepCopyInto :: "('x, 'v) library \<Rightarrow> 'x heap_list \<Rightarrow> 'x heap \<Rightarrow> 'x heap_list \<times> 'x heap" where
  "ServiceImportList_DeepCopyInto lib x h =
     (case libDeepCopyInto lib ListMeta (lobListMeta x) h of
        (meta, h1) \<Rightarrow>
          (case copy_slice ImportsCell the_imports (ServiceImport_DeepCopyInto lib) (lobItems x) h1 of
             (items, h2) \<Rightarrow> (x\<lparr>lobListMeta := meta, lobItems := items\<rparr>, h2)))"

definition ServiceExportStatus_DeepCopyInto ::
  "('x, 'v) library \<Rightarrow> addr option export_status_obj \<Rightarrow> 'x heap \<Rightarrow> addr option export_status_obj \<times> 'x heap" where
  "ServiceExportStatus_DeepCopyInto lib x h =
     (case copy_slice ConditionsCell the_conditions (libDeepCopyInto lib Condition) (eobConditions x) h of
        (conditions, h1) \<Rightarrow> (x\<lparr>eobConditions := conditions\<rparr>, h1))"

definition ServiceExport_DeepCopyInto :: "('x, 'v) library \<Rightarrow> 'x heap_export \<Rightarrow> 'x heap \<Rightarrow> 'x heap_export \<times> 'x heap" where
  "ServiceExport_DeepCopyInto lib x h =
     (case libDeepCopyInto lib ObjectMeta (eobObjectMeta x) h of
        (meta, h1) \<Rightarrow>
          (case ServiceExportStatus_DeepCopyInto lib (eobStatus x) h1 of
             (status, h2) \<Rightarrow> (x\<lparr>eobObjectMeta := meta, eobStatus := status\<rparr>, h2)))"

definition ServiceExportList_DeepCopyInto :: "('x, 'v) library \<Rightarrow> 'x heap_list \<Rightarrow> 'x heap \<Rightarrow> 'x heap_list \<times> 'x heap" where
  "ServiceExportList_DeepCopyInto lib x h =
     (case libDeepCopyInto lib ListMeta (lobListMeta x) h of
        (meta, h1) \<Rightarrow>
          (case copy_slice ExportsCell the_exports (ServiceExport_DeepCopyInto lib) (lobItems x) h1 of
             (items, h2) \<Rightarrow> (x\<lparr>lobListMeta := meta, lobItems := items\<rparr>, h2)))"

definition ClusterPropertySpec_DeepCopyInto :: "property_spec \<Rightarrow> 'x heap \<Rightarrow> property_spec \<times> 'x heap" where
  "ClusterPropertySpec_DeepCopyInto x h = (x, h)"

definition ClusterPropertyStatus_DeepCopyInto :: "unit \<Rightarrow> 'x heap \<Rightarrow> unit \<times> 'x heap" where
  "ClusterPropertyStatus_DeepCopyInto x h = (x, h)"

definition ClusterProperty_DeepCopyInto ::
  "('x, 'v) library \<Rightarrow> 'x cluster_property_obj \<Rightarrow> 'x heap \<Rightarrow> 'x cluster_property_obj \<times> 'x heap" where
  "ClusterProperty_DeepCopyInto lib x h =
     (case libDeepCopyInto lib ObjectMeta (pobObjectMeta x) h of (meta, h1) \<Rightarrow> (x\<lparr>pobObjectMeta := meta\<rparr>, h1))"

definition ClusterPropertyList_DeepCopyInto :: "('x, 'v) library \<Rightarrow> 'x heap_list \<Rightarrow> 'x heap \<Rightarrow> 'x heap_list \<times> 'x heap" where
  "ClusterPropertyList_DeepCopyInto lib x h =
     (case libDeepCopyInto lib ListMeta (lobListMeta x) h of
        (meta, h1) \<Rightarrow>
          (case copy_slice PropertiesCell the_properties (ClusterProperty_DeepCopyInto lib) (lobItems x) h1 of
             (items, h2) \<Rightarrow> (x\<lparr>lobListMeta := meta, lobItems := items\<rparr>, h2)))"

section \<open>DeepCopy and DeepCopyObject\<close>

text \<open>
  \<open>if in == nil { return nil }; out := new(T); in.DeepCopyInto(out); return out\<close>: nothing else leads to the new
  struct, so a pointer to a struct is here its value, or \<open>None\<close>.
\<close>

definition DeepCopy :: "('a \<Rightarrow> 'h \<Rightarrow> 'a \<times> 'h) \<Rightarrow> 'a option \<Rightarrow> 'h \<Rightarrow> 'a option \<times> 'h" where
  "DeepCopy copyInto p h =
     (case p of None \<Rightarrow> (None, h) | Some x \<Rightarrow> (case copyInto x h of (out, h') \<Rightarrow> (Some out, h')))"

definition ServicePort_DeepCopy :: "heap_port option \<Rightarrow> 'x heap \<Rightarrow> heap_port option \<times> 'x heap" where
  "ServicePort_DeepCopy = DeepCopy ServicePort_DeepCopyInto"
definition ServiceImportSpec_DeepCopy :: "('x, 'v) library \<Rightarrow> heap_spec option \<Rightarrow> 'x heap \<Rightarrow> heap_spec option \<times> 'x heap" where
  "ServiceImportSpec_DeepCopy lib = DeepCopy (ServiceImportSpec_DeepCopyInto lib)"
definition ClusterStatus_DeepCopy :: "cluster_status option \<Rightarrow> 'x heap \<Rightarrow> cluster_status option \<times> 'x heap" where
  "ClusterStatus_DeepCopy = DeepCopy ClusterStatus_DeepCopyInto"
definition ServiceImportStatus_DeepCopy ::
  "addr option import_status_obj option \<Rightarrow> 'x heap \<Rightarrow> addr option import_status_obj option \<times> 'x heap" where
  "ServiceImportStatus_DeepCopy = DeepCopy ServiceImportStatus_DeepCopyInto"
definition ServiceImport_DeepCopy :: "('x, 'v) library \<Rightarrow> 'x heap_import option \<Rightarrow> 'x heap \<Rightarrow> 'x heap_import option \<times> 'x heap" where
  "ServiceImport_DeepCopy lib = DeepCopy (ServiceImport_DeepCopyInto lib)"
definition ServiceImportList_DeepCopy :: "('x, 'v) library \<Rightarrow> 'x heap_list option \<Rightarrow> 'x heap \<Rightarrow> 'x heap_list option \<times> 'x heap" where
  "ServiceImportList_DeepCopy lib = DeepCopy (ServiceImportList_DeepCopyInto lib)"
definition ServiceExportStatus_DeepCopy ::
  "('x, 'v) library \<Rightarrow> addr option export_status_obj option \<Rightarrow> 'x heap \<Rightarrow> addr option export_status_obj option \<times> 'x heap" where
  "ServiceExportStatus_DeepCopy lib = DeepCopy (ServiceExportStatus_DeepCopyInto lib)"
definition ServiceExport_DeepCopy :: "('x, 'v) library \<Rightarrow> 'x heap_export option \<Rightarrow> 'x heap \<Rightarrow> 'x heap_export option \<times> 'x heap" where
  "ServiceExport_DeepCopy lib = DeepCopy (ServiceExport_DeepCopyInto lib)"
definition ServiceExportList_DeepCopy :: "('x, 'v) library \<Rightarrow> 'x heap_list option \<Rightarrow> 'x heap \<Rightarrow> 'x heap_list option \<times> 'x heap" where
  "ServiceExportList_DeepCopy lib = DeepCopy (ServiceExportList_DeepCopyInto lib)"
definition ClusterPropertySpec_DeepCopy :: "property_spec option \<Rightarrow> 'x heap \<Rightarrow> property_spec option \<times> 'x heap" where
  "ClusterPropertySpec_DeepCopy = DeepCopy ClusterPropertySpec_DeepCopyInto"
definition ClusterPropertyStatus_DeepCopy :: "unit option \<Rightarrow> 'x heap \<Rightarrow> unit option \<times> 'x heap" where
  "ClusterPropertyStatus_DeepCopy = DeepCopy ClusterPropertyStatus_DeepCopyInto"
definition ClusterProperty_DeepCopy ::
  "('x, 'v) library \<Rightarrow> 'x cluster_property_obj option \<Rightarrow> 'x heap \<Rightarrow> 'x cluster_property_obj option \<times> 'x heap" where
  "ClusterProperty_DeepCopy lib = DeepCopy (ClusterProperty_DeepCopyInto lib)"
definition ClusterPropertyList_DeepCopy :: "('x, 'v) library \<Rightarrow> 'x heap_list option \<Rightarrow> 'x heap \<Rightarrow> 'x heap_list option \<times> 'x heap" where
  "ClusterPropertyList_DeepCopy lib = DeepCopy (ClusterPropertyList_DeepCopyInto lib)"

text \<open>The copy as a \<open>runtime.Object\<close>, one constructor for each type that is one.\<close>

datatype 'x runtime_object =
    ServiceImportObject "'x heap_import"
  | ServiceImportListObject "'x heap_list"
  | ServiceExportObject "'x heap_export"
  | ServiceExportListObject "'x heap_list"
  | ClusterPropertyObject "'x cluster_property_obj"
  | ClusterPropertyListObject "'x heap_list"

definition as_object :: "('a \<Rightarrow> 'x runtime_object) \<Rightarrow> 'a option \<times> 'h \<Rightarrow> 'x runtime_object option \<times> 'h" where
  "as_object obj r = (case r of (Some c, h) \<Rightarrow> (Some (obj c), h) | (None, h) \<Rightarrow> (None, h))"

definition ServiceImport_DeepCopyObject ::
  "('x, 'v) library \<Rightarrow> 'x heap_import option \<Rightarrow> 'x heap \<Rightarrow> 'x runtime_object option \<times> 'x heap" where
  "ServiceImport_DeepCopyObject lib p h = as_object ServiceImportObject (ServiceImport_DeepCopy lib p h)"
definition ServiceImportList_DeepCopyObject ::
  "('x, 'v) library \<Rightarrow> 'x heap_list option \<Rightarrow> 'x heap \<Rightarrow> 'x runtime_object option \<times> 'x heap" where
  "ServiceImportList_DeepCopyObject lib p h = as_object ServiceImportListObject (ServiceImportList_DeepCopy lib p h)"
definition ServiceExport_DeepCopyObject ::
  "('x, 'v) library \<Rightarrow> 'x heap_export option \<Rightarrow> 'x heap \<Rightarrow> 'x runtime_object option \<times> 'x heap" where
  "ServiceExport_DeepCopyObject lib p h = as_object ServiceExportObject (ServiceExport_DeepCopy lib p h)"
definition ServiceExportList_DeepCopyObject ::
  "('x, 'v) library \<Rightarrow> 'x heap_list option \<Rightarrow> 'x heap \<Rightarrow> 'x runtime_object option \<times> 'x heap" where
  "ServiceExportList_DeepCopyObject lib p h = as_object ServiceExportListObject (ServiceExportList_DeepCopy lib p h)"
definition ClusterProperty_DeepCopyObject ::
  "('x, 'v) library \<Rightarrow> 'x cluster_property_obj option \<Rightarrow> 'x heap \<Rightarrow> 'x runtime_object option \<times> 'x heap" where
  "ClusterProperty_DeepCopyObject lib p h = as_object ClusterPropertyObject (ClusterProperty_DeepCopy lib p h)"
definition ClusterPropertyList_DeepCopyObject ::
  "('x, 'v) library \<Rightarrow> 'x heap_list option \<Rightarrow> 'x heap \<Rightarrow> 'x runtime_object option \<times> 'x heap" where
  "ClusterPropertyList_DeepCopyObject lib p h = as_object ClusterPropertyListObject (ClusterPropertyList_DeepCopy lib p h)"

section \<open>What a value leads to, and what it says\<close>

definition port_content :: "'x heap \<Rightarrow> heap_port \<Rightarrow> port_value" where
  "port_content h x = \<lparr>pobName = pobName x, pobProtocol = pobProtocol x,
     pobAppProtocol = pointer_content the_string (\<lambda>h s. s) h (pobAppProtocol x), pobPort = pobPort x\<rparr>"

definition port_reach :: "'x heap \<Rightarrow> heap_port \<Rightarrow> addr set" where
  "port_reach h x = pointer_reach the_string (\<lambda>h s. {}) h (pobAppProtocol x)"

definition spec_content :: "('x, 'v) library \<Rightarrow> 'x heap \<Rightarrow> heap_spec \<Rightarrow> 'v spec_value" where
  "spec_content lib h x = \<lparr>sobPorts = pointer_content the_ports (\<lambda>h. map (port_content h)) h (sobPorts x),
     sobIPs = pointer_content the_strings (\<lambda>h. map (\<lambda>s. s)) h (sobIPs x), sobType = sobType x,
     sobSessionAffinity = sobSessionAffinity x,
     sobSessionAffinityConfig = pointer_content the_library (libContent lib SessionAffinityConfig) h (sobSessionAffinityConfig x)\<rparr>"

definition spec_reach :: "('x, 'v) library \<Rightarrow> 'x heap \<Rightarrow> heap_spec \<Rightarrow> addr set" where
  "spec_reach lib h x = pointer_reach the_ports (\<lambda>h xs. \<Union>x \<in> set xs. port_reach h x) h (sobPorts x)
     \<union> (pointer_reach the_strings (\<lambda>h xs. \<Union>x \<in> set xs. {}) h (sobIPs x)
        \<union> pointer_reach the_library (libReach lib SessionAffinityConfig) h (sobSessionAffinityConfig x))"

definition import_status_content :: "'x heap \<Rightarrow> addr option import_status_obj \<Rightarrow> cluster_status list option import_status_obj" where
  "import_status_content h x = \<lparr>iobClusters = pointer_content the_clusters (\<lambda>h. map (\<lambda>s. s)) h (iobClusters x)\<rparr>"

definition import_status_reach :: "'x heap \<Rightarrow> addr option import_status_obj \<Rightarrow> addr set" where
  "import_status_reach h x = pointer_reach the_clusters (\<lambda>h xs. \<Union>x \<in> set xs. {}) h (iobClusters x)"

definition import_content :: "('x, 'v) library \<Rightarrow> 'x heap \<Rightarrow> 'x heap_import \<Rightarrow> 'v import_value" where
  "import_content lib h x = \<lparr>iobTypeMeta = iobTypeMeta x, iobObjectMeta = libContent lib ObjectMeta h (iobObjectMeta x),
     iobSpec = spec_content lib h (iobSpec x), iobStatus = import_status_content h (iobStatus x)\<rparr>"

definition import_reach :: "('x, 'v) library \<Rightarrow> 'x heap \<Rightarrow> 'x heap_import \<Rightarrow> addr set" where
  "import_reach lib h x = libReach lib ObjectMeta h (iobObjectMeta x)
     \<union> (spec_reach lib h (iobSpec x) \<union> import_status_reach h (iobStatus x))"

definition export_status_content ::
  "('x, 'v) library \<Rightarrow> 'x heap \<Rightarrow> addr option export_status_obj \<Rightarrow> 'v list option export_status_obj" where
  "export_status_content lib h x =
     \<lparr>eobConditions = pointer_content the_conditions (\<lambda>h. map (libContent lib Condition h)) h (eobConditions x)\<rparr>"

definition export_status_reach :: "('x, 'v) library \<Rightarrow> 'x heap \<Rightarrow> addr option export_status_obj \<Rightarrow> addr set" where
  "export_status_reach lib h x =
     pointer_reach the_conditions (\<lambda>h xs. \<Union>x \<in> set xs. libReach lib Condition h x) h (eobConditions x)"

definition export_content :: "('x, 'v) library \<Rightarrow> 'x heap \<Rightarrow> 'x heap_export \<Rightarrow> 'v export_value" where
  "export_content lib h x = \<lparr>eobTypeMeta = eobTypeMeta x, eobObjectMeta = libContent lib ObjectMeta h (eobObjectMeta x),
     eobStatus = export_status_content lib h (eobStatus x)\<rparr>"

definition export_reach :: "('x, 'v) library \<Rightarrow> 'x heap \<Rightarrow> 'x heap_export \<Rightarrow> addr set" where
  "export_reach lib h x = libReach lib ObjectMeta h (eobObjectMeta x) \<union> export_status_reach lib h (eobStatus x)"

definition property_content :: "('x, 'v) library \<Rightarrow> 'x heap \<Rightarrow> 'x cluster_property_obj \<Rightarrow> 'v cluster_property_obj" where
  "property_content lib h x = \<lparr>pobTypeMeta = pobTypeMeta x, pobObjectMeta = libContent lib ObjectMeta h (pobObjectMeta x),
     pobSpec = pobSpec x, pobStatus = pobStatus x\<rparr>"

definition property_reach :: "('x, 'v) library \<Rightarrow> 'x heap \<Rightarrow> 'x cluster_property_obj \<Rightarrow> addr set" where
  "property_reach lib h x = libReach lib ObjectMeta h (pobObjectMeta x)"

definition list_content ::
  "('x, 'v) library \<Rightarrow> ('x cell \<Rightarrow> 'a list option) \<Rightarrow> ('x heap \<Rightarrow> 'a \<Rightarrow> 'b) \<Rightarrow> 'x heap \<Rightarrow> 'x heap_list \<Rightarrow> ('v, 'b list option) list_obj" where
  "list_content lib proj content h x = \<lparr>lobTypeMeta = lobTypeMeta x, lobListMeta = libContent lib ListMeta h (lobListMeta x),
     lobItems = pointer_content proj (\<lambda>h. map (content h)) h (lobItems x)\<rparr>"

definition list_reach ::
  "('x, 'v) library \<Rightarrow> ('x cell \<Rightarrow> 'a list option) \<Rightarrow> ('x heap \<Rightarrow> 'a \<Rightarrow> addr set) \<Rightarrow> 'x heap \<Rightarrow> 'x heap_list \<Rightarrow> addr set" where
  "list_reach lib proj reach h x = libReach lib ListMeta h (lobListMeta x)
     \<union> pointer_reach proj (\<lambda>h xs. \<Union>x \<in> set xs. reach h x) h (lobItems x)"

section \<open>Every copy is deep\<close>

lemma libraryD: "library_laws lib \<Longrightarrow> deep_copy (libReach lib t) (libContent lib t) (libDeepCopyInto lib t)"
  by (simp add: library_laws_def)

lemma deep_copy_port: "deep_copy port_reach port_content ServicePort_DeepCopyInto"
  unfolding port_reach_def [abs_def] port_content_def [abs_def] ServicePort_DeepCopyInto_def [abs_def]
  by (rule deep_copy_struct [OF deep_copy_pointer [OF deep_copy_plain]]) simp_all

interpretation port_copy: deep_copy port_reach port_content ServicePort_DeepCopyInto
  by (rule deep_copy_port)

lemma deep_copy_spec:
  assumes "library_laws lib"
  shows "deep_copy (spec_reach lib) (spec_content lib) (ServiceImportSpec_DeepCopyInto lib)"
  unfolding spec_reach_def [abs_def] spec_content_def [abs_def] ServiceImportSpec_DeepCopyInto_def [abs_def]
  by (rule deep_copy_struct3 [OF deep_copy_slice [OF deep_copy_port] deep_copy_slice [OF deep_copy_plain]
        deep_copy_pointer [OF libraryD [OF assms]]]) simp_all

lemma deep_copy_import_status: "deep_copy import_status_reach import_status_content ServiceImportStatus_DeepCopyInto"
  unfolding import_status_reach_def [abs_def] import_status_content_def [abs_def] ServiceImportStatus_DeepCopyInto_def [abs_def]
  by (rule deep_copy_struct [OF deep_copy_slice [OF deep_copy_plain]]) simp_all

interpretation import_status_copy: deep_copy import_status_reach import_status_content ServiceImportStatus_DeepCopyInto
  by (rule deep_copy_import_status)

lemma deep_copy_import:
  assumes "library_laws lib"
  shows "deep_copy (import_reach lib) (import_content lib) (ServiceImport_DeepCopyInto lib)"
  unfolding import_reach_def [abs_def] import_content_def [abs_def] ServiceImport_DeepCopyInto_def [abs_def]
  by (rule deep_copy_struct3 [OF libraryD [OF assms] deep_copy_spec [OF assms] deep_copy_import_status]) simp_all

lemma deep_copy_export_status:
  assumes "library_laws lib"
  shows "deep_copy (export_status_reach lib) (export_status_content lib) (ServiceExportStatus_DeepCopyInto lib)"
  unfolding export_status_reach_def [abs_def] export_status_content_def [abs_def] ServiceExportStatus_DeepCopyInto_def [abs_def]
  by (rule deep_copy_struct [OF deep_copy_slice [OF libraryD [OF assms]]]) simp_all

lemma deep_copy_export:
  assumes "library_laws lib"
  shows "deep_copy (export_reach lib) (export_content lib) (ServiceExport_DeepCopyInto lib)"
  unfolding export_reach_def [abs_def] export_content_def [abs_def] ServiceExport_DeepCopyInto_def [abs_def]
  by (rule deep_copy_struct2 [OF libraryD [OF assms] deep_copy_export_status [OF assms]]) simp_all

lemma deep_copy_property:
  assumes "library_laws lib"
  shows "deep_copy (property_reach lib) (property_content lib) (ClusterProperty_DeepCopyInto lib)"
  unfolding property_reach_def [abs_def] property_content_def [abs_def] ClusterProperty_DeepCopyInto_def [abs_def]
  by (rule deep_copy_struct [OF libraryD [OF assms]]) simp_all

lemma deep_copy_list:
  assumes "library_laws lib" and "deep_copy reach content copy" and "\<And>xs. proj (wrap xs) = Some xs"
  shows "deep_copy (list_reach lib proj reach) (list_content lib proj content)
    (\<lambda>x h. case libDeepCopyInto lib ListMeta (lobListMeta x) h of
        (meta, h1) \<Rightarrow> (case copy_slice wrap proj copy (lobItems x) h1 of
             (items, h2) \<Rightarrow> (x\<lparr>lobListMeta := meta, lobItems := items\<rparr>, h2)))"
  unfolding list_reach_def [abs_def] list_content_def [abs_def]
  by (rule deep_copy_struct2 [OF libraryD [OF assms(1)] deep_copy_slice [OF assms(2,3)]]) simp_all

lemma deep_copy_lists:
  assumes "library_laws lib"
  shows "deep_copy (list_reach lib the_imports (import_reach lib)) (list_content lib the_imports (import_content lib))
      (ServiceImportList_DeepCopyInto lib)"
    and "deep_copy (list_reach lib the_exports (export_reach lib)) (list_content lib the_exports (export_content lib))
      (ServiceExportList_DeepCopyInto lib)"
    and "deep_copy (list_reach lib the_properties (property_reach lib)) (list_content lib the_properties (property_content lib))
      (ClusterPropertyList_DeepCopyInto lib)"
  unfolding ServiceImportList_DeepCopyInto_def [abs_def] ServiceExportList_DeepCopyInto_def [abs_def]
    ClusterPropertyList_DeepCopyInto_def [abs_def]
  by (rule deep_copy_list [OF assms]; rule deep_copy_import [OF assms] deep_copy_export [OF assms] deep_copy_property [OF assms] the_cell)+

section \<open>Properties\<close>

text \<open>
  \<open>copies_deeply R C F\<close>: of a value in memory, \<open>F\<close> makes one with the same content that shares no cell with it, and leaves it
  as it is; whatever is then written to a cell of the one does not show in the other.
\<close>

definition copies_deeply ::
  "('c list \<Rightarrow> 'a \<Rightarrow> addr set) \<Rightarrow> ('c list \<Rightarrow> 'a \<Rightarrow> 'v) \<Rightarrow> ('a option \<Rightarrow> 'c list \<Rightarrow> 'a option \<times> 'c list) \<Rightarrow> bool" where
  "copies_deeply R C F \<longleftrightarrow> (\<forall>h x. valid_in h (R h x) \<longrightarrow> (\<exists>y h'. F (Some x) h = (Some y, h')
     \<and> C h' y = C h x \<and> C h' x = C h x \<and> R h' x = R h x \<and> R h' y \<inter> R h x = {}
     \<and> (\<forall>a c. (a \<in> R h' y \<longrightarrow> C (h'[a := c]) x = C h x) \<and> (a \<in> R h x \<longrightarrow> C (h'[a := c]) y = C h x))))"

lemma deep_copies_deeply:
  assumes "deep_copy R C f"
  shows "copies_deeply R C (DeepCopy f)"
  unfolding copies_deeply_def
proof (intro allI impI)
  fix h x
  assume valid: "valid_in h (R h x)"
  obtain y h' where f: "f x h = (y, h')" by (rule prod.exhaust)
  have "DeepCopy f (Some x) h = (Some y, h')" by (simp add: DeepCopy_def f)
  moreover have "C h' y = C h x" "C h' x = C h x" "R h' x = R h x"
    using deep_copy.copied [OF assms valid f] deep_copy.original_kept [OF assms valid f] by simp_all
  ultimately show "\<exists>y h'. DeepCopy f (Some x) h = (Some y, h') \<and> C h' y = C h x \<and> C h' x = C h x \<and> R h' x = R h x \<and> R h' y \<inter> R h x = {}
     \<and> (\<forall>a c. (a \<in> R h' y \<longrightarrow> C (h'[a := c]) x = C h x) \<and> (a \<in> R h x \<longrightarrow> C (h'[a := c]) y = C h x))"
    using deep_copy.nothing_shared [OF assms valid f] deep_copy.independent [OF assms valid f] by (intro exI conjI) auto
qed

text \<open>
  C40: the generated deep copies of the API objects are deep. A copy of a list of ServiceImports, of ServiceExports or of
  ClusterProperties, nil slices and pointers included, says what the original says and shares no memory with it, at any depth; a
  write through the one is never seen through the other. So a controller that changes a copy does not change the object
  in the cache it was taken from. The copies of metadata, conditions and session affinity by their own packages are taken to be deep.
\<close>

theorem deep_copies_share_nothing:
  assumes "library_laws lib"
  shows "copies_deeply (list_reach lib the_imports (import_reach lib)) (list_content lib the_imports (import_content lib))
      (ServiceImportList_DeepCopy lib)
    \<and> copies_deeply (list_reach lib the_exports (export_reach lib)) (list_content lib the_exports (export_content lib))
      (ServiceExportList_DeepCopy lib)
    \<and> copies_deeply (list_reach lib the_properties (property_reach lib)) (list_content lib the_properties (property_content lib))
      (ClusterPropertyList_DeepCopy lib)"
  unfolding ServiceImportList_DeepCopy_def ServiceExportList_DeepCopy_def ClusterPropertyList_DeepCopy_def
  by (intro conjI deep_copies_deeply deep_copy_lists [OF assms])

definition plain_library :: "(string, string) library" where
  "plain_library = \<lparr>libReach = (\<lambda>t h x. {}), libContent = (\<lambda>t h x. x), libDeepCopyInto = (\<lambda>t. Pair)\<rparr>"

lemma plain_library_laws: "library_laws plain_library"
  by (simp add: library_laws_def plain_library_def deep_copy_plain)

text \<open>A list with one import of two IPs, at address 1: its copy has the IPs, and keeps them when they are overwritten in the original.\<close>

definition example_import :: "string heap_import" where
  "example_import = \<lparr>iobTypeMeta = (''ServiceImport'', ''v1alpha1''), iobObjectMeta = ''web'',
     iobSpec = \<lparr>sobPorts = None, sobIPs = Some 0, sobType = ''ClusterSetIP'', sobSessionAffinity = '''',
       sobSessionAffinityConfig = None\<rparr>, iobStatus = \<lparr>iobClusters = None\<rparr>\<rparr>"

definition example_memory :: "string heap" where
  "example_memory = [StringsCell [''10.0.0.1'', ''10.0.0.2''], ImportsCell [example_import]]"

definition example_list :: "string heap_list" where
  "example_list = \<lparr>lobTypeMeta = (''ServiceImportList'', ''v1alpha1''), lobListMeta = '''', lobItems = Some 1\<rparr>"

lemma deep_copies_share_nothing_witness:
  "\<exists>y h'. ServiceImportList_DeepCopy plain_library (Some example_list) example_memory = (Some y, h')
     \<and> list_content plain_library the_imports (import_content plain_library) (h'[0 := StringsCell []]) y
       = list_content plain_library the_imports (import_content plain_library) example_memory example_list
     \<and> map_option (map (sobIPs \<circ> iobSpec)) (lobItems
         (list_content plain_library the_imports (import_content plain_library) example_memory example_list))
       = Some [Some [''10.0.0.1'', ''10.0.0.2'']]"
proof -
  let ?R = "list_reach plain_library the_imports (import_reach plain_library)"
    and ?C = "list_content plain_library the_imports (import_content plain_library)"
  note defs = list_reach_def list_content_def import_reach_def import_content_def spec_reach_def spec_content_def
    import_status_reach_def import_status_content_def pointer_reach_def pointer_content_def load_def plain_library_def
    example_list_def example_memory_def example_import_def
  have r: "?R example_memory example_list = {0, 1}" by (auto simp: defs the_strings_def the_imports_def)
  then have "valid_in example_memory (?R example_memory example_list)" by (simp add: example_memory_def)
  with deep_copies_share_nothing [OF plain_library_laws, THEN conjunct1, unfolded copies_deeply_def]
  obtain y h' where y: "ServiceImportList_DeepCopy plain_library (Some example_list) example_memory = (Some y, h')"
    and c: "\<forall>a c. a \<in> ?R example_memory example_list \<longrightarrow> ?C (h'[a := c]) y = ?C example_memory example_list" by blast
  have kept: "?C (h'[0 := StringsCell []]) y = ?C example_memory example_list" using c r by simp
  have ips: "map_option (map (sobIPs \<circ> iobSpec)) (lobItems (?C example_memory example_list)) = Some [Some [''10.0.0.1'', ''10.0.0.2'']]"
    by (simp add: defs)
  show ?thesis by (rule exI [of _ y], rule exI [of _ h'], rule conjI [OF y conjI [OF kept ips]])
qed

end
